(* ===== verification/Gosestor_Prelude.thy ===== *)
theory Gosestor_Prelude
  imports Main "HOL-Library.AList" "HOL-Library.Word"
begin

text \<open>
  Shared vocabulary of the development: Go's \<open>int64\<close> arithmetic, Go maps as association lists,
  the early-return idiom \<open>if err != nil { return err }\<close>, and the theorem collections the
  component theories fill.
\<close>

section \<open>Collections\<close>

named_theorems store_defs \<open>definitions of the store operations\<close>
named_theorems gomap_simps \<open>lookups after updates of Go maps\<close>
named_theorems manager_defs \<open>definitions of the session manager\<close>

section \<open>Machine integers\<close>

text \<open>
  Go's \<open>int64\<close> is two's complement and wraps silently. Values are kept as \<open>int\<close>;
  every \<open>+\<close>, \<open>-\<close> and \<open>*\<close> of the source that can leave the range is followed by \<open>i64\<close>.
\<close>

type_synonym int64 = int
type_synonym duration = int \<comment> \<open>\<open>time.Duration\<close>: an \<open>int64\<close> count of nanoseconds\<close>

definition i64 :: "int \<Rightarrow> int64" where
  "i64 x = (x + 2 ^ 63) mod 2 ^ 64 - 2 ^ 63"

definition is_i64 :: "int \<Rightarrow> bool" where
  "is_i64 x \<longleftrightarrow> - (2 ^ 63) \<le> x \<and> x < 2 ^ 63"

lemma i64_id [simp]: "is_i64 x \<Longrightarrow> i64 x = x"
  by (simp add: i64_def is_i64_def)

lemma is_i64_i64 [simp]: "is_i64 (i64 x)"
proof -
  have "0 \<le> (x + 2 ^ 63) mod 2 ^ 64" and "(x + 2 ^ 63) mod 2 ^ 64 < 2 ^ 64"
    by simp_all
  then show ?thesis by (simp add: i64_def is_i64_def)
qed

text \<open>The wrap-around agrees with the library's signed reading of a 64-bit word.\<close>

lemma i64_word: "i64 x = sint (word_of_int x :: 64 word)"
proof -
  have "sint (word_of_int x :: 64 word) = signed_take_bit 63 x"
    by (simp add: sint_sbintrunc')
  also have "\<dots> = (x + 2 ^ 63) mod 2 ^ 64 - 2 ^ 63"
    by (simp add: signed_take_bit_eq_take_bit_shift take_bit_eq_mod)
  finally show ?thesis by (simp add: i64_def)
qed

text \<open>\<open>time.Second\<close>, and \<open>int64(d.Seconds())\<close>: truncation towards zero of a duration.\<close>

definition Second :: duration where
  "Second = 1000000000"

definition seconds_of :: "duration \<Rightarrow> int64" where
  "seconds_of d = (if d < 0 then - ((- d) div Second) else d div Second)"

lemma seconds_of_nonneg: "0 \<le> d \<Longrightarrow> 0 \<le> seconds_of d"
  by (simp add: seconds_of_def Second_def)

section \<open>Go maps\<close>

text \<open>
  A Go map is an association list; the list order is the (unspecified) iteration order.
  Lookups see one binding per key whatever the representation, so the laws below hold
  without an invariant.
\<close>

type_synonym ('k, 'v) gomap = "('k \<times> 'v) list"

abbreviation mget :: "('k, 'v) gomap \<Rightarrow> 'k \<Rightarrow> 'v option" where
  "mget \<equiv> map_of"

abbreviation mput :: "'k \<Rightarrow> 'v \<Rightarrow> ('k, 'v) gomap \<Rightarrow> ('k, 'v) gomap" where
  "mput \<equiv> AList.update"

abbreviation mdel :: "'k \<Rightarrow> ('k, 'v) gomap \<Rightarrow> ('k, 'v) gomap" where
  "mdel \<equiv> AList.delete"

text \<open>A nil inner map reads as empty.\<close>

definition inner :: "('k, ('l, 'v) gomap) gomap \<Rightarrow> 'k \<Rightarrow> ('l, 'v) gomap" where
  "inner m k = (case mget m k of None \<Rightarrow> [] | Some x \<Rightarrow> x)"

definition mkeys :: "('k, 'v) gomap \<Rightarrow> 'k set" where
  "mkeys m = fst ` set m"

lemma mget_mput [gomap_simps]: "mget (mput k v m) = (mget m)(k \<mapsto> v)"
  by (rule update_conv')

lemma mget_mdel [gomap_simps]: "mget (mdel k m) = (mget m)(k := None)"
  by (rule delete_conv')

lemma mkeys_iff: "k \<in> mkeys m \<longleftrightarrow> mget m k \<noteq> None"
  by (simp add: mkeys_def map_of_eq_None_iff)

lemma inner_mput [gomap_simps]: "inner (mput k v m) l = (if l = k then v else inner m l)"
  by (simp add: inner_def mget_mput)

lemma inner_mdel [gomap_simps]: "inner (mdel k m) l = (if l = k then [] else inner m l)"
  by (simp add: inner_def mget_mdel)

lemma mget_filter_snd [gomap_simps]:
  "distinct (map fst m) \<Longrightarrow>
   mget (filter (\<lambda>(k, v). P v) m) k = (case mget m k of None \<Rightarrow> None | Some v \<Rightarrow> if P v then Some v else None)"
  by (induction m) (auto simp: map_of_eq_None_iff image_iff split: option.splits)

section \<open>Early return\<close>

text \<open>
  A fallible operation on a state returns the new state and either an error or a value: Go's
  state after the call is kept on the error path too. \<open>andThen\<close> is the idiom
  \<open>x, err := f(); if err != nil { return err }; \<dots>\<close>.
\<close>

definition andThen :: "'s \<times> ('e + 'a) \<Rightarrow> ('s \<Rightarrow> 'a \<Rightarrow> 's \<times> ('e + 'b)) \<Rightarrow> 's \<times> ('e + 'b)" where
  "andThen p f = (case p of (s, Inl e) \<Rightarrow> (s, Inl e) | (s, Inr x) \<Rightarrow> f s x)"

lemma andThen_simps [simp]:
  "andThen (s, Inl e) f = (s, Inl e)"
  "andThen (s, Inr x) f = f s x"
  by (simp_all add: andThen_def)

lemma andThen_split:
  "P (andThen p f) \<longleftrightarrow>
     (\<forall>s e. p = (s, Inl e) \<longrightarrow> P (s, Inl e)) \<and> (\<forall>s x. p = (s, Inr x) \<longrightarrow> P (f s x))"
  by (auto simp: andThen_def split: prod.splits sum.splits)

lemma andThen_split_asm:
  "P (andThen p f) \<longleftrightarrow>
     \<not> ((\<exists>s e. p = (s, Inl e) \<and> \<not> P (s, Inl e)) \<or> (\<exists>s x. p = (s, Inr x) \<and> \<not> P (f s x)))"
  by (auto simp: andThen_def split: prod.splits sum.splits)

lemmas andThen_splits = andThen_split andThen_split_asm

lemma andThen_InrE:
  assumes "andThen p f = (s', Inr y)"
  obtains s x where "p = (s, Inr x)" and "f s x = (s', Inr y)"
  using assms by (auto simp: andThen_def split: prod.splits sum.splits)

end
