(* ===== verification/Cookie_Filter.thy ===== *)
theory Cookie_Filter
  imports Gosestor_Prelude
begin

text \<open>
  The cookie filter (\<open>internal/filter/filter.go\<close>): two name sets and the deny-by-default
  decision for one \<open>Set-Cookie\<close> name.
\<close>

datatype Decision = Drop | Forward | Store

record Filter =
  f_forward :: "(string, unit) gomap"
  f_store :: "(string, unit) gomap"

definition toSet :: "string list \<Rightarrow> (string, unit) gomap" where
  "toSet names = fold (\<lambda>n s. mput n () s) names []"

definition New_filter :: "string list \<Rightarrow> string list \<Rightarrow> Filter" where
  "New_filter forward store = \<lparr>f_forward = toSet forward, f_store = toSet store\<rparr>"

definition Decide :: "Filter \<Rightarrow> string \<Rightarrow> Decision" where
  "Decide f name =
     (if mget (f_store f) name \<noteq> None then Store
      else if mget (f_forward f) name \<noteq> None then Forward
      else Drop)"

lemma mget_toSet_fold:
  "mget (fold (\<lambda>n s. mput n () s) names m) k = (if k \<in> set names then Some () else mget m k)"
  by (induction names arbitrary: m) (auto simp: gomap_simps)

lemma mget_toSet [simp]: "mget (toSet names) k = (if k \<in> set names then Some () else None)"
  by (simp add: toSet_def mget_toSet_fold)

text \<open>
  C36. The filter built from the configured lists is deny-by-default and store wins over forward:
  a cookie name is stored exactly when it is in the store list, forwarded exactly when it is in the
  forward list only, and dropped when it is in neither, whatever the order and duplicates of the lists.
\<close>

theorem Decide_spec:
  "(Decide (New_filter forward store) name = Store \<longleftrightarrow> name \<in> set store) \<and>
   (Decide (New_filter forward store) name = Forward \<longleftrightarrow> name \<in> set forward - set store) \<and>
   (Decide (New_filter forward store) name = Drop \<longleftrightarrow> name \<notin> set forward \<union> set store)"
  by (simp add: Decide_def New_filter_def)

end
