(* ===== verification/Go_Strings.thy ===== *)
theory Go_Strings
  imports Gosestor_Prelude "HOL-Library.Char_ord" "HOL-Library.List_Lexorder"
begin

text \<open>
  The functions of Go's \<open>strings\<close>, \<open>strconv\<close> and \<open>unicode\<close> packages that the
  program calls. A Go string is a byte sequence, so it is a \<^typ>\<open>string\<close>; the functions that
  walk over runes decode UTF-8 as Go does (an ill-formed byte is the replacement rune of width 1).
\<close>

section \<open>UTF-8\<close>

definition ord :: "char \<Rightarrow> int" where
  "ord c = of_char c"

lemma ord_bounds: "0 \<le> ord c \<and> ord c < 256"
proof -
  have "ord c = int (of_char c)" by (simp add: ord_def of_nat_of_char)
  then show ?thesis by simp
qed

lemma ord_inj: "ord c = ord d \<longleftrightarrow> c = d"
  by (simp add: ord_def)

lemma ord_char_of: "0 \<le> n \<Longrightarrow> n < 256 \<Longrightarrow> ord (char_of n) = n"
  by (simp add: ord_def)

text \<open>Size of the sequence a lead byte announces and the range of its second byte
  (\<open>utf8.first\<close> and \<open>acceptRanges\<close>).\<close>

definition seq_info :: "int \<Rightarrow> (nat \<times> int \<times> int) option" where
  "seq_info b =
     (if b < 194 then None
      else if b \<le> 223 then Some (2, 128, 191)
      else if b = 224 then Some (3, 160, 191)
      else if b = 237 then Some (3, 128, 159)
      else if b \<le> 239 then Some (3, 128, 191)
      else if b = 240 then Some (4, 144, 191)
      else if b \<le> 243 then Some (4, 128, 191)
      else if b = 244 then Some (4, 128, 143)
      else None)"

definition is_cont :: "char \<Rightarrow> bool" where
  "is_cont c \<longleftrightarrow> 128 \<le> ord c \<and> ord c \<le> 191"

definition tail_ok :: "nat \<Rightarrow> int \<Rightarrow> int \<Rightarrow> string \<Rightarrow> bool" where
  "tail_ok n lo hi t =
     (case take (n - 1) t of
        [] \<Rightarrow> False
      | c # cs \<Rightarrow> length cs = n - 2 \<and> lo \<le> ord c \<and> ord c \<le> hi \<and> list_all is_cont cs)"

text \<open>Bytes used by the first rune of a non-empty string, and its value.\<close>

definition rune_len :: "string \<Rightarrow> nat" where
  "rune_len s =
     (case s of [] \<Rightarrow> 0
      | c # t \<Rightarrow> (case seq_info (ord c) of None \<Rightarrow> 1
         | Some (n, lo, hi) \<Rightarrow> if tail_ok n lo hi t then n else 1))"

fun rune_bits :: "int \<Rightarrow> string \<Rightarrow> int" where
  "rune_bits v [] = v"
| "rune_bits v (c # cs) = rune_bits (v * 64 + (ord c - 128)) cs"

definition rune_value :: "string \<Rightarrow> int" where
  "rune_value b =
     (case b of [] \<Rightarrow> 65533
      | c # cs \<Rightarrow>
         if cs = [] then (if ord c < 128 then ord c else 65533)
         else rune_bits (case length cs of 0 \<Rightarrow> 0 | Suc 0 \<Rightarrow> ord c - 192
                         | Suc (Suc 0) \<Rightarrow> ord c - 224 | _ \<Rightarrow> ord c - 240) cs)"

lemma rune_len_pos: "s \<noteq> [] \<Longrightarrow> 0 < rune_len s"
  by (auto simp: rune_len_def seq_info_def split: list.splits option.splits if_splits)

text \<open>The byte chunks of the runes of a string, in order (\<open>for _, r := range s\<close>).\<close>

function chunks :: "string \<Rightarrow> string list" where
  "chunks s = (if s = [] then [] else take (rune_len s) s # chunks (drop (rune_len s) s))"
  by pat_completeness auto
termination
  by (relation "measure length") (simp_all add: rune_len_pos)

declare chunks.simps [simp del]

lemma chunks_Nil [simp]: "chunks [] = []"
  by (simp add: chunks.simps)

lemma chunks_Cons: "s \<noteq> [] \<Longrightarrow> chunks s = take (rune_len s) s # chunks (drop (rune_len s) s)"
  by (subst chunks.simps) simp

lemma concat_chunks [simp]: "concat (chunks s) = s"
proof (induction s rule: chunks.induct)
  case (1 s)
  then show ?case by (cases "s = []") (simp_all add: chunks_Cons)
qed

lemma chunks_nonempty: "b \<in> set (chunks s) \<Longrightarrow> b \<noteq> []"
proof (induction s rule: chunks.induct)
  case (1 s)
  show ?case
  proof (cases "s = []")
    case False
    with "1.prems" have "b = take (rune_len s) s \<or> b \<in> set (chunks (drop (rune_len s) s))"
      by (simp add: chunks_Cons)
    with False "1.IH" rune_len_pos [OF False] show ?thesis by auto
  qed (use "1.prems" in simp)
qed

lemma tail_ok_len: "tail_ok n lo hi t \<Longrightarrow> n - 1 \<le> length t"
proof -
  assume "tail_ok n lo hi t"
  then obtain c cs where t: "take (n - 1) t = c # cs" and l: "length cs = n - 2"
    by (auto simp: tail_ok_def split: list.splits)
  have "length (take (n - 1) t) = Suc (n - 2)" unfolding t using l by simp
  then show ?thesis by simp
qed

lemma rune_len_le: "s \<noteq> [] \<Longrightarrow> rune_len s \<le> length s"
  by (auto simp: rune_len_def split: list.splits option.splits dest!: tail_ok_len)

text \<open>A prefix that holds the first rune decodes the same first rune.\<close>

lemma tail_ok_append:
  assumes "n - 1 \<le> length t \<or> (u \<noteq> [] \<longrightarrow> \<not> is_cont (hd u))" "128 \<le> lo" "hi \<le> 191"
    and n: "2 \<le> n"
  shows "tail_ok n lo hi (t @ u) = tail_ok n lo hi t"
proof (cases "n - 1 \<le> length t")
  case True
  then show ?thesis by (simp add: tail_ok_def)
next
  case False
  then have short: "length t < n - 1" by simp
  have r: "\<not> tail_ok n lo hi t"
    using short n by (auto simp: tail_ok_def split: list.splits)
  have l: "\<not> tail_ok n lo hi (t @ u)"
  proof (cases u)
    case Nil
    with r show ?thesis by simp
  next
    case (Cons c u')
    with assms(1) False have c: "\<not> is_cont c" by simp
    obtain k where k: "n - 1 - length t = Suc k"
      using short by (metis Suc_diff_Suc)
    have tk: "take (n - 1) (t @ u) = t @ c # take k u'"
      using short k Cons by simp
    show ?thesis
    proof (cases t)
      case Nil
      with c assms(2,3) show ?thesis
        unfolding tail_ok_def tk by (auto simp: is_cont_def)
    next
      case (Cons d t')
      with c show ?thesis
        unfolding tail_ok_def tk by auto
    qed
  qed
  from l r show ?thesis by simp
qed

lemma seq_info_bounds:
  "seq_info b = Some (n, lo, hi) \<Longrightarrow> 2 \<le> n \<and> n \<le> 4 \<and> 128 \<le> lo \<and> hi \<le> 191"
  by (auto simp: seq_info_def split: if_splits)

lemma rune_len_append:
  assumes "s \<noteq> []" and "rune_len (s @ u) \<le> length s \<or> (u \<noteq> [] \<longrightarrow> \<not> is_cont (hd u))"
  shows "rune_len (s @ u) = rune_len s"
proof -
  obtain c t where s: "s = c # t" using assms(1) by (cases s) auto
  show ?thesis
  proof (cases "seq_info (ord c)")
    case None
    with s show ?thesis by (simp add: rune_len_def)
  next
    case (Some x)
    then obtain n lo hi where x: "seq_info (ord c) = Some (n, lo, hi)" by (cases x) auto
    note b = seq_info_bounds [OF x]
    show ?thesis
    proof (cases "u \<noteq> [] \<longrightarrow> \<not> is_cont (hd u)")
      case True
      with b have "tail_ok n lo hi (t @ u) = tail_ok n lo hi t"
        by (intro tail_ok_append) auto
      with s x show ?thesis by (simp add: rune_len_def)
    next
      case False
      with assms(2) have len: "rune_len (s @ u) \<le> length s" by blast
      show ?thesis
      proof (cases "tail_ok n lo hi (t @ u)")
        case True
        with len s x have "n - 1 \<le> length t" by (simp add: rune_len_def)
        with b have "tail_ok n lo hi (t @ u) = tail_ok n lo hi t"
          by (intro tail_ok_append) auto
        with s x show ?thesis by (simp add: rune_len_def)
      next
        case nok: False
        have "\<not> tail_ok n lo hi t"
        proof
          assume ok: "tail_ok n lo hi t"
          then have "n - 1 \<le> length t" by (rule tail_ok_len)
          with b have "tail_ok n lo hi (t @ u) = tail_ok n lo hi t"
            by (intro tail_ok_append) auto
          with ok nok show False by simp
        qed
        with nok s x show ?thesis by (simp add: rune_len_def)
      qed
    qed
  qed
qed

text \<open>Decoding restarts at a byte that is not a continuation byte.\<close>

lemma chunks_append:
  assumes "u \<noteq> [] \<longrightarrow> \<not> is_cont (hd u)"
  shows "chunks (s @ u) = chunks s @ chunks u"
proof (induction s rule: chunks.induct)
  case (1 s)
  show ?case
  proof (cases "s = []")
    case True
    then show ?thesis by simp
  next
    case False
    from False assms have eq: "rune_len (s @ u) = rune_len s" by (intro rune_len_append) auto
    from False have le: "rune_len s \<le> length s" by (rule rune_len_le)
    with False "1.IH" eq show ?thesis by (simp add: chunks_Cons)
  qed
qed

text \<open>A run of consecutive chunks decodes to itself.\<close>

lemma chunks_suffix: "chunks s = xs @ ys \<Longrightarrow> chunks (concat ys) = ys"
proof (induction s arbitrary: xs rule: chunks.induct)
  case (1 s)
  show ?case
  proof (cases "s = []")
    case True
    with "1.prems" show ?thesis by simp
  next
    case False
    show ?thesis
    proof (cases xs)
      case Nil
      with "1.prems" have "concat ys = s" by (metis append_Nil concat_chunks)
      with Nil "1.prems" show ?thesis by simp
    next
      case (Cons x xs')
      with False "1.prems" have "chunks (drop (rune_len s) s) = xs' @ ys" by (simp add: chunks_Cons)
      with False show ?thesis by (rule "1.IH")
    qed
  qed
qed

lemma chunks_prefix: "chunks s = ys @ zs \<Longrightarrow> chunks (concat ys) = ys"
proof (induction ys arbitrary: s)
  case Nil
  then show ?case by simp
next
  case (Cons y ys)
  from Cons.prems have ne: "s \<noteq> []" by auto
  with Cons.prems have y: "y = take (rune_len s) s"
    and rest: "chunks (drop (rune_len s) s) = ys @ zs" by (simp_all add: chunks_Cons)
  from ne have len: "length y = rune_len s" using rune_len_le [OF ne] y by simp
  have s: "s = (y @ concat ys) @ concat zs"
    using Cons.prems by (metis append.assoc concat.simps(2) concat_append concat_chunks)
  have yne: "y @ concat ys \<noteq> []" using Cons.prems chunks_nonempty [of y s] by simp
  have "rune_len ((y @ concat ys) @ concat zs) \<le> length (y @ concat ys)"
    unfolding s [symmetric] using len by simp
  then have "rune_len ((y @ concat ys) @ concat zs) = rune_len (y @ concat ys)"
    using yne by (intro rune_len_append) auto
  then have rl: "rune_len (y @ concat ys) = length y" unfolding s [symmetric] using len by simp
  have "chunks (concat ys) = ys" using rest by (rule Cons.IH)
  with yne rl show ?case by (simp add: chunks_Cons)
qed

lemma chunks_infix: "chunks s = xs @ ys @ zs \<Longrightarrow> chunks (concat ys) = ys"
  using chunks_suffix [of s xs "ys @ zs"] chunks_prefix [of "concat (ys @ zs)" ys zs] by simp

section \<open>Fields, trimming, joining\<close>

definition runes :: "string \<Rightarrow> int list" where
  "runes s = map rune_value (chunks s)"

text \<open>\<open>unicode.IsSpace\<close>.\<close>

definition IsSpace :: "int \<Rightarrow> bool" where
  "IsSpace r \<longleftrightarrow> (9 \<le> r \<and> r \<le> 13) \<or> r = 32 \<or> r = 133 \<or> r = 160 \<or> r = 5760
     \<or> (8192 \<le> r \<and> r \<le> 8202) \<or> r = 8232 \<or> r = 8233 \<or> r = 8239 \<or> r = 8287 \<or> r = 12288"

text \<open>\<open>strings.FieldsFunc\<close>: maximal runs of runes outside the separator predicate.\<close>

fun fields_aux :: "(int \<Rightarrow> bool) \<Rightarrow> string list \<Rightarrow> string \<Rightarrow> string list" where
  "fields_aux p [] cur = (if cur = [] then [] else [cur])"
| "fields_aux p (b # bs) cur =
     (if p (rune_value b)
      then (if cur = [] then fields_aux p bs [] else cur # fields_aux p bs [])
      else fields_aux p bs (cur @ b))"

definition FieldsFunc :: "(int \<Rightarrow> bool) \<Rightarrow> string \<Rightarrow> string list" where
  "FieldsFunc p s = fields_aux p (chunks s) []"

definition Fields :: "string \<Rightarrow> string list" where
  "Fields s = FieldsFunc IsSpace s"

definition TrimSpace :: "string \<Rightarrow> string" where
  "TrimSpace s =
     (let sp = (\<lambda>b. IsSpace (rune_value b))
      in concat (rev (dropWhile sp (rev (dropWhile sp (chunks s))))))"

fun Join :: "string list \<Rightarrow> string \<Rightarrow> string" where
  "Join [] sep = []"
| "Join [x] sep = x"
| "Join (x # y # ys) sep = x @ sep @ Join (y # ys) sep"

text \<open>\<open>no_rune p s\<close>: no rune of \<open>s\<close> satisfies \<open>p\<close>.\<close>

definition no_rune :: "(int \<Rightarrow> bool) \<Rightarrow> string \<Rightarrow> bool" where
  "no_rune p s \<longleftrightarrow> list_all (\<lambda>b. \<not> p (rune_value b)) (chunks s)"

lemma fields_aux_run:
  "list_all (\<lambda>b. \<not> p (rune_value b)) bs \<Longrightarrow>
   fields_aux p (bs @ cs) cur = fields_aux p cs (cur @ concat bs)"
  by (induction bs arbitrary: cur) auto

lemma fields_aux_elems:
  assumes "chunks s = pre @ mid @ rest" and "cur = concat mid"
    and "list_all (\<lambda>b. \<not> p (rune_value b)) mid" and "f \<in> set (fields_aux p rest cur)"
  shows "f \<noteq> [] \<and> no_rune p f"
  using assms
proof (induction rest arbitrary: pre mid cur)
  case Nil
  have "chunks (concat mid) = mid" using Nil.prems(1) by (rule chunks_infix)
  with Nil.prems show ?case by (auto simp: no_rune_def split: if_splits)
next
  case (Cons b rest)
  have mid: "chunks (concat mid) = mid" using Cons.prems(1) by (rule chunks_infix)
  show ?case
  proof (cases "p (rune_value b)")
    case True
    with Cons.prems(2-4) have "f = concat mid \<and> f \<noteq> [] \<or> f \<in> set (fields_aux p rest [])"
      by (auto split: if_splits)
    then show ?thesis
    proof
      assume "f = concat mid \<and> f \<noteq> []"
      with mid Cons.prems(3) show ?thesis by (auto simp: no_rune_def simp del: concat_eq_Nil_conv)
    next
      assume "f \<in> set (fields_aux p rest [])"
      with Cons.IH [of "pre @ mid @ [b]" "[]" "[]"] Cons.prems(1) show ?thesis by simp
    qed
  next
    case False
    with Cons.prems have "f \<in> set (fields_aux p rest (concat (mid @ [b])))" by simp
    moreover have "list_all (\<lambda>b. \<not> p (rune_value b)) (mid @ [b])"
      using Cons.prems(3) False by simp
    ultimately show ?thesis
      using Cons.IH [of pre "mid @ [b]" "concat (mid @ [b])"] Cons.prems(1) by simp
  qed
qed

text \<open>Every field is non-empty and free of separators.\<close>

lemma FieldsFunc_elems: "f \<in> set (FieldsFunc p s) \<Longrightarrow> f \<noteq> [] \<and> no_rune p f"
  unfolding FieldsFunc_def by (rule fields_aux_elems [of s "[]" "[]" "chunks s"]) simp_all

lemma rune_value_space [simp]: "rune_value '' '' = 32"
  by (simp add: rune_value_def ord_def)

lemma not_cont_space [simp]: "\<not> is_cont (CHR '' '')"
  by (simp add: is_cont_def ord_def)

lemma chunks_space [simp]: "chunks (CHR '' '' # s) = '' '' # chunks s"
  by (simp add: chunks_Cons rune_len_def seq_info_def ord_def)

text \<open>Joining with blanks and splitting on blanks is the identity on blank-free fields.\<close>

lemma Fields_Join:
  assumes "\<And>x. x \<in> set xs \<Longrightarrow> x \<noteq> [] \<and> no_rune IsSpace x"
  shows "Fields (Join xs '' '') = xs"
proof -
  have "fields_aux IsSpace (chunks (Join xs '' '')) [] = xs"
    using assms
  proof (induction xs "'' ''" rule: Join.induct)
    case 1
    then show ?case by simp
  next
    case (2 x)
    then have "list_all (\<lambda>b. \<not> IsSpace (rune_value b)) (chunks x)" and "x \<noteq> []"
      by (auto simp: no_rune_def)
    then show ?case using fields_aux_run [of IsSpace "chunks x" "[]" "[]"] by simp
  next
    case (3 x y ys)
    from "3.prems" [of x] have x: "list_all (\<lambda>b. \<not> IsSpace (rune_value b)) (chunks x)" "x \<noteq> []"
      by (auto simp: no_rune_def)
    have ch: "chunks (Join (x # y # ys) '' '') = chunks x @ '' '' # chunks (Join (y # ys) '' '')"
      using chunks_append [of "CHR '' '' # Join (y # ys) '' ''" x] by simp
    have "fields_aux IsSpace (chunks (Join (x # y # ys) '' '')) []
        = x # fields_aux IsSpace (chunks (Join (y # ys) '' '')) []"
      unfolding ch using x by (subst fields_aux_run) (auto simp: IsSpace_def)
    with "3" show ?case by simp
  qed
  then show ?thesis by (simp add: Fields_def FieldsFunc_def)
qed

lemma TrimSpace_id: "no_rune IsSpace s \<Longrightarrow> TrimSpace s = s"
proof -
  assume "no_rune IsSpace s"
  then have *: "\<forall>b \<in> set (chunks s). \<not> IsSpace (rune_value b)" by (simp add: no_rune_def list_all_iff)
  have 1: "dropWhile (\<lambda>b. IsSpace (rune_value b)) (chunks s) = chunks s"
    using * by (cases "chunks s") auto
  have 2: "dropWhile (\<lambda>b. IsSpace (rune_value b)) (rev (chunks s)) = rev (chunks s)"
  proof (cases "rev (chunks s)")
    case (Cons b bs)
    then have "b \<in> set (rev (chunks s))" by simp
    with * Cons show ?thesis by simp
  qed simp
  show ?thesis by (simp add: TrimSpace_def Let_def 1 2)
qed

section \<open>Searching and cutting\<close>

definition HasPrefix :: "string \<Rightarrow> string \<Rightarrow> bool" where
  "HasPrefix s p \<longleftrightarrow> take (length p) s = p"

definition TrimPrefix :: "string \<Rightarrow> string \<Rightarrow> string" where
  "TrimPrefix s p = (if HasPrefix s p then drop (length p) s else s)"

text \<open>\<open>strings.Trim\<close> with a one-character cutset.\<close>

definition Trim_char :: "char \<Rightarrow> string \<Rightarrow> string" where
  "Trim_char c s = rev (dropWhile ((=) c) (rev (dropWhile ((=) c) s)))"

fun Contains :: "string \<Rightarrow> string \<Rightarrow> bool" where
  "Contains [] sub = (sub = [])"
| "Contains (c # s) sub = (HasPrefix (c # s) sub \<or> Contains s sub)"

text \<open>\<open>strings.Cut\<close> and \<open>strings.Split\<close> with a one-byte ASCII separator.\<close>

definition Cut :: "string \<Rightarrow> char \<Rightarrow> string \<times> string \<times> bool" where
  "Cut s c = (if c \<in> set s
     then (takeWhile (\<lambda>x. x \<noteq> c) s, tl (dropWhile (\<lambda>x. x \<noteq> c) s), True) else (s, [], False))"

fun Split :: "string \<Rightarrow> char \<Rightarrow> string list" where
  "Split [] c = [[]]"
| "Split (x # s) c =
     (if x = c then [] # Split s c
      else (case Split s c of [] \<Rightarrow> [[x]] | f # fs \<Rightarrow> (x # f) # fs))"

lemma HasPrefix_iff: "HasPrefix s p \<longleftrightarrow> (\<exists>t. s = p @ t)"
proof
  assume "HasPrefix s p"
  then have "s = p @ drop (length p) s" unfolding HasPrefix_def by (metis append_take_drop_id)
  then show "\<exists>t. s = p @ t" ..
qed (auto simp: HasPrefix_def)

lemma Split_nonempty: "Split s c \<noteq> []"
  by (induction s) (auto split: list.splits)

section \<open>Letter case\<close>

text \<open>
  The program compares case-insensitively with ASCII constants. On runes, \<open>unicode.ToLower\<close>
  sends the ASCII capitals, the dotted capital I (304) and the Kelvin sign (8490) to ASCII letters
  and every other non-ASCII rune to a non-ASCII rune; those are left alone here. Simple case
  folding adds the long s (383) and has no entry for the dotted capital I.
\<close>

definition lower_rune :: "int \<Rightarrow> int" where
  "lower_rune r = (if 65 \<le> r \<and> r \<le> 90 then r + 32 else if r = 304 then 105
                   else if r = 8490 then 107 else r)"

definition fold_rune :: "int \<Rightarrow> int" where
  "fold_rune r = (if 65 \<le> r \<and> r \<le> 90 then r + 32 else if r = 383 then 115
                  else if r = 8490 then 107 else r)"

definition ToLower_is :: "string \<Rightarrow> string \<Rightarrow> bool" where
  "ToLower_is s lit \<longleftrightarrow> map lower_rune (runes s) = map ord lit"

definition EqualFold_lit :: "string \<Rightarrow> string \<Rightarrow> bool" where
  "EqualFold_lit s lit \<longleftrightarrow> map fold_rune (runes s) = map (\<lambda>c. fold_rune (ord c)) lit"

section \<open>Numbers and booleans\<close>

text \<open>\<open>strconv.ParseBool\<close>; \<open>None\<close> is the syntax error.\<close>

definition ParseBool :: "string \<Rightarrow> bool option" where
  "ParseBool s =
     (if s \<in> {''1'', ''t'', ''T'', ''TRUE'', ''true'', ''True''} then Some True
      else if s \<in> {''0'', ''f'', ''F'', ''FALSE'', ''false'', ''False''} then Some False
      else None)"

fun digits_value :: "string \<Rightarrow> int \<Rightarrow> int option" where
  "digits_value [] v = Some v"
| "digits_value (c # cs) v =
     (if 48 \<le> ord c \<and> ord c \<le> 57 then digits_value cs (v * 10 + (ord c - 48)) else None)"

text \<open>\<open>strconv.ParseInt(s, 10, 64)\<close>; \<open>None\<close> is a syntax or range error.\<close>

definition ParseInt :: "string \<Rightarrow> int64 option" where
  "ParseInt s =
     (let neg = HasPrefix s ''-'';
          ds = (if HasPrefix s ''+'' \<or> neg then tl s else s)
      in if ds = [] then None
         else case digits_value ds 0 of None \<Rightarrow> None
         | Some v \<Rightarrow>
             if \<not> neg \<and> 2 ^ 63 \<le> v then None
             else if neg \<and> 2 ^ 63 < v then None
             else Some (if neg then - v else v))"

lemma digits_value_nonneg: "digits_value s v = Some w \<Longrightarrow> 0 \<le> v \<Longrightarrow> 0 \<le> w"
  by (induction s arbitrary: v) (auto split: if_splits)

lemma ParseInt_range: "ParseInt s = Some v \<Longrightarrow> is_i64 v"
  by (auto simp: ParseInt_def Let_def is_i64_def split: option.splits if_splits
        dest!: digits_value_nonneg)

end
