(* ===== verification/Authz_Policy.thy ===== *)
theory Authz_Policy
  imports Go_Strings "HOL-Library.Multiset" "HOL-Library.Sublist"
begin

text \<open>
  Path-based authorization (\<open>internal/authz/authz.go\<close>): compiling and validating the rules,
  the label a request path requires, and the endpoint of a label. \<open>path.Clean\<close> of Go's standard
  library works on the elements between slashes.
\<close>

section \<open>Lexical path cleaning\<close>

text \<open>One element against the stack of kept elements (innermost first).\<close>

definition clean_step :: "bool \<Rightarrow> string \<Rightarrow> string list \<Rightarrow> string list" where
  "clean_step rooted e st =
     (if e = [] \<or> e = ''.'' then st
      else if e = ''..'' then
        (case st of [] \<Rightarrow> if rooted then [] else [''..'']
         | x # xs \<Rightarrow> if x = ''..'' then ''..'' # st else xs)
      else e # st)"

definition Clean :: "string \<Rightarrow> string" where
  "Clean p =
     (if p = [] then ''.''
      else let rooted = (hd p = CHR ''/'');
               out = rev (fold (clean_step rooted) (Split p (CHR ''/'')) [])
           in if rooted then ''/'' @ Join out ''/''
              else if out = [] then ''.'' else Join out ''/'')"

section \<open>Policy\<close>

text \<open>\<open>Anonymous\<close> is the reserved label meaning "no session required".\<close>

definition Anonymous :: string where
  "Anonymous = ''anonymous''"

record Rule =
  r_Path :: string
  r_Label :: string

record AuthzCfg =
  cfg_Rules :: "Rule list"
  cfg_DefaultLabel :: string
  cfg_AuthEndpoints :: "(string, string) gomap"
  cfg_RedirectParam :: string

record Authz =
  a_rules :: "Rule list"
  a_defaultLabel :: string
  a_endpoints :: "(string, string) gomap"
  a_redirectParam :: string

datatype authz_error =
    RulePathNotAbsolute string
  | RuleEmptyLabel string
  | DuplicateRulePath string
  | LabelWithoutEndpoint string
  | EndpointNotAbsolute string string
  | EndpointRedirectLoop string string string

definition rule_matches :: "Rule \<Rightarrow> string \<Rightarrow> bool" where
  "rule_matches r p \<longleftrightarrow> r_Path r = ''/'' \<or> p = r_Path r \<or> HasPrefix p (r_Path r @ ''/'')"

fun required_loop :: "Rule list \<Rightarrow> string \<Rightarrow> string \<Rightarrow> string" where
  "required_loop [] dflt p = dflt"
| "required_loop (r # rs) dflt p = (if rule_matches r p then r_Label r else required_loop rs dflt p)"

definition Required :: "Authz \<Rightarrow> string \<Rightarrow> string" where
  "Required a reqPath = required_loop (a_rules a) (a_defaultLabel a) (Clean (''/'' @ reqPath))"

definition Endpoint :: "Authz \<Rightarrow> string \<Rightarrow> string" where
  "Endpoint a label = (case mget (a_endpoints a) label of None \<Rightarrow> [] | Some e \<Rightarrow> e)"

definition RedirectParam :: "Authz \<Rightarrow> string" where
  "RedirectParam a = a_redirectParam a"

text \<open>The first loop of \<open>New\<close>: rule paths are absolute, labelled, and distinct once cleaned.\<close>

fun compile_rules :: "Rule list \<Rightarrow> string list \<Rightarrow> authz_error + Rule list" where
  "compile_rules [] seen = Inr []"
| "compile_rules (r # rs) seen =
     (if \<not> HasPrefix (r_Path r) ''/'' then Inl (RulePathNotAbsolute (r_Path r))
      else if r_Label r = [] then Inl (RuleEmptyLabel (r_Path r))
      else let p = Clean (r_Path r) in
        if p \<in> set seen then Inl (DuplicateRulePath p)
        else case compile_rules rs (p # seen) of
            Inl e \<Rightarrow> Inl e
          | Inr out \<Rightarrow> Inr (\<lparr>r_Path = p, r_Label = r_Label r\<rparr> # out))"

text \<open>\<open>sort.Slice\<close> by decreasing path length. Go's sort is not stable; the theorem on
  \<open>required_loop\<close> below shows that the order among equal lengths cannot be observed.\<close>

definition sort_rules :: "Rule list \<Rightarrow> Rule list" where
  "sort_rules rs = sort_key (\<lambda>r. - int (length (r_Path r))) rs"

fun check_used :: "(string, string) gomap \<Rightarrow> string list \<Rightarrow> authz_error option" where
  "check_used eps [] = None"
| "check_used eps (l # ls) =
     (if l = Anonymous then check_used eps ls
      else if (case mget eps l of None \<Rightarrow> [] | Some e \<Rightarrow> e) = [] then Some (LabelWithoutEndpoint l)
      else check_used eps ls)"

text \<open>The path part of an endpoint: everything before the first question mark.\<close>

definition endpoint_path :: "string \<Rightarrow> string" where
  "endpoint_path ep = takeWhile (\<lambda>c. c \<noteq> CHR ''?'') ep"

fun check_endpoints :: "Authz \<Rightarrow> (string \<times> string) list \<Rightarrow> authz_error option" where
  "check_endpoints a [] = None"
| "check_endpoints a ((label, ep) # rest) =
     (if \<not> HasPrefix ep ''/'' then Some (EndpointNotAbsolute label ep)
      else let req = Required a (endpoint_path ep) in
        if req \<noteq> Anonymous then Some (EndpointRedirectLoop ep label req)
        else check_endpoints a rest)"

definition New_authz :: "AuthzCfg \<Rightarrow> authz_error + Authz" where
  "New_authz cfg =
     (let dflt = (if cfg_DefaultLabel cfg = [] then Anonymous else cfg_DefaultLabel cfg);
          param = (if cfg_RedirectParam cfg = [] then ''rd'' else cfg_RedirectParam cfg);
          eps = cfg_AuthEndpoints cfg
      in case compile_rules (cfg_Rules cfg) [] of
           Inl e \<Rightarrow> Inl e
         | Inr rs \<Rightarrow>
             (let a = \<lparr>a_rules = sort_rules rs, a_defaultLabel = dflt,
                       a_endpoints = eps, a_redirectParam = param\<rparr>
              in case check_used eps (remdups (dflt # map r_Label (a_rules a))) of
                   Some e \<Rightarrow> Inl e
                 | None \<Rightarrow> (case check_endpoints a eps of Some e \<Rightarrow> Inl e | None \<Rightarrow> Inr a)))"

section \<open>Elements of a cleaned path\<close>

text \<open>The kept elements of a rooted path, outermost first.\<close>

definition segments :: "string \<Rightarrow> string list" where
  "segments p = rev (fold (clean_step True) (Split p (CHR ''/'')) [])"

definition ok_elem :: "string \<Rightarrow> bool" where
  "ok_elem e \<longleftrightarrow> e \<noteq> [] \<and> e \<noteq> ''.'' \<and> e \<noteq> ''..'' \<and> CHR ''/'' \<notin> set e"

lemma Clean_rooted: "Clean (CHR ''/'' # p) = ''/'' @ Join (segments (CHR ''/'' # p)) ''/''"
  by (simp add: Clean_def segments_def Let_def)

lemma Split_append: "Split (x @ c # y) c = Split x c @ Split y c"
  by (induction x) (auto simp: Split_nonempty split: list.splits)

lemma Split_single: "c \<notin> set e \<Longrightarrow> Split e c = [e]"
  by (induction e) auto

lemma Split_no_sep: "e \<in> set (Split s c) \<Longrightarrow> c \<notin> set e"
  by (induction s arbitrary: e) (auto simp: Split_nonempty split: list.splits if_splits)

lemma fold_clean_ok:
  assumes "\<forall>e \<in> set es. CHR ''/'' \<notin> set e" and "list_all ok_elem st"
  shows "list_all ok_elem (fold (clean_step True) es st)"
  using assms
proof (induction es arbitrary: st)
  case (Cons e es)
  from Cons.prems have "list_all ok_elem (clean_step True e st)"
    by (cases st) (auto simp: clean_step_def ok_elem_def list_all_iff)
  with Cons show ?case by simp
qed simp

lemma segments_ok: "list_all ok_elem (segments p)"
proof -
  have "list_all ok_elem (fold (clean_step True) (Split p (CHR ''/'')) [])"
    by (rule fold_clean_ok) (auto dest: Split_no_sep)
  then show ?thesis by (simp add: segments_def list_all_iff)
qed

lemma fold_clean_id: "list_all ok_elem es \<Longrightarrow> fold (clean_step True) es st = rev es @ st"
proof (induction es arbitrary: st)
  case (Cons e es)
  then have "clean_step True e st = e # st" by (simp add: clean_step_def ok_elem_def)
  with Cons show ?case by simp
qed simp

lemma Split_Join: "list_all ok_elem es \<Longrightarrow> es \<noteq> [] \<Longrightarrow> Split (Join es ''/'') (CHR ''/'') = es"
proof (induction es "''/''" rule: Join.induct)
  case (2 x)
  then show ?case by (simp add: Split_single ok_elem_def)
next
  case (3 x y ys)
  then have "Split x (CHR ''/'') = [x]" by (simp add: Split_single ok_elem_def)
  with 3 Split_append [of x "CHR ''/''" "Join (y # ys) ''/''"] show ?case by simp
qed simp

lemma segments_slash [simp]: "segments (CHR ''/'' # p) = segments p"
  by (simp add: segments_def clean_step_def)

lemma segments_Join:
  assumes "list_all ok_elem es"
  shows "segments (Join es ''/'') = es"
proof (cases "es = []")
  case True
  then show ?thesis by (simp add: segments_def clean_step_def)
next
  case False
  with assms show ?thesis by (simp add: segments_def Split_Join fold_clean_id)
qed

lemma segments_Clean [simp]: "segments (Clean (CHR ''/'' # p)) = segments p"
  by (simp add: Clean_rooted segments_Join segments_ok)

lemma segments_append: "segments (x @ CHR ''/'' # y) = rev (fold (clean_step True) (Split y (CHR ''/'')) (rev (segments x)))"
  by (simp add: segments_def Split_append)

text \<open>Matching a cleaned rule path is a prefix test on elements.\<close>

lemma Join_append_ne:
  "fs \<noteq> [] \<Longrightarrow> gs \<noteq> [] \<Longrightarrow> Join (fs @ gs) sep = Join fs sep @ sep @ Join gs sep"
proof (induction fs sep rule: Join.induct)
  case (2 x sep)
  then show ?case by (cases gs) auto
qed auto

lemma Join_ok_nonempty: "list_all ok_elem es \<Longrightarrow> es \<noteq> [] \<Longrightarrow> Join es sep \<noteq> []"
  by (cases "(es, sep)" rule: Join.cases) (auto simp: ok_elem_def)

lemma Join_prefix_iff:
  assumes es: "list_all ok_elem es" and fs: "list_all ok_elem fs" "fs \<noteq> []"
  shows "Join es ''/'' = Join fs ''/'' \<or> (\<exists>t. Join es ''/'' = Join fs ''/'' @ CHR ''/'' # t) \<longleftrightarrow> prefix fs es"
    (is "?eq \<or> ?ext \<longleftrightarrow> _")
proof
  assume "prefix fs es"
  then obtain gs where gs: "es = fs @ gs" by (auto simp: prefix_def)
  show "?eq \<or> ?ext"
  proof (cases "gs = []")
    case False
    with fs have "Join es ''/'' = Join fs ''/'' @ CHR ''/'' # Join gs ''/''"
      unfolding gs by (simp add: Join_append_ne)
    then show ?thesis by blast
  qed (simp add: gs)
next
  assume *: "?eq \<or> ?ext"
  have ne: "Join fs ''/'' \<noteq> []" using fs by (rule Join_ok_nonempty)
  have fs': "Split (Join fs ''/'') (CHR ''/'') = fs" using fs by (simp add: Split_Join)
  have "es \<noteq> []"
  proof
    assume "es = []"
    with * ne show False by simp
  qed
  with es have es': "Split (Join es ''/'') (CHR ''/'') = es" by (simp add: Split_Join)
  from * show "prefix fs es"
  proof
    assume ?eq
    then have "Split (Join es ''/'') (CHR ''/'') = Split (Join fs ''/'') (CHR ''/'')" by (rule arg_cong)
    then have "es = fs" unfolding es' fs' .
    then show ?thesis by simp
  next
    assume ?ext
    then obtain t where "Join es ''/'' = Join fs ''/'' @ CHR ''/'' # t" ..
    then have "Split (Join es ''/'') (CHR ''/'') = fs @ Split t (CHR ''/'')"
      by (simp add: Split_append fs')
    then have "es = fs @ Split t (CHR ''/'')" unfolding es' .
    then show ?thesis by (rule prefixI)
  qed
qed

lemma rule_matches_segments:
  "rule_matches \<lparr>r_Path = Clean (CHR ''/'' # x), r_Label = l\<rparr> (Clean (CHR ''/'' # y))
     \<longleftrightarrow> prefix (segments x) (segments y)"
proof (cases "segments x = []")
  case True
  then show ?thesis by (simp add: rule_matches_def Clean_rooted)
next
  case False
  then have "Join (segments x) ''/'' \<noteq> []" by (simp add: Join_ok_nonempty segments_ok)
  then have "rule_matches \<lparr>r_Path = Clean (CHR ''/'' # x), r_Label = l\<rparr> (Clean (CHR ''/'' # y)) \<longleftrightarrow>
      Join (segments y) ''/'' = Join (segments x) ''/'' \<or>
      (\<exists>t. Join (segments y) ''/'' = Join (segments x) ''/'' @ CHR ''/'' # t)"
    by (simp add: rule_matches_def Clean_rooted HasPrefix_iff)
  then show ?thesis by (simp only: Join_prefix_iff [OF segments_ok segments_ok False])
qed

lemma Clean_eq_iff: "Clean (CHR ''/'' # x) = Clean (CHR ''/'' # y) \<longleftrightarrow> segments x = segments y"
proof
  assume "Clean (CHR ''/'' # x) = Clean (CHR ''/'' # y)"
  then have "segments (Clean (CHR ''/'' # x)) = segments (Clean (CHR ''/'' # y))" by simp
  then show "segments x = segments y" by simp
qed (simp add: Clean_rooted)

section \<open>Compiled rules\<close>

abbreviation compiled :: "Rule \<Rightarrow> Rule" where
  "compiled r \<equiv> \<lparr>r_Path = Clean (r_Path r), r_Label = r_Label r\<rparr>"

lemma compile_rules_Inr:
  assumes "compile_rules rs seen = Inr out"
  shows "out = map compiled rs \<and> distinct (map r_Path out) \<and> set (map r_Path out) \<inter> set seen = {}
         \<and> (\<forall>r \<in> set rs. HasPrefix (r_Path r) ''/'' \<and> r_Label r \<noteq> [])"
  using assms
proof (induction rs seen arbitrary: out rule: compile_rules.induct)
  case (2 r rs seen)
  from "2.prems" obtain out' where
    pre: "HasPrefix (r_Path r) ''/''" "r_Label r \<noteq> []" "Clean (r_Path r) \<notin> set seen" and
    rec: "compile_rules rs (Clean (r_Path r) # seen) = Inr out'" and out: "out = compiled r # out'"
    by (auto simp: Let_def split: if_splits sum.splits)
  from "2.IH" [OF _ pre(2) refl pre(3) rec] pre(1) have ih: "out' = map compiled rs"
    "distinct (map r_Path out')" "r_Path ` set out' \<inter> insert (Clean (r_Path r)) (set seen) = {}"
    "\<forall>r \<in> set rs. HasPrefix (r_Path r) ''/'' \<and> r_Label r \<noteq> []"
    unfolding set_map list.simps by blast+
  have "set (map r_Path out) \<inter> set seen = {}" using ih(3) pre(3) unfolding out by auto
  moreover have "distinct (map r_Path out)" using ih(2,3) unfolding out by auto
  ultimately show ?case using ih(1,4) pre(1,2) out by simp
qed simp

lemma rooted_cases: "HasPrefix p ''/'' \<Longrightarrow> \<exists>x. p = CHR ''/'' # x"
  by (auto simp: HasPrefix_iff)

text \<open>\<open>covers r path\<close>: the rule's path is a prefix of the request path, element by element.\<close>

definition covers :: "Rule \<Rightarrow> string \<Rightarrow> bool" where
  "covers r path \<longleftrightarrow> prefix (segments (r_Path r)) (segments path)"

lemma rule_matches_covers:
  "HasPrefix (r_Path r) ''/'' \<Longrightarrow> rule_matches (compiled r) (Clean (CHR ''/'' # path)) = covers r path"
proof -
  assume "HasPrefix (r_Path r) ''/''"
  then obtain x where x: "r_Path r = CHR ''/'' # x" using rooted_cases by blast
  show ?thesis unfolding x by (simp add: rule_matches_segments covers_def x)
qed

text \<open>Paths of equal length that both match are equal, so the first match of a list sorted by
  decreasing length is the longest match.\<close>

definition longest_first :: "Rule list \<Rightarrow> bool" where
  "longest_first rs \<longleftrightarrow> sorted_wrt (\<lambda>r r'. length (r_Path r') \<le> length (r_Path r)) rs"

lemma sort_rules_props: "mset (sort_rules rs) = mset rs" "longest_first (sort_rules rs)"
proof -
  have "sorted (map (\<lambda>r. - int (length (r_Path r))) (sort_rules rs))"
    by (simp add: sort_rules_def)
  then show "longest_first (sort_rules rs)" by (simp add: longest_first_def sorted_map)
qed (simp add: sort_rules_def)

lemma required_loop_default: "(\<And>r. r \<in> set rs \<Longrightarrow> \<not> rule_matches r p) \<Longrightarrow> required_loop rs d p = d"
  by (induction rs) auto

lemma required_loop_longest:
  assumes "longest_first rs" and "r \<in> set rs" and "rule_matches r p"
    and max: "\<And>r'. r' \<in> set rs \<Longrightarrow> rule_matches r' p \<Longrightarrow> r' \<noteq> r \<Longrightarrow> length (r_Path r') < length (r_Path r)"
  shows "required_loop rs d p = r_Label r"
  using assms
proof (induction rs)
  case (Cons q rs)
  show ?case
  proof (cases "q = r")
    case True
    with Cons.prems(3) show ?thesis by simp
  next
    case False
    with Cons.prems(1,2) have r: "r \<in> set rs" and le: "length (r_Path r) \<le> length (r_Path q)"
      by (auto simp: longest_first_def)
    have "\<not> rule_matches q p"
    proof
      assume "rule_matches q p"
      then have "length (r_Path q) < length (r_Path r)" using False by (intro Cons.prems(4)) auto
      with le show False by simp
    qed
    moreover have "required_loop rs d p = r_Label r"
    proof (rule Cons.IH)
      show "longest_first rs" using Cons.prems(1) by (simp add: longest_first_def)
      show "r \<in> set rs" by (rule r)
      show "rule_matches r p" by (rule Cons.prems(3))
      show "length (r_Path r') < length (r_Path r)"
        if "r' \<in> set rs" "rule_matches r' p" "r' \<noteq> r" for r'
        using that by (intro Cons.prems(4)) simp_all
    qed
    ultimately show ?thesis by simp
  qed
qed simp

lemma Join_strict_prefix:
  assumes "strict_prefix fs es" and "list_all ok_elem es"
  shows "length (Join fs ''/'') < length (Join es ''/'')"
proof -
  obtain gs where gs: "es = fs @ gs" "gs \<noteq> []" using assms(1) by (auto simp: strict_prefix_def prefix_def)
  then have "Join gs ''/'' \<noteq> []" using assms(2) by (intro Join_ok_nonempty) auto
  with gs show ?thesis by (cases "fs = []") (simp_all add: Join_append_ne)
qed

section \<open>The compiled policy\<close>

lemma New_authz_Inr:
  assumes "New_authz cfg = Inr a"
  shows "a_rules a = sort_rules (map compiled (cfg_Rules cfg))"
    "distinct (map r_Path (map compiled (cfg_Rules cfg)))"
    "\<forall>r \<in> set (cfg_Rules cfg). HasPrefix (r_Path r) ''/'' \<and> r_Label r \<noteq> []"
    "a_defaultLabel a = (if cfg_DefaultLabel cfg = [] then Anonymous else cfg_DefaultLabel cfg)"
    "a_endpoints a = cfg_AuthEndpoints cfg"
    "check_used (a_endpoints a) (remdups (a_defaultLabel a # map r_Label (a_rules a))) = None"
    "check_endpoints a (a_endpoints a) = None"
proof -
  from assms obtain rs where rs: "compile_rules (cfg_Rules cfg) [] = Inr rs"
    and a: "a_rules a = sort_rules rs"
       "a_defaultLabel a = (if cfg_DefaultLabel cfg = [] then Anonymous else cfg_DefaultLabel cfg)"
       "a_endpoints a = cfg_AuthEndpoints cfg"
       "check_used (a_endpoints a) (remdups (a_defaultLabel a # map r_Label (a_rules a))) = None"
       "check_endpoints a (a_endpoints a) = None"
    unfolding New_authz_def Let_def
    by (auto split: sum.splits option.splits simp del: check_used.simps check_endpoints.simps remdups.simps)
  note c = compile_rules_Inr [OF rs]
  show "a_rules a = sort_rules (map compiled (cfg_Rules cfg))" using a(1) c by blast
  show "distinct (map r_Path (map compiled (cfg_Rules cfg)))" using c by blast
  show "\<forall>r \<in> set (cfg_Rules cfg). HasPrefix (r_Path r) ''/'' \<and> r_Label r \<noteq> []" using c by blast
  show "a_defaultLabel a = (if cfg_DefaultLabel cfg = [] then Anonymous else cfg_DefaultLabel cfg)"
    "a_endpoints a = cfg_AuthEndpoints cfg"
    "check_used (a_endpoints a) (remdups (a_defaultLabel a # map r_Label (a_rules a))) = None"
    "check_endpoints a (a_endpoints a) = None" by (fact a)+
qed

lemma covering_rules_comparable:
  assumes "covers q path" "covers r path" "length (segments (r_Path q)) \<le> length (segments (r_Path r))"
    and rooted: "HasPrefix (r_Path q) ''/''" "HasPrefix (r_Path r) ''/''"
    and ne: "Clean (r_Path q) \<noteq> Clean (r_Path r)"
  shows "length (Clean (r_Path q)) < length (Clean (r_Path r))"
proof -
  obtain x y where xy: "r_Path q = CHR ''/'' # x" "r_Path r = CHR ''/'' # y"
    using rooted rooted_cases by blast
  have "prefix (segments x) (segments y)"
    using assms(1-3) xy by (auto simp: covers_def intro: prefix_length_prefix)
  moreover have "segments x \<noteq> segments y" using ne xy by (simp add: Clean_eq_iff)
  ultimately have "strict_prefix (segments x) (segments y)" by (simp add: strict_prefix_def)
  then show ?thesis unfolding xy by (simp add: Clean_rooted Join_strict_prefix segments_ok)
qed

text \<open>Any longest-first arrangement of the compiled rules picks the longest covering rule.\<close>

lemma required_any_order:
  assumes New: "New_authz cfg = Inr a"
    and rs: "mset rs = mset (a_rules a)" "longest_first rs"
    and r: "r \<in> set (cfg_Rules cfg)" "covers r path"
    and max: "\<And>q. q \<in> set (cfg_Rules cfg) \<Longrightarrow> covers q path \<Longrightarrow>
                length (segments (r_Path q)) \<le> length (segments (r_Path r))"
  shows "required_loop rs d (Clean (CHR ''/'' # path)) = r_Label r"
proof -
  note N = New_authz_Inr [OF New]
  have set_rs: "set rs = compiled ` set (cfg_Rules cfg)"
    using rs(1) N(1) sort_rules_props(1) by (metis set_map set_mset_mset)
  have rooted: "HasPrefix (r_Path q) ''/''" if "q \<in> set (cfg_Rules cfg)" for q using N(3) that by blast
  have "required_loop rs d (Clean (CHR ''/'' # path)) = r_Label (compiled r)"
  proof (rule required_loop_longest [OF rs(2)])
    show "compiled r \<in> set rs" using r(1) set_rs by blast
    show "rule_matches (compiled r) (Clean (CHR ''/'' # path))"
      using r rooted by (simp add: rule_matches_covers)
    fix r' assume "r' \<in> set rs" and m: "rule_matches r' (Clean (CHR ''/'' # path))" and ne: "r' \<noteq> compiled r"
    then obtain q where q: "r' = compiled q" "q \<in> set (cfg_Rules cfg)" using set_rs by blast
    have cov: "covers q path" using m rooted [OF q(2)] unfolding q(1) by (simp add: rule_matches_covers)
    have "Clean (r_Path q) \<noteq> Clean (r_Path r)"
    proof
      assume "Clean (r_Path q) = Clean (r_Path r)"
      then have "r_Path (compiled q) = r_Path (compiled r)" by simp
      then have "compiled q = compiled r"
        using N(2) q(2) r(1) by (metis (no_types, lifting) distinct_map image_eqI inj_onD list.set_map)
      with ne q(1) show False by simp
    qed
    with covering_rules_comparable [OF cov r(2) max [OF q(2) cov] rooted [OF q(2)] rooted [OF r(1)]]
    show "length (r_Path r') < length (r_Path (compiled r))" by (simp add: q(1))
  qed
  then show ?thesis by simp
qed

lemma exists_longest_cover:
  assumes "r \<in> set rs" and "covers r path"
  shows "\<exists>r \<in> set rs. covers r path \<and>
    (\<forall>q \<in> set rs. covers q path \<longrightarrow> length (segments (r_Path q)) \<le> length (segments (r_Path r)))"
proof -
  let ?S = "{r \<in> set rs. covers r path}"
  have fin: "finite ?S" and ne: "?S \<noteq> {}" using assms by auto
  let ?f = "\<lambda>r. length (segments (r_Path r))"
  have "Max (?f ` ?S) \<in> ?f ` ?S" using fin ne by (intro Max_in) auto
  then obtain m where m: "m \<in> ?S" "?f m = Max (?f ` ?S)" by auto
  have "?f q \<le> ?f m" if "q \<in> ?S" for q using m(2) fin that by simp
  with m(1) show ?thesis by blast
qed

section \<open>Properties\<close>

text \<open>
  C32. Longest-prefix, segment-aware matching. For a policy that compiles, a request path is governed
  by the configured rule whose cleaned path is the longest element-wise prefix of the cleaned request
  path, whatever the order of the configured rules, and by the default label when no rule covers it.
\<close>

theorem Required_longest_prefix:
  assumes "New_authz cfg = Inr a"
  shows "(r \<in> set (cfg_Rules cfg) \<and> covers r path \<and>
          (\<forall>q \<in> set (cfg_Rules cfg). covers q path \<longrightarrow>
             length (segments (r_Path q)) \<le> length (segments (r_Path r)))
          \<longrightarrow> Required a path = r_Label r) \<and>
         ((\<forall>q \<in> set (cfg_Rules cfg). \<not> covers q path) \<longrightarrow>
          Required a path = (if cfg_DefaultLabel cfg = [] then Anonymous else cfg_DefaultLabel cfg))"
proof (intro conjI impI)
  note N = New_authz_Inr [OF assms]
  assume r: "r \<in> set (cfg_Rules cfg) \<and> covers r path \<and>
          (\<forall>q \<in> set (cfg_Rules cfg). covers q path \<longrightarrow>
             length (segments (r_Path q)) \<le> length (segments (r_Path r)))"
  have "longest_first (a_rules a)" by (simp add: N(1) sort_rules_props)
  with r show "Required a path = r_Label r"
    unfolding Required_def append_Cons append_Nil by (intro required_any_order [OF assms refl]) auto
next
  note N = New_authz_Inr [OF assms]
  assume none: "\<forall>q \<in> set (cfg_Rules cfg). \<not> covers q path"
  have "set (a_rules a) = compiled ` set (cfg_Rules cfg)"
    using N(1) sort_rules_props(1) by (metis set_map set_mset_mset)
  then have "\<not> rule_matches q (Clean (CHR ''/'' # path))" if "q \<in> set (a_rules a)" for q
    using that none N(3) by (auto simp: rule_matches_covers)
  then have "required_loop (a_rules a) d (Clean (CHR ''/'' # path)) = d" for d
    by (rule required_loop_default)
  then show "Required a path = (if cfg_DefaultLabel cfg = [] then Anonymous else cfg_DefaultLabel cfg)"
    by (simp add: Required_def N(4))
qed

text \<open>
  C35. The unstable sort cannot be observed: every arrangement of the compiled rules by decreasing
  path length requires the same label of every path, so ties among equally long rules never matter.
\<close>

theorem Required_sort_unstable:
  assumes "New_authz cfg = Inr a" and "mset rs = mset (a_rules a)" and "longest_first rs"
  shows "Required (a\<lparr>a_rules := rs\<rparr>) path = Required a path"
proof -
  note N = New_authz_Inr [OF assms(1)]
  have lf: "longest_first (a_rules a)" by (simp add: N(1) sort_rules_props)
  have sets: "set rs = set (a_rules a)" "set (a_rules a) = compiled ` set (cfg_Rules cfg)"
    using assms(2) N(1) sort_rules_props(1) by (metis set_mset_mset, metis set_map set_mset_mset)
  show ?thesis
  proof (cases "\<exists>r \<in> set (cfg_Rules cfg). covers r path")
    case True
    then obtain r where r: "r \<in> set (cfg_Rules cfg)" "covers r path"
      "\<And>q. q \<in> set (cfg_Rules cfg) \<Longrightarrow> covers q path \<Longrightarrow>
         length (segments (r_Path q)) \<le> length (segments (r_Path r))"
      using exists_longest_cover by blast
    show ?thesis
      using required_any_order [OF assms r] required_any_order [OF assms(1) refl lf r]
      by (simp add: Required_def)
  next
    case False
    then have none: "\<not> rule_matches q (Clean (CHR ''/'' # path))" if "q \<in> set (a_rules a)" for q
      using that sets(2) N(3) by (auto simp: rule_matches_covers)
    then have "required_loop rs d (Clean (CHR ''/'' # path)) = d"
      and "required_loop (a_rules a) d (Clean (CHR ''/'' # path)) = d" for d
      using sets(1) by (auto intro: required_loop_default)
    then show ?thesis by (simp add: Required_def)
  qed
qed

lemma check_used_None: "check_used eps ls = None \<Longrightarrow> l \<in> set ls \<Longrightarrow> l \<noteq> Anonymous \<Longrightarrow>
    \<exists>e. mget eps l = Some e \<and> e \<noteq> []"
  by (induction eps ls rule: check_used.induct) (auto split: if_splits option.splits)

lemma check_endpoints_None: "check_endpoints a eps = None \<Longrightarrow> (l, e) \<in> set eps \<Longrightarrow>
    HasPrefix e ''/'' \<and> Required a (endpoint_path e) = Anonymous"
  by (induction a eps rule: check_endpoints.induct) (auto simp: Let_def split: if_splits)

text \<open>
  C33. No redirect loop and no dead end: when a policy compiles, every label it can demand (of a rule
  or the default) other than \<open>anonymous\<close> has an absolute auth endpoint, and the path of every
  configured endpoint is itself public.
\<close>

theorem New_no_redirect_loop:
  assumes "New_authz cfg = Inr a" and "Required a path \<noteq> Anonymous"
  shows "HasPrefix (Endpoint a (Required a path)) ''/'' \<and>
         Required a (endpoint_path (Endpoint a (Required a path))) = Anonymous"
proof -
  note N = New_authz_Inr [OF assms(1)]
  have "required_loop rs d p \<in> set (d # map r_Label rs)" for rs d p
    by (induction rs) auto
  then have "Required a path \<in> set (remdups (a_defaultLabel a # map r_Label (a_rules a)))"
    unfolding Required_def set_remdups .
  then obtain e where e: "mget (a_endpoints a) (Required a path) = Some e"
    using check_used_None [OF N(6) _ assms(2)] by blast
  then have "(Required a path, e) \<in> set (a_endpoints a)" by (rule map_of_SomeD)
  from check_endpoints_None [OF N(7) this] e show ?thesis by (simp add: Endpoint_def)
qed

lemma Required_segments: "segments p = segments q \<Longrightarrow> Required a p = Required a q"
  by (simp add: Required_def Clean_rooted)

text \<open>
  C34. Path tricks change nothing: doubled slashes, \<open>.\<close> elements, a \<open>name/..\<close> detour and leading
  slashes give the same required label as the plain path, and so does the cleaned path itself.
\<close>

theorem Required_traversal_proof:
  "Required a (x @ ''//'' @ y) = Required a (x @ ''/'' @ y) \<and>
   Required a (x @ ''/./'' @ y) = Required a (x @ ''/'' @ y) \<and>
   (ok_elem e \<longrightarrow> Required a (x @ ''/'' @ e @ ''/../'' @ y) = Required a (x @ ''/'' @ y)) \<and>
   Required a (''/'' @ x) = Required a x \<and>
   Required a (Clean (''/'' @ x)) = Required a x"
proof (intro conjI impI)
  show "Required a (x @ ''//'' @ y) = Required a (x @ ''/'' @ y)"
    by (rule Required_segments) (simp add: segments_append clean_step_def)
  show "Required a (x @ ''/./'' @ y) = Required a (x @ ''/'' @ y)"
    using Split_append [of "''.''" "CHR ''/''" y]
    by (intro Required_segments) (simp add: segments_append clean_step_def)
  show "Required a (''/'' @ x) = Required a x" by (rule Required_segments) simp
  show "Required a (Clean (''/'' @ x)) = Required a x" by (rule Required_segments) simp
next
  assume e: "ok_elem e"
  have "Split (e @ CHR ''/'' # ''../'' @ y) (CHR ''/'') = e # ''..'' # Split y (CHR ''/'')"
    using e Split_append [of e "CHR ''/''" "''../'' @ y"] Split_append [of "''..''" "CHR ''/''" y]
    by (simp add: Split_single ok_elem_def)
  with e show "Required a (x @ ''/'' @ e @ ''/../'' @ y) = Required a (x @ ''/'' @ y)"
    by (intro Required_segments) (simp add: segments_append clean_step_def ok_elem_def)
qed

section \<open>The policy of the README as a concrete instance\<close>

definition readme_authz :: AuthzCfg where
  "readme_authz = \<lparr>
     cfg_Rules = [\<lparr>r_Path = ''/auth'', r_Label = ''anonymous''\<rparr>, \<lparr>r_Path = ''/admin'', r_Label = ''adm''\<rparr>],
     cfg_DefaultLabel = ''default'',
     cfg_AuthEndpoints = [(''default'', ''/auth/login''), (''adm'', ''/auth/mfa'')],
     cfg_RedirectParam = []\<rparr>"

definition readme_policy :: Authz where
  "readme_policy = \<lparr>
     a_rules = [\<lparr>r_Path = ''/admin'', r_Label = ''adm''\<rparr>, \<lparr>r_Path = ''/auth'', r_Label = ''anonymous''\<rparr>],
     a_defaultLabel = ''default'',
     a_endpoints = [(''default'', ''/auth/login''), (''adm'', ''/auth/mfa'')],
     a_redirectParam = ''rd''\<rparr>"

lemma readme_compiles: "New_authz readme_authz = Inr readme_policy"
  by code_simp

lemma readme_values:
  "Required readme_policy ''/admin/users'' = ''adm''"
  "Required readme_policy ''/administrator'' = ''default''"
  "Required readme_policy ''/auth/../admin'' = ''adm''"
  by code_simp+

theorem Required_longest_prefix_witness:
  "New_authz readme_authz = Inr readme_policy \<and>
   Required readme_policy ''/admin//users'' = ''adm'' \<and>
   Required readme_policy ''/administrator'' = ''default''"
proof -
  let ?adm = "\<lparr>r_Path = ''/admin'', r_Label = ''adm''\<rparr>"
  have c: "?adm \<in> set (cfg_Rules readme_authz) \<and> covers ?adm ''/admin//users'' \<and>
      (\<forall>q \<in> set (cfg_Rules readme_authz). covers q ''/admin//users'' \<longrightarrow>
         length (segments (r_Path q)) \<le> length (segments (r_Path ?adm)))"
    by code_simp
  have n: "\<forall>q \<in> set (cfg_Rules readme_authz). \<not> covers q ''/administrator''" by code_simp
  have d: "cfg_DefaultLabel readme_authz = ''default''" by (simp add: readme_authz_def)
  have "Required readme_policy ''/admin//users'' = ''adm''"
    using Required_longest_prefix [OF readme_compiles, of ?adm "''/admin//users''"] c by simp
  moreover have "Required readme_policy ''/administrator'' = ''default''"
    using Required_longest_prefix [OF readme_compiles, of undefined "''/administrator''"] n d by simp
  ultimately show ?thesis using readme_compiles by simp
qed

definition tie_authz :: AuthzCfg where
  "tie_authz = \<lparr>
     cfg_Rules = [\<lparr>r_Path = ''/pub'', r_Label = ''anonymous''\<rparr>, \<lparr>r_Path = ''/adm'', r_Label = ''adm''\<rparr>],
     cfg_DefaultLabel = [], cfg_AuthEndpoints = [(''adm'', ''/pub/login?x=1'')],
     cfg_RedirectParam = ''next''\<rparr>"

definition tie_policy :: Authz where
  "tie_policy = \<lparr>
     a_rules = [\<lparr>r_Path = ''/pub'', r_Label = ''anonymous''\<rparr>, \<lparr>r_Path = ''/adm'', r_Label = ''adm''\<rparr>],
     a_defaultLabel = ''anonymous'', a_endpoints = [(''adm'', ''/pub/login?x=1'')],
     a_redirectParam = ''next''\<rparr>"

lemma tie_compiles: "New_authz tie_authz = Inr tie_policy"
  by code_simp

theorem Required_sort_unstable_witness:
  "Required (tie_policy\<lparr>a_rules := rev (a_rules tie_policy)\<rparr>) ''/adm/x'' = Required tie_policy ''/adm/x'' \<and>
   Required tie_policy ''/adm/x'' = ''adm''"
proof -
  have "mset (rev (a_rules tie_policy)) = mset (a_rules tie_policy)" by simp
  moreover have "longest_first (rev (a_rules tie_policy))"
    by (simp add: longest_first_def tie_policy_def)
  ultimately have "Required (tie_policy\<lparr>a_rules := rev (a_rules tie_policy)\<rparr>) ''/adm/x''
      = Required tie_policy ''/adm/x''"
    by (rule Required_sort_unstable [OF tie_compiles])
  moreover have "Required tie_policy ''/adm/x'' = ''adm''" by code_simp
  ultimately show ?thesis by simp
qed

theorem New_no_redirect_loop_witness:
  "Required readme_policy ''/admin/users'' = ''adm'' \<and>
   HasPrefix (Endpoint readme_policy ''adm'') ''/'' \<and>
   Required readme_policy (endpoint_path (Endpoint readme_policy ''adm'')) = Anonymous"
proof -
  have "Required readme_policy ''/admin/users'' \<noteq> Anonymous"
    by (simp add: readme_values(1) Anonymous_def)
  from New_no_redirect_loop [OF readme_compiles this] show ?thesis by (simp add: readme_values(1))
qed

theorem Required_traversal_proof_witness:
  "Required readme_policy (''/auth'' @ ''/'' @ ''x'' @ ''/../'' @ ''../admin'') =
   Required readme_policy (''/auth'' @ ''/'' @ ''../admin'') \<and>
   Required readme_policy (''/auth'' @ ''/'' @ ''../admin'') = ''adm''"
proof -
  have "ok_elem ''x''" by (simp add: ok_elem_def)
  then have "Required readme_policy (''/auth'' @ ''/'' @ ''x'' @ ''/../'' @ ''../admin'') =
      Required readme_policy (''/auth'' @ ''/'' @ ''../admin'')"
    using Required_traversal_proof [of readme_policy "''/auth''" "''../admin''" "''x''"] by blast
  moreover have "Required readme_policy (''/auth'' @ ''/'' @ ''../admin'') = ''adm''"
    using readme_values(3) by simp
  ultimately show ?thesis by simp
qed

end
