(* ===== verification/Session_Store.thy ===== *)
theory Session_Store
  imports Gosestor_Prelude
begin

text \<open>
  The persistence contract (\<open>internal/store/store.go\<close>): the rows, the \<open>Store\<close> interface
  as a record of operations on an implementation's state, and the abstract specification every
  implementation refines. The abstract state is what a client can observe: sessions, keys, cached
  cookies and hashes, the owner index, the held locks.
\<close>

section \<open>Rows and errors\<close>

datatype error =
    ErrNotFound
  | ErrConflict
  | ErrLockContended
  | ErrRandom
  | ErrBackend string
  | NilMapWrite \<comment> \<open>Go panics on a write to a nil map\<close>

record Session =
  s_ID :: string
  s_Creation :: int64
  s_LastAccess :: int64
  s_InactiveTimeout :: int64
  s_FinalTimeout :: int64
  s_OwnerID :: int64
  s_LastRotation :: int64
  s_Labels :: string

record CookieMutation =
  cm_Name :: string
  cm_Value :: string
  cm_SHA :: string
  cm_Delete :: bool

record SessionControls =
  c_SetOwner :: bool
  c_OwnerID :: int64
  c_SetLabels :: bool
  c_Labels :: string
  c_LastAccess :: int64
  c_LastRotation :: int64
  c_OldKeyID :: string
  c_NewKeyID :: string
  c_Rotate :: bool
  c_Cookies :: "CookieMutation list"

section \<open>The interface\<close>

type_synonym ('st, 'a) op = "'st \<Rightarrow> 'st \<times> (error + 'a)"

record 'st StoreI =
  PutSession :: "Session \<Rightarrow> duration \<Rightarrow> ('st, unit) op"
  TouchSession :: "string \<Rightarrow> string \<Rightarrow> int64 \<Rightarrow> int64 \<Rightarrow> duration \<Rightarrow> ('st, unit) op"
  ApplySessionControls :: "string \<Rightarrow> SessionControls \<Rightarrow> duration \<Rightarrow> duration \<Rightarrow> ('st, unit) op"
  RotateSessionKey :: "string \<Rightarrow> string \<Rightarrow> string \<Rightarrow> int64 \<Rightarrow> duration \<Rightarrow> ('st, unit) op"
  GetSession :: "string \<Rightarrow> ('st, Session) op"
  DeleteSession :: "string \<Rightarrow> ('st, unit) op"
  PutKey :: "string \<Rightarrow> string \<Rightarrow> duration \<Rightarrow> ('st, unit) op"
  ReplaceKey :: "string \<Rightarrow> string \<Rightarrow> string \<Rightarrow> duration \<Rightarrow> ('st, unit) op"
  GetKey :: "string \<Rightarrow> ('st, string) op"
  DeleteKey :: "string \<Rightarrow> ('st, unit) op"
  GetCookies :: "string \<Rightarrow> ('st, (string, string) gomap) op"
  CookieSHAs :: "string \<Rightarrow> ('st, (string, string) gomap) op"
  PutCookie :: "string \<Rightarrow> string \<Rightarrow> string \<Rightarrow> string \<Rightarrow> ('st, unit) op"
  DeleteCookie :: "string \<Rightarrow> string \<Rightarrow> ('st, unit) op"
  AddOwnerIndex :: "int64 \<Rightarrow> string \<Rightarrow> duration \<Rightarrow> ('st, unit) op"
  RemoveOwnerIndex :: "int64 \<Rightarrow> string \<Rightarrow> ('st, unit) op"
  OwnerSessions :: "int64 \<Rightarrow> ('st, string list) op"
  ReassignOwner :: "Session \<Rightarrow> duration \<Rightarrow> duration \<Rightarrow> ('st, unit) op"
  DeleteSessionByOwner :: "int64 \<Rightarrow> string \<Rightarrow> ('st, bool) op"
  Lock :: "string \<Rightarrow> duration \<Rightarrow> ('st, ('st, unit) op option) op"

section \<open>Abstract state and the effect of each call\<close>

record view =
  v_session :: "string \<rightharpoonup> Session"
  v_key :: "string \<rightharpoonup> string"
  v_cookie :: "string \<Rightarrow> string \<rightharpoonup> string"
  v_sha :: "string \<Rightarrow> string \<rightharpoonup> string"
  v_owner :: "int64 \<Rightarrow> string set"
  v_lock :: "string set"

definition empty_view :: view where
  "empty_view = \<lparr>v_session = (\<lambda>_. None), v_key = (\<lambda>_. None), v_cookie = (\<lambda>_ _. None),
     v_sha = (\<lambda>_ _. None), v_owner = (\<lambda>_. {}), v_lock = {}\<rparr>"

lemma view_eqI:
  "v_session v = v_session w \<Longrightarrow> v_key v = v_key w \<Longrightarrow> (\<And>x. v_cookie v x = v_cookie w x) \<Longrightarrow>
   (\<And>x. v_sha v x = v_sha w x) \<Longrightarrow> (\<And>x. v_owner v x = v_owner w x) \<Longrightarrow> v_lock v = v_lock w \<Longrightarrow> v = (w :: view)"
  by (cases v, cases w) (simp add: fun_eq_iff)

text \<open>The mutating calls of the interface.\<close>

datatype store_call =
    CPutSession Session
  | CTouchSession string string int64 int64
  | CApplyControls string SessionControls
  | CDeleteSession string
  | CPutKey string string
  | CReplaceKey string string string
  | CDeleteKey string
  | CPutCookie string string string string
  | CDeleteCookie string string
  | CAddOwner int64 string
  | CRemoveOwner int64 string
  | CReassignOwner Session
  | CDeleteByOwner int64 string

definition spec_touch :: "int64 \<Rightarrow> int64 \<Rightarrow> Session \<Rightarrow> Session" where
  "spec_touch la lr s = s\<lparr>s_LastAccess := max (s_LastAccess s) la,
     s_LastRotation := (if s_LastRotation s = 0 then lr else s_LastRotation s)\<rparr>"

definition spec_row :: "SessionControls \<Rightarrow> Session \<Rightarrow> Session" where
  "spec_row c s = s\<lparr>s_OwnerID := (if c_SetOwner c then c_OwnerID c else s_OwnerID s),
     s_Labels := (if c_SetLabels c then c_Labels c else s_Labels s),
     s_LastAccess := max (s_LastAccess s) (c_LastAccess c),
     s_LastRotation := max (s_LastRotation s) (c_LastRotation c)\<rparr>"

definition spec_move_owner :: "string \<Rightarrow> int64 \<Rightarrow> int64 \<Rightarrow> (int64 \<Rightarrow> string set) \<Rightarrow> int64 \<Rightarrow> string set" where
  "spec_move_owner sid old new own =
     (let own' = (if old \<noteq> 0 then own(old := own old - {sid}) else own)
      in own'(new := insert sid (own' new)))"

fun spec_values :: "CookieMutation list \<Rightarrow> (string \<rightharpoonup> string) \<Rightarrow> (string \<rightharpoonup> string)" where
  "spec_values [] m = m"
| "spec_values (c # cs) m =
     spec_values cs (if cm_Delete c then m(cm_Name c := None) else m(cm_Name c \<mapsto> cm_Value c))"

fun spec_hashes :: "CookieMutation list \<Rightarrow> (string \<rightharpoonup> string) \<Rightarrow> (string \<rightharpoonup> string)" where
  "spec_hashes [] m = m"
| "spec_hashes (c # cs) m =
     spec_hashes cs (if cm_Delete c then m(cm_Name c := None) else m(cm_Name c \<mapsto> cm_SHA c))"

definition spec_controls :: "string \<Rightarrow> SessionControls \<Rightarrow> Session \<Rightarrow> view \<Rightarrow> view" where
  "spec_controls sid c s v = v\<lparr>
     v_session := (v_session v)(sid \<mapsto> spec_row c s),
     v_key := (if c_Rotate c then (v_key v)(c_NewKeyID c \<mapsto> sid, c_OldKeyID c := None) else v_key v),
     v_cookie := (v_cookie v)(sid := spec_values (c_Cookies c) (v_cookie v sid)),
     v_sha := (v_sha v)(sid := spec_hashes (c_Cookies c) (v_sha v sid)),
     v_owner := (if c_SetOwner c \<and> c_OwnerID c \<noteq> s_OwnerID s
                 then spec_move_owner sid (s_OwnerID s) (c_OwnerID c) (v_owner v) else v_owner v)\<rparr>"

definition spec_delete :: "string \<Rightarrow> view \<Rightarrow> view" where
  "spec_delete sid v = v\<lparr>
     v_session := (v_session v)(sid := None),
     v_key := (\<lambda>k. if v_key v k = Some sid then None else v_key v k),
     v_cookie := (v_cookie v)(sid := Map.empty),
     v_sha := (v_sha v)(sid := Map.empty),
     v_owner := (case v_session v sid of None \<Rightarrow> v_owner v
       | Some s \<Rightarrow> if s_OwnerID s = 0 then v_owner v
                   else (v_owner v)(s_OwnerID s := v_owner v (s_OwnerID s) - {sid}))\<rparr>"

fun call_ok :: "store_call \<Rightarrow> view \<Rightarrow> bool" where
  "call_ok (CTouchSession sid key la lr) v \<longleftrightarrow> v_session v sid \<noteq> None \<and> v_key v key = Some sid"
| "call_ok (CApplyControls sid c) v \<longleftrightarrow> v_session v sid \<noteq> None \<and> v_key v (c_OldKeyID c) = Some sid
     \<and> (c_Rotate c \<longrightarrow> v_key v (c_NewKeyID c) = None)"
| "call_ok (CPutKey key sid) v \<longleftrightarrow> v_session v sid \<noteq> None"
| "call_ok (CReplaceKey old new sid) v \<longleftrightarrow> v_session v sid \<noteq> None \<and> v_key v old = Some sid \<and> v_key v new = None"
| "call_ok (CPutCookie sid name val sha) v \<longleftrightarrow> v_session v sid \<noteq> None"
| "call_ok (CReassignOwner s) v \<longleftrightarrow> v_session v (s_ID s) \<noteq> None"
| "call_ok _ v \<longleftrightarrow> True"

fun call_effect :: "store_call \<Rightarrow> view \<Rightarrow> view" where
  "call_effect (CPutSession s) v = v\<lparr>v_session := (v_session v)(s_ID s \<mapsto> s)\<rparr>"
| "call_effect (CTouchSession sid key la lr) v =
     v\<lparr>v_session := (v_session v)(sid := map_option (spec_touch la lr) (v_session v sid))\<rparr>"
| "call_effect (CApplyControls sid c) v =
     (case v_session v sid of None \<Rightarrow> v | Some s \<Rightarrow> spec_controls sid c s v)"
| "call_effect (CDeleteSession sid) v = spec_delete sid v"
| "call_effect (CPutKey key sid) v = v\<lparr>v_key := (v_key v)(key \<mapsto> sid)\<rparr>"
| "call_effect (CReplaceKey old new sid) v = v\<lparr>v_key := (v_key v)(new \<mapsto> sid, old := None)\<rparr>"
| "call_effect (CDeleteKey key) v = v\<lparr>v_key := (v_key v)(key := None)\<rparr>"
| "call_effect (CPutCookie sid name val sha) v =
     v\<lparr>v_cookie := (v_cookie v)(sid := (v_cookie v sid)(name \<mapsto> val)),
       v_sha := (v_sha v)(sid := (v_sha v sid)(name \<mapsto> sha))\<rparr>"
| "call_effect (CDeleteCookie sid name) v =
     v\<lparr>v_cookie := (v_cookie v)(sid := (v_cookie v sid)(name := None)),
       v_sha := (v_sha v)(sid := (v_sha v sid)(name := None))\<rparr>"
| "call_effect (CAddOwner o' sid) v = v\<lparr>v_owner := (v_owner v)(o' := insert sid (v_owner v o'))\<rparr>"
| "call_effect (CRemoveOwner o' sid) v = v\<lparr>v_owner := (v_owner v)(o' := v_owner v o' - {sid})\<rparr>"
| "call_effect (CReassignOwner s) v =
     (case v_session v (s_ID s) of None \<Rightarrow> v
      | Some p \<Rightarrow> v\<lparr>v_session := (v_session v)(s_ID s \<mapsto> p\<lparr>s_OwnerID := s_OwnerID s,
                       s_LastAccess := max (s_LastAccess p) (s_LastAccess s),
                       s_LastRotation := max (s_LastRotation p) (s_LastRotation s)\<rparr>),
                    v_owner := (let own = (if 0 < s_OwnerID p \<and> s_OwnerID p \<noteq> s_OwnerID s
                         then (v_owner v)(s_OwnerID p := v_owner v (s_OwnerID p) - {s_ID s}) else v_owner v)
                       in own(s_OwnerID s := insert (s_ID s) (own (s_OwnerID s))))\<rparr>)"
| "call_effect (CDeleteByOwner o' sid) v =
     (let v' = v\<lparr>v_owner := (v_owner v)(o' := v_owner v o' - {sid})\<rparr>
      in if (case v_session v sid of None \<Rightarrow> False | Some s \<Rightarrow> s_OwnerID s = o')
         then (spec_delete sid v)\<lparr>v_owner := v_owner v'\<rparr> else v')"

section \<open>The contract\<close>

text \<open>Issuing an abstract call on an implementation; the two durations are the session and the
  owner-index time to live.\<close>

fun exec :: "'st StoreI \<Rightarrow> duration \<Rightarrow> duration \<Rightarrow> store_call \<Rightarrow> ('st, unit) op" where
  "exec I t t' (CPutSession s) = PutSession I s t"
| "exec I t t' (CTouchSession sid key la lr) = TouchSession I sid key la lr t"
| "exec I t t' (CApplyControls sid c) = ApplySessionControls I sid c t t'"
| "exec I t t' (CDeleteSession sid) = DeleteSession I sid"
| "exec I t t' (CPutKey key sid) = PutKey I key sid t"
| "exec I t t' (CReplaceKey old new sid) = ReplaceKey I old new sid t"
| "exec I t t' (CDeleteKey key) = DeleteKey I key"
| "exec I t t' (CPutCookie sid name val sha) = PutCookie I sid name val sha"
| "exec I t t' (CDeleteCookie sid name) = DeleteCookie I sid name"
| "exec I t t' (CAddOwner o' sid) = AddOwnerIndex I o' sid t"
| "exec I t t' (CRemoveOwner o' sid) = RemoveOwnerIndex I o' sid"
| "exec I t t' (CReassignOwner s) = ReassignOwner I s t t'"
| "exec I t t' (CDeleteByOwner o' sid) =
     (\<lambda>st. andThen (DeleteSessionByOwner I o' sid st) (\<lambda>st' _. (st', Inr ())))"

text \<open>
  \<open>mutates\<close>: the operation keeps the representation invariant; when it fails nothing
  observable changed, and when it succeeds its guard held and exactly its effect happened.
  \<open>queries\<close>: nothing observable changes and the result relates to the observed state.
\<close>

definition mutates :: "('st \<Rightarrow> bool) \<Rightarrow> ('st \<Rightarrow> view) \<Rightarrow> ('st, 'a) op \<Rightarrow> (view \<Rightarrow> bool) \<Rightarrow> (view \<Rightarrow> view) \<Rightarrow> bool" where
  "mutates invar obs f ok eff \<longleftrightarrow> (\<forall>st st' r. invar st \<longrightarrow> f st = (st', r) \<longrightarrow>
     invar st' \<and> (case r of Inl _ \<Rightarrow> obs st' = obs st | Inr _ \<Rightarrow> ok (obs st) \<and> obs st' = eff (obs st)))"

definition queries :: "('st \<Rightarrow> bool) \<Rightarrow> ('st \<Rightarrow> view) \<Rightarrow> ('st, 'a) op \<Rightarrow> (view \<Rightarrow> error + 'a \<Rightarrow> bool) \<Rightarrow> bool" where
  "queries invar obs f Q \<longleftrightarrow> (\<forall>st st' r. invar st \<longrightarrow> f st = (st', r) \<longrightarrow>
     invar st' \<and> obs st' = obs st \<and> Q (obs st) r)"

definition finds :: "'a option \<Rightarrow> error + 'a \<Rightarrow> bool" where
  "finds x r = (case r of Inr y \<Rightarrow> x = Some y | Inl e \<Rightarrow> e = ErrNotFound \<longrightarrow> x = None)"

definition rotate_controls :: "string \<Rightarrow> string \<Rightarrow> int64 \<Rightarrow> SessionControls" where
  "rotate_controls old new lr = \<lparr>c_SetOwner = False, c_OwnerID = 0, c_SetLabels = False, c_Labels = [],
     c_LastAccess = 0, c_LastRotation = lr, c_OldKeyID = old, c_NewKeyID = new, c_Rotate = True, c_Cookies = []\<rparr>"

locale store_contract =
  fixes I :: "'st StoreI" and obs :: "'st \<Rightarrow> view" and invar :: "'st \<Rightarrow> bool"
  assumes call: "mutates invar obs (exec I t t' c) (call_ok c) (call_effect c)"
    and rotate: "RotateSessionKey I sid old new lr t = ApplySessionControls I sid (rotate_controls old new lr) t 0"
    and get_session: "queries invar obs (GetSession I sid) (\<lambda>v. finds (v_session v sid))"
    and get_key: "queries invar obs (GetKey I key) (\<lambda>v. finds (v_key v key))"
    and get_cookies: "queries invar obs (GetCookies I sid) (\<lambda>v r. \<forall>m. r = Inr m \<longrightarrow> mget m = v_cookie v sid)"
    and get_shas: "queries invar obs (CookieSHAs I sid) (\<lambda>v r. \<forall>m. r = Inr m \<longrightarrow> mget m = v_sha v sid)"
    and owner_sessions: "queries invar obs (OwnerSessions I o') (\<lambda>v r. \<forall>l. r = Inr l \<longrightarrow> set l = v_owner v o')"
    and by_owner: "invar st \<Longrightarrow> DeleteSessionByOwner I o' sid st = (st', Inr b) \<Longrightarrow>
        b \<longleftrightarrow> (\<exists>s. v_session (obs st) sid = Some s \<and> s_OwnerID s = o')"
    and lock_busy: "invar st \<Longrightarrow> Lock I sid t st = (st', r) \<Longrightarrow> r = Inr None \<or> isl r \<Longrightarrow>
        invar st' \<and> obs st' = obs st"
    and lock_taken: "invar st \<Longrightarrow> Lock I sid t st = (st', Inr (Some unlock)) \<Longrightarrow>
        invar st' \<and> sid \<notin> v_lock (obs st) \<and> obs st' = (obs st)\<lparr>v_lock := insert sid (v_lock (obs st))\<rparr>"
    and unlock: "invar st0 \<Longrightarrow> Lock I sid t st0 = (st1, Inr (Some unlock)) \<Longrightarrow> invar st \<Longrightarrow> unlock st = (st', u) \<Longrightarrow>
        invar st' \<and> (obs st' = obs st \<or> obs st' = (obs st)\<lparr>v_lock := v_lock (obs st) - {sid}\<rparr>)"
begin

lemma call_fail: "invar st \<Longrightarrow> exec I t t' c st = (st', Inl e) \<Longrightarrow> invar st' \<and> obs st' = obs st"
  using call [of t t' c] unfolding mutates_def by fastforce

lemma call_done: "invar st \<Longrightarrow> exec I t t' c st = (st', Inr u) \<Longrightarrow>
    invar st' \<and> call_ok c (obs st) \<and> obs st' = call_effect c (obs st)"
  using call [of t t' c] unfolding mutates_def by fastforce

lemma query_session: "invar st \<Longrightarrow> GetSession I sid st = (st', r) \<Longrightarrow>
    invar st' \<and> obs st' = obs st \<and> finds (v_session (obs st) sid) r"
  using get_session [of sid] unfolding queries_def by blast

lemma query_key: "invar st \<Longrightarrow> GetKey I key st = (st', r) \<Longrightarrow>
    invar st' \<and> obs st' = obs st \<and> finds (v_key (obs st) key) r"
  using get_key [of key] unfolding queries_def by blast

lemma query_cookies: "invar st \<Longrightarrow> GetCookies I sid st = (st', r) \<Longrightarrow>
    invar st' \<and> obs st' = obs st \<and> (\<forall>m. r = Inr m \<longrightarrow> mget m = v_cookie (obs st) sid)"
  using get_cookies [of sid] unfolding queries_def by blast

lemma query_shas: "invar st \<Longrightarrow> CookieSHAs I sid st = (st', r) \<Longrightarrow>
    invar st' \<and> obs st' = obs st \<and> (\<forall>m. r = Inr m \<longrightarrow> mget m = v_sha (obs st) sid)"
  using get_shas [of sid] unfolding queries_def by blast

lemma query_owner: "invar st \<Longrightarrow> OwnerSessions I o' st = (st', r) \<Longrightarrow>
    invar st' \<and> obs st' = obs st \<and> (\<forall>l. r = Inr l \<longrightarrow> set l = v_owner (obs st) o')"
  using owner_sessions [of o'] unfolding queries_def by blast

end

section \<open>Invariants of the observable state\<close>

text \<open>No orphans: rows carry their own id, keys lead to live sessions, only live sessions have
  cached cookies, and every cached cookie has its hash.\<close>

definition no_orphans :: "view \<Rightarrow> bool" where
  "no_orphans v \<longleftrightarrow>
     (\<forall>sid s. v_session v sid = Some s \<longrightarrow> s_ID s = sid) \<and>
     (\<forall>k sid. v_key v k = Some sid \<longrightarrow> v_session v sid \<noteq> None) \<and>
     (\<forall>sid. v_session v sid = None \<longrightarrow> v_cookie v sid = Map.empty) \<and>
     (\<forall>sid. dom (v_cookie v sid) = dom (v_sha v sid))"

lemma dom_spec_values_hashes: "dom m = dom m' \<Longrightarrow> dom (spec_values cs m) = dom (spec_hashes cs m')"
proof (induction cs arbitrary: m m')
  case (Cons c cs)
  have "dom (if cm_Delete c then m(cm_Name c := None) else m(cm_Name c \<mapsto> cm_Value c)) =
        dom (if cm_Delete c then m'(cm_Name c := None) else m'(cm_Name c \<mapsto> cm_SHA c))"
    using Cons.prems by simp
  then show ?case unfolding spec_values.simps spec_hashes.simps by (rule Cons.IH)
qed simp

lemma no_orphans_call: "call_ok c v \<Longrightarrow> no_orphans v \<Longrightarrow> no_orphans (call_effect c v)"
proof (induction c v rule: call_effect.induct)
  case (3 sid c v)
  then obtain s where s: "v_session v sid = Some s" by auto
  have "dom (spec_values (c_Cookies c) (v_cookie v sid)) = dom (spec_hashes (c_Cookies c) (v_sha v sid))"
    using 3 by (intro dom_spec_values_hashes) (simp add: no_orphans_def)
  moreover have "s_ID (spec_row c s) = sid" using 3 s by (simp add: no_orphans_def spec_row_def)
  ultimately show ?case using 3 s by (simp add: no_orphans_def spec_controls_def)
next
  case (4 sid v)
  then show ?case by (auto simp: no_orphans_def spec_delete_def)
next
  case (13 o' sid v)
  then show ?case by (auto simp: no_orphans_def spec_delete_def Let_def)
qed (auto simp: no_orphans_def spec_touch_def split: option.splits)

text \<open>The owner index is exact: a session is listed under an owner exactly when its row names
  that owner, and the anonymous owner 0 has no list.\<close>

definition owner_of :: "view \<Rightarrow> string \<Rightarrow> int64 option" where
  "owner_of v sid = map_option s_OwnerID (v_session v sid)"

definition owner_index_ok :: "view \<Rightarrow> bool" where
  "owner_index_ok v \<longleftrightarrow>
     (\<forall>o' sid. sid \<in> v_owner v o' \<longleftrightarrow> owner_of v sid = Some o' \<and> 0 < o') \<and>
     (\<forall>sid o'. owner_of v sid = Some o' \<longrightarrow> 0 \<le> o')"

text \<open>Calls the session manager may issue: new rows are fresh and anonymous, and only positive
  owners are ever bound.\<close>

fun managed :: "store_call \<Rightarrow> view \<Rightarrow> bool" where
  "managed (CPutSession s) v \<longleftrightarrow> v_session v (s_ID s) = None \<and> s_OwnerID s = 0"
| "managed (CApplyControls sid c) v \<longleftrightarrow> (c_SetOwner c \<longrightarrow> 0 < c_OwnerID c)"
| "managed (CReassignOwner s) v \<longleftrightarrow> 0 < s_OwnerID s"
| "managed (CAddOwner o' sid) v \<longleftrightarrow> False"
| "managed (CRemoveOwner o' sid) v \<longleftrightarrow> False"
| "managed _ v \<longleftrightarrow> True"

lemma owner_index_same:
  "owner_index_ok v \<Longrightarrow> v_owner v' = v_owner v \<Longrightarrow> owner_of v' = owner_of v \<Longrightarrow> owner_index_ok v'"
  by (simp add: owner_index_ok_def)

lemma owner_index_moved:
  assumes ok: "owner_index_ok v" and new: "0 < new"
    and row: "owner_of v' = (owner_of v)(sid \<mapsto> new)"
    and own: "\<And>o'. v_owner v' o' = (if o' = new then insert sid (v_owner v o') else v_owner v o' - {sid})"
  shows "owner_index_ok v'"
  using ok new unfolding owner_index_ok_def row own by auto

lemma owner_index_removed:
  assumes ok: "owner_index_ok v" and row: "owner_of v' = (owner_of v)(sid := None)"
    and own: "\<And>o'. v_owner v' o' = v_owner v o' - {sid}"
  shows "owner_index_ok v'"
  using ok unfolding owner_index_ok_def row own by auto

lemma owner_index_elsewhere:
  assumes "owner_index_ok v"
  shows "owner_of v sid \<noteq> Some o' \<Longrightarrow> v_owner v o' - {sid} = v_owner v o'"
    and "v_owner v 0 = {}"
  using assms unfolding owner_index_ok_def by auto

lemma owner_nonneg: "owner_index_ok v \<Longrightarrow> v_session v sid = Some s \<Longrightarrow> 0 \<le> s_OwnerID s"
proof -
  assume "owner_index_ok v" "v_session v sid = Some s"
  moreover from this(2) have "owner_of v sid = Some (s_OwnerID s)" by (simp add: owner_of_def)
  ultimately show ?thesis unfolding owner_index_ok_def by blast
qed

lemma owner_index_delete:
  assumes ok: "owner_index_ok v"
  shows "owner_index_ok (spec_delete sid v)"
proof (rule owner_index_removed [OF ok])
  show "owner_of (spec_delete sid v) = (owner_of v)(sid := None)"
    by (auto simp: spec_delete_def owner_of_def)
  show "v_owner (spec_delete sid v) o' = v_owner v o' - {sid}" for o'
    using owner_index_elsewhere [OF ok]
    by (cases "v_session v sid") (auto simp: spec_delete_def owner_of_def)
qed

lemma owner_index_call:
  "call_ok c v \<Longrightarrow> managed c v \<Longrightarrow> owner_index_ok v \<Longrightarrow> owner_index_ok (call_effect c v)"
proof (induction c v rule: call_effect.induct)
  case (1 s v)
  then show ?case by (auto simp: owner_index_ok_def owner_of_def)
next
  case (2 sid key la lr v)
  have "owner_of (call_effect (CTouchSession sid key la lr) v) = owner_of v"
    by (auto simp: spec_touch_def owner_of_def option.map_comp o_def)
  with 2 show ?case by (simp add: owner_index_ok_def)
next
  case (3 sid c v)
  then obtain s where s: "v_session v sid = Some s" by auto
  note ok = "3.prems"(3)
  show ?case
  proof (cases "c_SetOwner c \<and> c_OwnerID c \<noteq> s_OwnerID s")
    case True
    have "owner_index_ok (spec_controls sid c s v)"
    proof (rule owner_index_moved [OF ok])
      show "0 < c_OwnerID c" using True "3.prems"(2) by simp
      show "owner_of (spec_controls sid c s v) = (owner_of v)(sid \<mapsto> c_OwnerID c)"
        using True by (auto simp: spec_controls_def spec_row_def owner_of_def)
      show "v_owner (spec_controls sid c s v) o' = (if o' = c_OwnerID c
          then insert sid (v_owner v o') else v_owner v o' - {sid})" for o'
        using True s owner_index_elsewhere(1) [OF ok, of sid] owner_index_elsewhere(2) [OF ok]
        by (simp add: spec_controls_def spec_move_owner_def Let_def owner_of_def)
    qed
    with s show ?thesis by simp
  next
    case False
    then have "owner_of (spec_controls sid c s v) = owner_of v"
      using s by (auto simp: spec_controls_def spec_row_def owner_of_def)
    moreover have "v_owner (spec_controls sid c s v) = v_owner v"
      using False by (auto simp: spec_controls_def)
    ultimately show ?thesis using s owner_index_same [OF ok] by simp
  qed
next
  case (4 sid v)
  then show ?case by (simp add: owner_index_delete)
next
  case (12 s v)
  then obtain p where p: "v_session v (s_ID s) = Some p" by auto
  note ok = "12.prems"(3)
  show ?case
  proof (rule owner_index_moved [OF ok])
    show "0 < s_OwnerID s" using "12.prems"(2) by simp
    show "owner_of (call_effect (CReassignOwner s) v) = (owner_of v)(s_ID s \<mapsto> s_OwnerID s)"
      using p by (auto simp: owner_of_def)
    have "0 \<le> s_OwnerID p" using ok p by (rule owner_nonneg)
    then show "v_owner (call_effect (CReassignOwner s) v) o' =
        (if o' = s_OwnerID s then insert (s_ID s) (v_owner v o') else v_owner v o' - {s_ID s})" for o'
      using p owner_index_elsewhere(1) [OF ok, of "s_ID s"] owner_index_elsewhere(2) [OF ok]
      by (auto simp: Let_def owner_of_def)
  qed
next
  case (13 o' sid v)
  note ok = "13.prems"(3)
  show ?case
  proof (cases "owner_of v sid = Some o'")
    case True
    then obtain s where s: "v_session v sid = Some s" "s_OwnerID s = o'" by (auto simp: owner_of_def)
    show ?thesis
    proof (rule owner_index_removed [OF ok])
      show "owner_of (call_effect (CDeleteByOwner o' sid) v) = (owner_of v)(sid := None)"
        using s by (auto simp: spec_delete_def Let_def owner_of_def)
      show "v_owner (call_effect (CDeleteByOwner o' sid) v) x = v_owner v x - {sid}" for x
        using s owner_index_elsewhere(1) [OF ok, of sid] by (auto simp: Let_def owner_of_def)
    qed
  next
    case False
    then have "v_owner v o' - {sid} = v_owner v o'" by (rule owner_index_elsewhere(1) [OF ok])
    with False have "call_effect (CDeleteByOwner o' sid) v = v"
      by (cases "v_session v sid") (auto simp: Let_def owner_of_def)
    with ok show ?thesis by simp
  qed
qed (simp_all add: owner_index_ok_def owner_of_def)

section \<open>Interleaved calls\<close>

text \<open>
  Any number of requests issue store calls in any order. One step is one call, which takes effect
  atomically when its guard holds, or fails and changes nothing.
\<close>

inductive vstep :: "view \<Rightarrow> store_call \<Rightarrow> view \<Rightarrow> bool" where
  effective: "call_ok c v \<Longrightarrow> vstep v c (call_effect c v)"
| failed: "vstep v c v"

inductive vruns :: "view \<Rightarrow> store_call list \<Rightarrow> view \<Rightarrow> bool" where
  none: "vruns v [] v"
| more: "vstep v c v' \<Longrightarrow> vruns v' cs v'' \<Longrightarrow> vruns v (c # cs) v''"

inductive_cases vstepE: "vstep v c v'"
inductive_cases vruns_ConsE: "vruns v (c # cs) v'"
inductive_simps vruns_Nil [simp]: "vruns v [] v'"

lemma vstep_no_orphans: "vstep v c v' \<Longrightarrow> no_orphans v \<Longrightarrow> no_orphans v'"
  by (auto elim!: vstepE intro: no_orphans_call)

lemma vruns_no_orphans: "vruns v cs v' \<Longrightarrow> no_orphans v \<Longrightarrow> no_orphans v'"
  by (induction rule: vruns.induct) (auto intro: vstep_no_orphans)

lemma vruns_append: "vruns v cs v' \<Longrightarrow> vruns v' ds v'' \<Longrightarrow> vruns v (cs @ ds) v''"
  by (induction rule: vruns.induct) (auto intro: vruns.more)

lemma vruns_single: "vstep v c v' \<Longrightarrow> vruns v [c] v'"
  by (auto intro: vruns.intros)

text \<open>A call creates the row \<open>sid\<close> only when it is \<open>PutSession\<close> of that id.\<close>

fun creates :: "string \<Rightarrow> store_call \<Rightarrow> bool" where
  "creates sid (CPutSession s) \<longleftrightarrow> s_ID s = sid"
| "creates sid _ \<longleftrightarrow> False"

lemma absent_call: "\<not> creates sid c \<Longrightarrow> v_session v sid = None \<Longrightarrow> v_session (call_effect c v) sid = None"
  by (induction c v rule: call_effect.induct)
    (auto simp: spec_controls_def spec_delete_def Let_def split: option.splits)

lemma vruns_absent:
  "vruns v cs v' \<Longrightarrow> \<forall>c \<in> set cs. \<not> creates sid c \<Longrightarrow> v_session v sid = None \<Longrightarrow> v_session v' sid = None"
  by (induction rule: vruns.induct) (auto elim!: vstepE dest: absent_call)

text \<open>Everything a session owns is gone.\<close>

definition gone :: "string \<Rightarrow> view \<Rightarrow> bool" where
  "gone sid v \<longleftrightarrow> v_session v sid = None \<and> (\<forall>k. v_key v k \<noteq> Some sid) \<and>
     v_cookie v sid = Map.empty \<and> v_sha v sid = Map.empty"

lemma no_orphans_gone: "no_orphans v \<Longrightarrow> v_session v sid = None \<Longrightarrow> gone sid v"
proof -
  assume v: "no_orphans v" "v_session v sid = None"
  then have "v_cookie v sid = Map.empty" and "dom (v_cookie v sid) = dom (v_sha v sid)"
    unfolding no_orphans_def by blast+
  then have "v_cookie v sid = Map.empty" and "v_sha v sid = Map.empty"
    by (simp, metis dom_eq_empty_conv)
  moreover have "v_key v k \<noteq> Some sid" for k using v unfolding no_orphans_def by blast
  ultimately show ?thesis using v(2) by (simp add: gone_def)
qed

lemma vruns_gone:
  assumes "no_orphans v" "gone sid v" "vruns v cs v'" "\<forall>c \<in> set cs. \<not> creates sid c"
  shows "gone sid v'"
  using assms vruns_no_orphans vruns_absent by (intro no_orphans_gone) (auto simp: gone_def)

text \<open>Running a list of calls on an implementation, each client ignoring the others' results.\<close>

fun exec_all :: "'st StoreI \<Rightarrow> duration \<Rightarrow> duration \<Rightarrow> store_call list \<Rightarrow> 'st \<Rightarrow> 'st" where
  "exec_all I t t' [] st = st"
| "exec_all I t t' (c # cs) st = exec_all I t t' cs (fst (exec I t t' c st))"

context store_contract
begin

lemma exec_vstep: "invar st \<Longrightarrow> exec I t t' c st = (st', r) \<Longrightarrow> invar st' \<and> vstep (obs st) c (obs st')"
proof (cases r)
  case (Inl e)
  moreover assume "invar st" "exec I t t' c st = (st', r)"
  ultimately show ?thesis using call_fail [of st t t' c st' e] by (auto intro: vstep.failed)
next
  case (Inr u)
  moreover assume "invar st" "exec I t t' c st = (st', r)"
  ultimately show ?thesis using call_done [of st t t' c st' u] by (auto intro: vstep.effective)
qed

lemma exec_all_simulates:
  "invar st \<Longrightarrow> invar (exec_all I t t' cs st) \<and> vruns (obs st) cs (obs (exec_all I t t' cs st))"
proof (induction cs arbitrary: st)
  case (Cons c cs)
  obtain st' r where e: "exec I t t' c st = (st', r)" by fastforce
  with Cons.prems have "invar st'" "vstep (obs st) c (obs st')" by (auto dest: exec_vstep)
  with Cons.IH [of st'] e show ?case by (auto intro: vruns.more)
qed simp

lemma exec_all_gone:
  assumes "invar st" "no_orphans (obs st)" "gone sid (obs st)" "\<forall>c \<in> set cs. \<not> creates sid c"
  shows "gone sid (obs (exec_all I t t' cs st))"
  using assms exec_all_simulates by (blast intro: vruns_gone)

end

section \<open>Dead keys\<close>

text \<open>A call mints the key \<open>k\<close> when it may bind it: \<open>PutKey\<close> of \<open>k\<close>, or a rotation to it. A rotated-away
  key stays dead as long as nobody mints it again, and every call that presents it fails.\<close>

fun mints :: "string \<Rightarrow> store_call \<Rightarrow> bool" where
  "mints k (CPutKey key sid) \<longleftrightarrow> key = k"
| "mints k (CReplaceKey old new sid) \<longleftrightarrow> new = k"
| "mints k (CApplyControls sid c) \<longleftrightarrow> c_Rotate c \<and> c_NewKeyID c = k"
| "mints k _ \<longleftrightarrow> False"

lemma dead_key_call: "\<not> mints k c \<Longrightarrow> v_key v k = None \<Longrightarrow> v_key (call_effect c v) k = None"
  by (induction c v rule: call_effect.induct)
    (auto simp: spec_controls_def spec_delete_def Let_def split: option.splits)

lemma vruns_dead_key:
  "vruns v cs v' \<Longrightarrow> \<forall>c \<in> set cs. \<not> mints k c \<Longrightarrow> v_key v k = None \<Longrightarrow> v_key v' k = None"
  by (induction rule: vruns.induct) (auto elim!: vstepE dest: dead_key_call)

section \<open>Exact stores\<close>

text \<open>
  A store whose calls fail for the two documented reasons only: the session is absent
  (\<open>ErrNotFound\<close>) or the presented key lost the compare-and-swap (\<open>ErrConflict\<close>).
\<close>

fun call_session :: "store_call \<Rightarrow> string" where
  "call_session (CTouchSession sid key la lr) = sid"
| "call_session (CApplyControls sid c) = sid"
| "call_session (CPutKey key sid) = sid"
| "call_session (CReplaceKey old new sid) = sid"
| "call_session (CPutCookie sid name val sha) = sid"
| "call_session (CReassignOwner s) = s_ID s"
| "call_session _ = []"

definition call_error :: "store_call \<Rightarrow> view \<Rightarrow> error" where
  "call_error c v = (if v_session v (call_session c) = None then ErrNotFound else ErrConflict)"

locale exact_store = store_contract +
  assumes exact: "invar st \<Longrightarrow> exec I t t' c st = (st', Inl e) \<Longrightarrow> \<not> call_ok c (obs st) \<and> e = call_error c (obs st)"
    and session_total: "invar st \<Longrightarrow> GetSession I sid st = (st', Inl e) \<Longrightarrow> e = ErrNotFound"
    and key_total: "invar st \<Longrightarrow> GetKey I key st = (st', Inl e) \<Longrightarrow> e = ErrNotFound"
    and cookies_total: "invar st \<Longrightarrow> GetCookies I sid st \<noteq> (st', Inl e)"
    and shas_total: "invar st \<Longrightarrow> CookieSHAs I sid st \<noteq> (st', Inl e)"
    and owner_total: "invar st \<Longrightarrow> OwnerSessions I o' st \<noteq> (st', Inl e)"
    and owner_distinct: "invar st \<Longrightarrow> OwnerSessions I o' st = (st', Inr sids) \<Longrightarrow> distinct sids"
    and lock_total: "invar st \<Longrightarrow> Lock I sid t st = (st', r) \<Longrightarrow> \<not> isl r \<and> (r = Inr None \<longrightarrow> sid \<in> v_lock (obs st))"
    and unlock_total: "invar st0 \<Longrightarrow> Lock I sid t st0 = (st1, Inr (Some unlock)) \<Longrightarrow> invar st \<Longrightarrow> unlock st = (st', u) \<Longrightarrow>
        \<not> isl u \<and> obs st' = (obs st)\<lparr>v_lock := v_lock (obs st) - {sid}\<rparr>"
begin

lemma call_total:
  assumes "invar st"
  obtains st' where "invar st'"
    and "exec I t t' c st = (st', if call_ok c (obs st) then Inr () else Inl (call_error c (obs st)))"
    and "obs st' = (if call_ok c (obs st) then call_effect c (obs st) else obs st)"
proof -
  obtain st' r where e: "exec I t t' c st = (st', r)" by fastforce
  show ?thesis
  proof (cases r)
    case (Inl x)
    with e assms show ?thesis using that call_fail [of st t t' c st' x] exact [of st t t' c st' x] by auto
  next
    case (Inr x)
    with e assms show ?thesis using that call_done [of st t t' c st' x] by auto
  qed
qed

lemma session_value:
  assumes "invar st"
  obtains st' where "invar st'" and "obs st' = obs st"
    and "GetSession I sid st = (st', case v_session (obs st) sid of None \<Rightarrow> Inl ErrNotFound | Some s \<Rightarrow> Inr s)"
proof -
  obtain st' r where e: "GetSession I sid st = (st', r)" by fastforce
  from query_session [OF assms e] session_total [OF assms] e have
    "r = (case v_session (obs st) sid of None \<Rightarrow> Inl ErrNotFound | Some s \<Rightarrow> Inr s)"
    by (cases r) (auto simp: finds_def)
  with query_session [OF assms e] e that show ?thesis by blast
qed

lemma key_value:
  assumes "invar st"
  obtains st' where "invar st'" and "obs st' = obs st"
    and "GetKey I key st = (st', case v_key (obs st) key of None \<Rightarrow> Inl ErrNotFound | Some s \<Rightarrow> Inr s)"
proof -
  obtain st' r where e: "GetKey I key st = (st', r)" by fastforce
  from query_key [OF assms e] key_total [OF assms] e have
    "r = (case v_key (obs st) key of None \<Rightarrow> Inl ErrNotFound | Some s \<Rightarrow> Inr s)"
    by (cases r) (auto simp: finds_def)
  with query_key [OF assms e] e that show ?thesis by blast
qed

end

end
