(* ===== verification/Memory_Store.thy ===== *)
theory Memory_Store
  imports Session_Store
begin

text \<open>
  The in-memory implementation (\<open>internal/store/memory.go\<close>). Every method holds the mutex from
  its first to its last statement, so each is one atomic step on the record of maps. A nil inner map
  is a missing entry of the outer map; writing to one panics in Go and is the value
  \<open>NilMapWrite\<close> here.
\<close>

section \<open>State and methods\<close>

record Memory =
  m_sessions :: "(string, Session) gomap"
  m_keys :: "(string, string) gomap"
  m_cookies :: "(string, (string, string) gomap) gomap"
  m_shas :: "(string, (string, string) gomap) gomap"
  m_owners :: "(int64, (string, unit) gomap) gomap"
  m_locks :: "(string, unit) gomap"

definition NewMemory :: Memory where
  "NewMemory = \<lparr>m_sessions = [], m_keys = [], m_cookies = [], m_shas = [], m_owners = [], m_locks = []\<rparr>"

text \<open>\<open>delete(m[k], l)\<close> on a map of maps: a no-op when the inner map is nil.\<close>

definition del_inner :: "'k \<Rightarrow> 'l \<Rightarrow> ('k, ('l, 'v) gomap) gomap \<Rightarrow> ('k, ('l, 'v) gomap) gomap" where
  "del_inner k l m = (case mget m k of None \<Rightarrow> m | Some x \<Rightarrow> mput k (mdel l x) m)"

text \<open>\<open>if m[k] == nil { m[k] = \<dots>{} }\<close>.\<close>

definition ensure_inner :: "'k \<Rightarrow> ('k, ('l, 'v) gomap) gomap \<Rightarrow> ('k, ('l, 'v) gomap) gomap" where
  "ensure_inner k m = (case mget m k of None \<Rightarrow> mput k [] m | Some _ \<Rightarrow> m)"

text \<open>\<open>m[k][l] = v\<close>; \<open>None\<close> is the panic on a nil inner map.\<close>

definition put_inner :: "'k \<Rightarrow> 'l \<Rightarrow> 'v \<Rightarrow> ('k, ('l, 'v) gomap) gomap \<Rightarrow> ('k, ('l, 'v) gomap) gomap option" where
  "put_inner k l v m = (case mget m k of None \<Rightarrow> None | Some x \<Rightarrow> Some (mput k (mput l v x) m))"

definition add_owner :: "int64 \<Rightarrow> string \<Rightarrow> (int64, (string, unit) gomap) gomap \<Rightarrow> (int64, (string, unit) gomap) gomap" where
  "add_owner o' sid m = (case put_inner o' sid () (ensure_inner o' m) of None \<Rightarrow> m | Some m' \<Rightarrow> m')"

definition mem_PutSession :: "Session \<Rightarrow> duration \<Rightarrow> (Memory, unit) op" where
  "mem_PutSession s ttl m = (m\<lparr>m_sessions := mput (s_ID s) s (m_sessions m)\<rparr>, Inr ())"

definition mem_TouchSession :: "string \<Rightarrow> string \<Rightarrow> int64 \<Rightarrow> int64 \<Rightarrow> duration \<Rightarrow> (Memory, unit) op" where
  "mem_TouchSession sid keyID lastAccess legacyRotation ttl m =
     (case mget (m_sessions m) sid of
        None \<Rightarrow> (m, Inl ErrNotFound)
      | Some s \<Rightarrow>
          if mget (m_keys m) keyID \<noteq> Some sid then (m, Inl ErrConflict)
          else let s1 = (if s_LastAccess s < lastAccess then s\<lparr>s_LastAccess := lastAccess\<rparr> else s);
                   s2 = (if s_LastRotation s1 = 0 then s1\<lparr>s_LastRotation := legacyRotation\<rparr> else s1)
               in (m\<lparr>m_sessions := mput sid s2 (m_sessions m)\<rparr>, Inr ()))"

text \<open>One cookie mutation of \<open>ApplySessionControls\<close>: both inner maps exist at the writes.\<close>

definition mem_cookie :: "string \<Rightarrow> CookieMutation \<Rightarrow> Memory \<Rightarrow> Memory" where
  "mem_cookie sid c m =
     (if cm_Delete c
      then m\<lparr>m_cookies := del_inner sid (cm_Name c) (m_cookies m),
             m_shas := del_inner sid (cm_Name c) (m_shas m)\<rparr>
      else let ck = ensure_inner sid (m_cookies m); sh = ensure_inner sid (m_shas m)
           in m\<lparr>m_cookies := mput sid (mput (cm_Name c) (cm_Value c) (inner ck sid)) ck,
                m_shas := mput sid (mput (cm_Name c) (cm_SHA c) (inner sh sid)) sh\<rparr>)"

definition mem_ApplySessionControls :: "string \<Rightarrow> SessionControls \<Rightarrow> duration \<Rightarrow> duration \<Rightarrow> (Memory, unit) op" where
  "mem_ApplySessionControls sid c ttl ownerTTL m =
     (case mget (m_sessions m) sid of
        None \<Rightarrow> (m, Inl ErrNotFound)
      | Some s \<Rightarrow>
          if mget (m_keys m) (c_OldKeyID c) \<noteq> Some sid then (m, Inl ErrConflict)
          else if c_Rotate c \<and> mget (m_keys m) (c_NewKeyID c) \<noteq> None then (m, Inl ErrConflict)
          else let
            moved = (c_SetOwner c \<and> c_OwnerID c \<noteq> s_OwnerID s);
            own1 = (if moved \<and> s_OwnerID s \<noteq> 0
                    then let o1 = del_inner (s_OwnerID s) sid (m_owners m)
                         in if inner o1 (s_OwnerID s) = [] then mdel (s_OwnerID s) o1 else o1
                    else m_owners m);
            own2 = (if moved then add_owner (c_OwnerID c) sid own1 else own1);
            s1 = (if moved then s\<lparr>s_OwnerID := c_OwnerID c\<rparr> else s);
            s2 = (if c_SetLabels c then s1\<lparr>s_Labels := c_Labels c\<rparr> else s1);
            s3 = (if s_LastAccess s2 < c_LastAccess c then s2\<lparr>s_LastAccess := c_LastAccess c\<rparr> else s2);
            s4 = (if s_LastRotation s3 < c_LastRotation c then s3\<lparr>s_LastRotation := c_LastRotation c\<rparr> else s3);
            ks = (if c_Rotate c then mdel (c_OldKeyID c) (mput (c_NewKeyID c) sid (m_keys m)) else m_keys m);
            m1 = fold (mem_cookie sid) (c_Cookies c) (m\<lparr>m_owners := own2, m_keys := ks\<rparr>)
          in (m1\<lparr>m_sessions := mput sid s4 (m_sessions m1)\<rparr>, Inr ()))"

definition mem_RotateSessionKey :: "string \<Rightarrow> string \<Rightarrow> string \<Rightarrow> int64 \<Rightarrow> duration \<Rightarrow> (Memory, unit) op" where
  "mem_RotateSessionKey sid old new lastRotation ttl =
     mem_ApplySessionControls sid \<lparr>c_SetOwner = False, c_OwnerID = 0, c_SetLabels = False, c_Labels = [],
       c_LastAccess = 0, c_LastRotation = lastRotation, c_OldKeyID = old, c_NewKeyID = new,
       c_Rotate = True, c_Cookies = []\<rparr> 0 0"

definition mem_GetSession :: "string \<Rightarrow> (Memory, Session) op" where
  "mem_GetSession sid m = (m, case mget (m_sessions m) sid of None \<Rightarrow> Inl ErrNotFound | Some s \<Rightarrow> Inr s)"

definition drop_keys :: "string \<Rightarrow> (string, string) gomap \<Rightarrow> (string, string) gomap" where
  "drop_keys sid ks = filter (\<lambda>(k, v). v \<noteq> sid) ks"

definition mem_DeleteSession :: "string \<Rightarrow> (Memory, unit) op" where
  "mem_DeleteSession sid m =
     (let own = (case mget (m_sessions m) sid of
                   Some s \<Rightarrow> if s_OwnerID s \<noteq> 0 then del_inner (s_OwnerID s) sid (m_owners m) else m_owners m
                 | None \<Rightarrow> m_owners m)
      in (m\<lparr>m_owners := own, m_sessions := mdel sid (m_sessions m), m_cookies := mdel sid (m_cookies m),
            m_shas := mdel sid (m_shas m), m_keys := drop_keys sid (m_keys m)\<rparr>, Inr ()))"

definition mem_PutKey :: "string \<Rightarrow> string \<Rightarrow> duration \<Rightarrow> (Memory, unit) op" where
  "mem_PutKey keyID sid ttl m =
     (if mget (m_sessions m) sid = None then (m, Inl ErrNotFound)
      else (m\<lparr>m_keys := mput keyID sid (m_keys m)\<rparr>, Inr ()))"

definition mem_ReplaceKey :: "string \<Rightarrow> string \<Rightarrow> string \<Rightarrow> duration \<Rightarrow> (Memory, unit) op" where
  "mem_ReplaceKey old new sid ttl m =
     (if mget (m_sessions m) sid = None then (m, Inl ErrNotFound)
      else if mget (m_keys m) old \<noteq> Some sid then (m, Inl ErrConflict)
      else if mget (m_keys m) new \<noteq> None then (m, Inl ErrConflict)
      else (m\<lparr>m_keys := mdel old (mput new sid (m_keys m))\<rparr>, Inr ()))"

definition mem_GetKey :: "string \<Rightarrow> (Memory, string) op" where
  "mem_GetKey keyID m = (m, case mget (m_keys m) keyID of None \<Rightarrow> Inl ErrNotFound | Some sid \<Rightarrow> Inr sid)"

definition mem_DeleteKey :: "string \<Rightarrow> (Memory, unit) op" where
  "mem_DeleteKey keyID m = (m\<lparr>m_keys := mdel keyID (m_keys m)\<rparr>, Inr ())"

definition copyMap :: "(string, string) gomap \<Rightarrow> (string, string) gomap" where
  "copyMap ins = fold (\<lambda>(k, v) out. mput k v out) ins []"

definition mem_GetCookies :: "string \<Rightarrow> (Memory, (string, string) gomap) op" where
  "mem_GetCookies sid m = (m, Inr (copyMap (inner (m_cookies m) sid)))"

definition mem_CookieSHAs :: "string \<Rightarrow> (Memory, (string, string) gomap) op" where
  "mem_CookieSHAs sid m = (m, Inr (copyMap (inner (m_shas m) sid)))"

definition mem_PutCookie :: "string \<Rightarrow> string \<Rightarrow> string \<Rightarrow> string \<Rightarrow> (Memory, unit) op" where
  "mem_PutCookie sid name val sha m =
     (if mget (m_sessions m) sid = None then (m, Inl ErrNotFound)
      else let m0 = (if mget (m_cookies m) sid = None
                     then m\<lparr>m_cookies := mput sid [] (m_cookies m), m_shas := mput sid [] (m_shas m)\<rparr> else m)
           in case put_inner sid name val (m_cookies m0) of
                None \<Rightarrow> (m0, Inl NilMapWrite)
              | Some ck \<Rightarrow>
                  (case put_inner sid name sha (m_shas m0) of
                     None \<Rightarrow> (m0\<lparr>m_cookies := ck\<rparr>, Inl NilMapWrite)
                   | Some sh \<Rightarrow> (m0\<lparr>m_cookies := ck, m_shas := sh\<rparr>, Inr ())))"

definition mem_DeleteCookie :: "string \<Rightarrow> string \<Rightarrow> (Memory, unit) op" where
  "mem_DeleteCookie sid name m =
     (m\<lparr>m_cookies := del_inner sid name (m_cookies m), m_shas := del_inner sid name (m_shas m)\<rparr>, Inr ())"

definition mem_AddOwnerIndex :: "int64 \<Rightarrow> string \<Rightarrow> duration \<Rightarrow> (Memory, unit) op" where
  "mem_AddOwnerIndex o' sid ttl m = (m\<lparr>m_owners := add_owner o' sid (m_owners m)\<rparr>, Inr ())"

definition mem_RemoveOwnerIndex :: "int64 \<Rightarrow> string \<Rightarrow> (Memory, unit) op" where
  "mem_RemoveOwnerIndex o' sid m = (m\<lparr>m_owners := del_inner o' sid (m_owners m)\<rparr>, Inr ())"

definition mem_OwnerSessions :: "int64 \<Rightarrow> (Memory, string list) op" where
  "mem_OwnerSessions o' m = (m, Inr (map fst (inner (m_owners m) o')))"

definition mem_ReassignOwner :: "Session \<Rightarrow> duration \<Rightarrow> duration \<Rightarrow> (Memory, unit) op" where
  "mem_ReassignOwner s ttl ownerTTL m =
     (case mget (m_sessions m) (s_ID s) of
        None \<Rightarrow> (m, Inl ErrNotFound)
      | Some p \<Rightarrow>
          let own = (if 0 < s_OwnerID p \<and> s_OwnerID p \<noteq> s_OwnerID s
                     then del_inner (s_OwnerID p) (s_ID s) (m_owners m) else m_owners m);
              p1 = p\<lparr>s_OwnerID := s_OwnerID s\<rparr>;
              p2 = (if s_LastAccess p1 < s_LastAccess s then p1\<lparr>s_LastAccess := s_LastAccess s\<rparr> else p1);
              p3 = (if s_LastRotation p2 < s_LastRotation s then p2\<lparr>s_LastRotation := s_LastRotation s\<rparr> else p2)
          in (m\<lparr>m_sessions := mput (s_ID s) p3 (m_sessions m),
                m_owners := add_owner (s_OwnerID s) (s_ID s) own\<rparr>, Inr ()))"

definition mem_DeleteSessionByOwner :: "int64 \<Rightarrow> string \<Rightarrow> (Memory, bool) op" where
  "mem_DeleteSessionByOwner o' sid m =
     (let m1 = m\<lparr>m_owners := del_inner o' sid (m_owners m)\<rparr>
      in case mget (m_sessions m1) sid of
           None \<Rightarrow> (m1, Inr False)
         | Some s \<Rightarrow>
             if s_OwnerID s \<noteq> o' then (m1, Inr False)
             else (m1\<lparr>m_sessions := mdel sid (m_sessions m1), m_cookies := mdel sid (m_cookies m1),
                      m_shas := mdel sid (m_shas m1), m_keys := drop_keys sid (m_keys m1)\<rparr>, Inr True))"

definition mem_Lock :: "string \<Rightarrow> duration \<Rightarrow> (Memory, (Memory, unit) op option) op" where
  "mem_Lock sid ttl m =
     (if mget (m_locks m) sid \<noteq> None then (m, Inr None)
      else (m\<lparr>m_locks := mput sid () (m_locks m)\<rparr>,
            Inr (Some (\<lambda>m'. (m'\<lparr>m_locks := mdel sid (m_locks m')\<rparr>, Inr ())))))"

definition MemoryStore :: "Memory StoreI" where
  "MemoryStore = \<lparr>PutSession = mem_PutSession, TouchSession = mem_TouchSession,
     ApplySessionControls = mem_ApplySessionControls, RotateSessionKey = mem_RotateSessionKey,
     GetSession = mem_GetSession, DeleteSession = mem_DeleteSession, PutKey = mem_PutKey,
     ReplaceKey = mem_ReplaceKey, GetKey = mem_GetKey, DeleteKey = mem_DeleteKey,
     GetCookies = mem_GetCookies, CookieSHAs = mem_CookieSHAs, PutCookie = mem_PutCookie,
     DeleteCookie = mem_DeleteCookie, AddOwnerIndex = mem_AddOwnerIndex,
     RemoveOwnerIndex = mem_RemoveOwnerIndex, OwnerSessions = mem_OwnerSessions,
     ReassignOwner = mem_ReassignOwner, DeleteSessionByOwner = mem_DeleteSessionByOwner, Lock = mem_Lock\<rparr>"

lemmas mem_defs = mem_PutSession_def mem_TouchSession_def mem_ApplySessionControls_def
  mem_RotateSessionKey_def mem_GetSession_def mem_DeleteSession_def mem_PutKey_def mem_ReplaceKey_def
  mem_GetKey_def mem_DeleteKey_def mem_GetCookies_def mem_CookieSHAs_def mem_PutCookie_def
  mem_DeleteCookie_def mem_AddOwnerIndex_def mem_RemoveOwnerIndex_def mem_OwnerSessions_def
  mem_ReassignOwner_def mem_DeleteSessionByOwner_def mem_Lock_def

declare mem_defs [store_defs] MemoryStore_def [store_defs]

section \<open>Representation\<close>

declare map_of_eq_Some_iff [simp del]

lemma mkeys_mput [gomap_simps]: "mkeys (mput k v m) = insert k (mkeys m)"
  by (auto simp: mkeys_iff gomap_simps split: if_splits)

lemma mkeys_mdel [gomap_simps]: "mkeys (mdel k m) = mkeys m - {k}"
  by (auto simp: mkeys_iff gomap_simps split: if_splits)

lemma mkeys_Nil [simp]: "mkeys [] = {}"
  by (simp add: mkeys_def)

lemma inner_del_inner [gomap_simps]:
  "inner (del_inner k l m) k' = (if k' = k then mdel l (inner m k) else inner m k')"
  by (auto simp: del_inner_def inner_def gomap_simps split: option.splits)

lemma inner_ensure_inner [gomap_simps]: "inner (ensure_inner k m) = inner m"
  by (auto simp: ensure_inner_def inner_def gomap_simps split: option.splits)

lemma mget_del_inner_None [gomap_simps]: "mget (del_inner k l m) k' = None \<longleftrightarrow> mget m k' = None"
  by (auto simp: del_inner_def gomap_simps split: option.splits)

lemma mget_ensure_inner_None [gomap_simps]: "mget (ensure_inner k m) k' = None \<longleftrightarrow> mget m k' = None \<and> k' \<noteq> k"
  by (auto simp: ensure_inner_def gomap_simps split: option.splits)

lemma inner_add_owner [gomap_simps]:
  "inner (add_owner o' sid m) x = (if x = o' then mput sid () (inner m o') else inner m x)"
proof -
  obtain s where s: "mget (ensure_inner o' m) o' = Some s"
    using mget_ensure_inner_None [of o' m o'] by auto
  then have "s = inner m o'" using inner_ensure_inner [of o' m] by (metis inner_def option.simps(5))
  with s show ?thesis by (auto simp: add_owner_def put_inner_def gomap_simps)
qed

lemma mget_drop_keys [gomap_simps]:
  "distinct (map fst ks) \<Longrightarrow> mget (drop_keys sid ks) k = (if mget ks k = Some sid then None else mget ks k)"
  using mget_filter_snd [of ks "\<lambda>v. v \<noteq> sid" k] by (auto simp: drop_keys_def split: option.splits)

lemma mget_copyMap_fold:
  "distinct (map fst ins) \<Longrightarrow>
   mget (fold (\<lambda>(k, v) out. mput k v out) ins m) k = (case mget ins k of Some v \<Rightarrow> Some v | None \<Rightarrow> mget m k)"
proof (induction ins arbitrary: m)
  case (Cons p ins)
  obtain a b where p: "p = (a, b)" by fastforce
  from Cons.prems p have d: "distinct (map fst ins)" and a: "mget ins a = None"
    by (simp_all add: map_of_eq_None_iff)
  show ?case using Cons.IH [OF d, of "mput a b m"] a
    by (cases "k = a") (simp_all add: p gomap_simps split: option.splits)
qed simp

lemma mget_copyMap [simp]: "distinct (map fst ins) \<Longrightarrow> mget (copyMap ins) = mget ins"
  by (rule ext) (auto simp: copyMap_def mget_copyMap_fold split: option.splits)

text \<open>Representation invariant: Go maps bind a key once, and the cookie and hash maps of a session
  are nil together.\<close>

definition inner_distinct :: "('k, ('l, 'v) gomap) gomap \<Rightarrow> bool" where
  "inner_distinct m \<longleftrightarrow> (\<forall>k. distinct (map fst (inner m k)))"

definition mem_ok :: "Memory \<Rightarrow> bool" where
  "mem_ok m \<longleftrightarrow> distinct (map fst (m_keys m)) \<and> inner_distinct (m_cookies m) \<and> inner_distinct (m_shas m)
     \<and> inner_distinct (m_owners m) \<and> (\<forall>sid. mget (m_cookies m) sid = None \<longleftrightarrow> mget (m_shas m) sid = None)"

definition mem_view :: "Memory \<Rightarrow> view" where
  "mem_view m = \<lparr>v_session = mget (m_sessions m), v_key = mget (m_keys m),
     v_cookie = (\<lambda>sid. mget (inner (m_cookies m) sid)), v_sha = (\<lambda>sid. mget (inner (m_shas m) sid)),
     v_owner = (\<lambda>o'. mkeys (inner (m_owners m) o')), v_lock = mkeys (m_locks m)\<rparr>"

lemma mem_ok_New: "mem_ok NewMemory"
  by (simp add: mem_ok_def NewMemory_def inner_distinct_def inner_def)

lemma mem_view_New: "mem_view NewMemory = empty_view"
  by (simp add: mem_view_def NewMemory_def empty_view_def inner_def)

lemma inner_distinct_intros [intro]:
  "inner_distinct m \<Longrightarrow> inner_distinct (del_inner k l m)"
  "inner_distinct m \<Longrightarrow> inner_distinct (mdel k m)"
  "inner_distinct m \<Longrightarrow> inner_distinct (ensure_inner k m)"
  "inner_distinct own \<Longrightarrow> inner_distinct (add_owner o' sid own)"
  "inner_distinct m \<Longrightarrow> distinct (map fst x) \<Longrightarrow> inner_distinct (mput k x m)"
  by (auto simp: inner_distinct_def gomap_simps distinct_update distinct_delete)

lemma distinct_drop_keys: "distinct (map fst ks) \<Longrightarrow> distinct (map fst (drop_keys sid ks))"
  unfolding drop_keys_def by (rule distinct_map_filter)

lemma put_inner_Some:
  "put_inner k l v m = Some m' \<Longrightarrow> m' = mput k (mput l v (inner m k)) m \<and> mget m k \<noteq> None"
  by (auto simp: put_inner_def inner_def split: option.splits)

section \<open>Each method implements its abstract call\<close>

abbreviation "mem_mutates f ok eff \<equiv> mutates mem_ok mem_view f ok eff"

lemma mem_mutatesI:
  assumes "\<And>m. mem_ok m \<Longrightarrow> case f m of (m', Inl e) \<Rightarrow> m' = m
     | (m', Inr x) \<Rightarrow> mem_ok m' \<and> ok (mem_view m) \<and> mem_view m' = eff (mem_view m)"
  shows "mem_mutates f ok eff"
  unfolding mutates_def using assms by (fastforce split: sum.splits prod.splits)

lemma mem_view_sel [simp]:
  "v_session (mem_view m) = mget (m_sessions m)" "v_key (mem_view m) = mget (m_keys m)"
  "v_cookie (mem_view m) sid = mget (inner (m_cookies m) sid)"
  "v_sha (mem_view m) sid = mget (inner (m_shas m) sid)"
  "v_owner (mem_view m) o' = mkeys (inner (m_owners m) o')" "v_lock (mem_view m) = mkeys (m_locks m)"
  by (simp_all add: mem_view_def)

lemma mem_cookie_ok:
  assumes "mem_ok m"
  shows "mem_ok (mem_cookie sid c m)"
  using assms unfolding mem_ok_def mem_cookie_def Let_def
  by (auto simp: gomap_simps inner_distinct_def distinct_update distinct_delete)

lemma mem_cookie_view:
  "mem_view (mem_cookie sid c m) = (mem_view m)\<lparr>
     v_cookie := (v_cookie (mem_view m))(sid := spec_values [c] (v_cookie (mem_view m) sid)),
     v_sha := (v_sha (mem_view m))(sid := spec_hashes [c] (v_sha (mem_view m) sid))\<rparr>"
  by (rule view_eqI) (auto simp: mem_cookie_def Let_def gomap_simps)

lemma spec_values_append: "spec_values (cs @ ds) m = spec_values ds (spec_values cs m)"
  by (induction cs arbitrary: m) auto

lemma spec_hashes_append: "spec_hashes (cs @ ds) m = spec_hashes ds (spec_hashes cs m)"
  by (induction cs arbitrary: m) auto

lemma mem_cookies_fold:
  assumes "mem_ok m"
  shows "mem_ok (fold (mem_cookie sid) cs m) \<and> mem_view (fold (mem_cookie sid) cs m) = (mem_view m)\<lparr>
     v_cookie := (v_cookie (mem_view m))(sid := spec_values cs (v_cookie (mem_view m) sid)),
     v_sha := (v_sha (mem_view m))(sid := spec_hashes cs (v_sha (mem_view m) sid))\<rparr>"
  using assms
proof (induction cs arbitrary: m)
  case (Cons c cs)
  note ih = Cons.IH [OF mem_cookie_ok [OF Cons.prems, of sid c]]
  show ?case
  proof
    show "mem_ok (fold (mem_cookie sid) (c # cs) m)" using ih by simp
    show "mem_view (fold (mem_cookie sid) (c # cs) m) = (mem_view m)\<lparr>
       v_cookie := (v_cookie (mem_view m))(sid := spec_values (c # cs) (v_cookie (mem_view m) sid)),
       v_sha := (v_sha (mem_view m))(sid := spec_hashes (c # cs) (v_sha (mem_view m) sid))\<rparr>"
      using conjunct2 [OF ih]
      by (intro view_eqI) (simp_all del: mem_view_sel add: mem_cookie_view)
  qed
next
  case Nil
  then show ?case by (auto intro: view_eqI)
qed

lemma mem_view_sessions:
  "mem_view (m\<lparr>m_sessions := mput sid s (m_sessions m)\<rparr>)
     = (mem_view m)\<lparr>v_session := (v_session (mem_view m))(sid \<mapsto> s)\<rparr>"
  by (rule view_eqI) (simp_all add: gomap_simps)

lemma mem_ok_sessions [simp]: "mem_ok (m\<lparr>m_sessions := x\<rparr>) = mem_ok m"
  by (simp add: mem_ok_def)

lemma mem_PutSession_mutates:
  "mem_mutates (mem_PutSession s ttl) (call_ok (CPutSession s)) (call_effect (CPutSession s))"
  by (rule mem_mutatesI) (simp add: mem_PutSession_def mem_view_sessions)

lemma mem_TouchSession_mutates:
  "mem_mutates (mem_TouchSession sid k la lr ttl) (call_ok (CTouchSession sid k la lr)) (call_effect (CTouchSession sid k la lr))"
  by (rule mem_mutatesI)
    (auto simp: mem_TouchSession_def Let_def mem_view_sessions spec_touch_def max_def split: option.splits)

text \<open>Moving a session between owners, as \<open>ApplySessionControls\<close> does it.\<close>

definition move_owner :: "string \<Rightarrow> int64 \<Rightarrow> int64 \<Rightarrow> (int64, (string, unit) gomap) gomap \<Rightarrow> (int64, (string, unit) gomap) gomap" where
  "move_owner sid old new own =
     add_owner new sid
       (if old \<noteq> 0 then let o1 = del_inner old sid own in if inner o1 old = [] then mdel old o1 else o1 else own)"

lemma move_owner_distinct: "inner_distinct own \<Longrightarrow> inner_distinct (move_owner sid old new own)"
  unfolding move_owner_def Let_def by (auto intro!: inner_distinct_intros)

lemma move_owner_view:
  "mkeys (inner (move_owner sid old new own) o') = spec_move_owner sid old new (\<lambda>x. mkeys (inner own x)) o'"
proof -
  have empty: "mdel sid (inner own old) = [] \<Longrightarrow> mkeys (inner own old) - {sid} = {}"
    using mkeys_mdel [of sid "inner own old"] by simp
  then show ?thesis
    by (auto simp: move_owner_def spec_move_owner_def Let_def gomap_simps)
qed

lemma mem_ApplySessionControls_mutates:
  "mem_mutates (mem_ApplySessionControls sid c t t') (call_ok (CApplyControls sid c)) (call_effect (CApplyControls sid c))"
proof (rule mem_mutatesI)
  fix m assume ok: "mem_ok m"
  show "case mem_ApplySessionControls sid c t t' m of (m', Inl e) \<Rightarrow> m' = m
     | (m', Inr x) \<Rightarrow> mem_ok m' \<and> call_ok (CApplyControls sid c) (mem_view m)
         \<and> mem_view m' = call_effect (CApplyControls sid c) (mem_view m)"
  proof (cases "call_ok (CApplyControls sid c) (mem_view m)")
    case False
    then show ?thesis by (auto simp: mem_ApplySessionControls_def split: option.splits)
  next
    case True
    then obtain s where s: "mget (m_sessions m) sid = Some s"
      and old: "mget (m_keys m) (c_OldKeyID c) = Some sid"
      and new: "c_Rotate c \<Longrightarrow> mget (m_keys m) (c_NewKeyID c) = None" by auto
    define own where "own = (if c_SetOwner c \<and> c_OwnerID c \<noteq> s_OwnerID s
      then move_owner sid (s_OwnerID s) (c_OwnerID c) (m_owners m) else m_owners m)"
    define ks where "ks = (if c_Rotate c then mdel (c_OldKeyID c) (mput (c_NewKeyID c) sid (m_keys m)) else m_keys m)"
    define m0 where "m0 = m\<lparr>m_owners := own, m_keys := ks\<rparr>"
    define m1 where "m1 = fold (mem_cookie sid) (c_Cookies c) m0"
    have run: "mem_ApplySessionControls sid c t t' m =
        (m1\<lparr>m_sessions := mput sid (spec_row c s) (m_sessions m1)\<rparr>, Inr ())"
      using s old new
      by (simp add: mem_ApplySessionControls_def Let_def m1_def m0_def own_def ks_def move_owner_def
            spec_row_def max_def)
    have ok0: "mem_ok m0"
      using ok by (auto simp: m0_def mem_ok_def own_def ks_def move_owner_distinct distinct_update distinct_delete)
    have view0: "mem_view m0 = (mem_view m)\<lparr>
        v_key := (if c_Rotate c then (v_key (mem_view m))(c_NewKeyID c \<mapsto> sid, c_OldKeyID c := None) else v_key (mem_view m)),
        v_owner := (if c_SetOwner c \<and> c_OwnerID c \<noteq> s_OwnerID s
          then spec_move_owner sid (s_OwnerID s) (c_OwnerID c) (v_owner (mem_view m)) else v_owner (mem_view m))\<rparr>"
      by (rule view_eqI) (simp_all add: m0_def own_def ks_def gomap_simps move_owner_view mem_view_def)
    note fold = mem_cookies_fold [OF ok0, of sid "c_Cookies c", folded m1_def]
    have "mem_view (m1\<lparr>m_sessions := mput sid (spec_row c s) (m_sessions m1)\<rparr>)
        = spec_controls sid c s (mem_view m)"
      unfolding mem_view_sessions conjunct2 [OF fold] view0
      by (rule view_eqI) (simp_all add: spec_controls_def)
    with fold True s show ?thesis by (simp add: run)
  qed
qed

lemma mem_DeleteSession_mutates:
  "mem_mutates (mem_DeleteSession sid) (call_ok (CDeleteSession sid)) (call_effect (CDeleteSession sid))"
proof (rule mem_mutatesI)
  fix m assume ok: "mem_ok m"
  define own where "own = (case mget (m_sessions m) sid of
      Some s \<Rightarrow> if s_OwnerID s \<noteq> 0 then del_inner (s_OwnerID s) sid (m_owners m) else m_owners m
    | None \<Rightarrow> m_owners m)"
  let ?m = "m\<lparr>m_owners := own, m_sessions := mdel sid (m_sessions m), m_cookies := mdel sid (m_cookies m),
            m_shas := mdel sid (m_shas m), m_keys := drop_keys sid (m_keys m)\<rparr>"
  have "inner_distinct own" using ok by (auto simp: own_def mem_ok_def split: option.splits)
  then have "mem_ok ?m"
    using ok by (auto simp: mem_ok_def distinct_drop_keys gomap_simps)
  moreover have "mem_view ?m = spec_delete sid (mem_view m)"
    using ok by (intro view_eqI)
      (auto simp: spec_delete_def own_def gomap_simps mem_ok_def split: option.splits)
  ultimately show "case mem_DeleteSession sid m of (m', Inl e) \<Rightarrow> m' = m
     | (m', Inr x) \<Rightarrow> mem_ok m' \<and> call_ok (CDeleteSession sid) (mem_view m)
         \<and> mem_view m' = call_effect (CDeleteSession sid) (mem_view m)"
    by (simp add: mem_DeleteSession_def Let_def own_def)
qed

lemma mem_PutKey_mutates:
  "mem_mutates (mem_PutKey k sid t) (call_ok (CPutKey k sid)) (call_effect (CPutKey k sid))"
  by (rule mem_mutatesI)
    (auto simp: mem_PutKey_def mem_ok_def gomap_simps distinct_update intro!: view_eqI)

lemma mem_ReplaceKey_mutates:
  "mem_mutates (mem_ReplaceKey old new sid t) (call_ok (CReplaceKey old new sid)) (call_effect (CReplaceKey old new sid))"
  by (rule mem_mutatesI)
    (auto simp: mem_ReplaceKey_def mem_ok_def gomap_simps distinct_update distinct_delete intro!: view_eqI)

lemma mem_DeleteKey_mutates:
  "mem_mutates (mem_DeleteKey k) (call_ok (CDeleteKey k)) (call_effect (CDeleteKey k))"
  by (rule mem_mutatesI)
    (auto simp: mem_DeleteKey_def mem_ok_def gomap_simps distinct_delete intro!: view_eqI)

lemma mem_AddOwnerIndex_mutates:
  "mem_mutates (mem_AddOwnerIndex o' sid t) (call_ok (CAddOwner o' sid)) (call_effect (CAddOwner o' sid))"
  by (rule mem_mutatesI) (auto simp: mem_AddOwnerIndex_def mem_ok_def gomap_simps intro!: view_eqI)

lemma mem_RemoveOwnerIndex_mutates:
  "mem_mutates (mem_RemoveOwnerIndex o' sid) (call_ok (CRemoveOwner o' sid)) (call_effect (CRemoveOwner o' sid))"
  by (rule mem_mutatesI) (auto simp: mem_RemoveOwnerIndex_def mem_ok_def gomap_simps intro!: view_eqI)

lemma mem_DeleteCookie_mutates:
  "mem_mutates (mem_DeleteCookie sid n) (call_ok (CDeleteCookie sid n)) (call_effect (CDeleteCookie sid n))"
  by (rule mem_mutatesI) (auto simp: mem_DeleteCookie_def mem_ok_def gomap_simps intro!: view_eqI)

text \<open>The invariant rules out the nil-map write of \<open>PutCookie\<close>.\<close>

lemma mem_PutCookie_run:
  assumes "mem_ok m" and "mget (m_sessions m) sid \<noteq> None"
  shows "mem_PutCookie sid n v h m = (mem_cookie sid \<lparr>cm_Name = n, cm_Value = v, cm_SHA = h, cm_Delete = False\<rparr> m, Inr ())"
proof (cases "mget (m_cookies m) sid")
  case None
  then have "mget (m_shas m) sid = None" using assms(1) by (simp add: mem_ok_def)
  with None assms(2) show ?thesis
    by (simp add: mem_PutCookie_def mem_cookie_def put_inner_def ensure_inner_def inner_def gomap_simps Let_def)
next
  case (Some x)
  then have "mget (m_shas m) sid \<noteq> None" using assms(1) by (metis mem_ok_def option.distinct(1))
  then obtain y where "mget (m_shas m) sid = Some y" by blast
  with Some assms(2) show ?thesis
    by (simp add: mem_PutCookie_def mem_cookie_def put_inner_def ensure_inner_def inner_def gomap_simps Let_def)
qed

lemma mem_PutCookie_mutates:
  "mem_mutates (mem_PutCookie sid n v h) (call_ok (CPutCookie sid n v h)) (call_effect (CPutCookie sid n v h))"
proof (rule mem_mutatesI)
  fix m assume ok: "mem_ok m"
  show "case mem_PutCookie sid n v h m of (m', Inl e) \<Rightarrow> m' = m
     | (m', Inr x) \<Rightarrow> mem_ok m' \<and> call_ok (CPutCookie sid n v h) (mem_view m)
         \<and> mem_view m' = call_effect (CPutCookie sid n v h) (mem_view m)"
  proof (cases "mget (m_sessions m) sid = None")
    case False
    with ok show ?thesis by (simp add: mem_PutCookie_run mem_cookie_ok mem_cookie_view)
  qed (simp add: mem_PutCookie_def)
qed

lemma mem_ReassignOwner_mutates:
  "mem_mutates (mem_ReassignOwner s t t') (call_ok (CReassignOwner s)) (call_effect (CReassignOwner s))"
proof (rule mem_mutatesI)
  fix m assume ok: "mem_ok m"
  show "case mem_ReassignOwner s t t' m of (m', Inl e) \<Rightarrow> m' = m
     | (m', Inr x) \<Rightarrow> mem_ok m' \<and> call_ok (CReassignOwner s) (mem_view m)
         \<and> mem_view m' = call_effect (CReassignOwner s) (mem_view m)"
  proof (cases "mget (m_sessions m) (s_ID s)")
    case (Some p)
    with ok show ?thesis
      by (auto simp: mem_ReassignOwner_def Let_def mem_ok_def gomap_simps max_def intro!: view_eqI)
  qed (simp add: mem_ReassignOwner_def)
qed

lemma mem_DeleteByOwner_mutates:
  "mem_mutates (\<lambda>m. andThen (mem_DeleteSessionByOwner o' sid m) (\<lambda>m' _. (m', Inr ())))
     (call_ok (CDeleteByOwner o' sid)) (call_effect (CDeleteByOwner o' sid))"
  by (rule mem_mutatesI)
    (auto simp: mem_DeleteSessionByOwner_def Let_def mem_ok_def spec_delete_def gomap_simps
       distinct_drop_keys split: option.splits intro!: view_eqI)

section \<open>The contract holds\<close>

lemma mem_locks:
  "mem_ok (m\<lparr>m_locks := x\<rparr>) = mem_ok m"
  "mem_view (m\<lparr>m_locks := x\<rparr>) = (mem_view m)\<lparr>v_lock := mkeys x\<rparr>"
  by (simp_all add: mem_ok_def mem_view_def)

lemma mem_Lock_busy: "mem_Lock sid t m = (m', r) \<Longrightarrow> r = Inr None \<or> isl r \<Longrightarrow> m' = m"
  by (auto simp: mem_Lock_def split: if_splits)

lemma mem_Lock_taken:
  assumes "mem_Lock sid t m = (m', Inr (Some unlock))"
  shows "m' = m\<lparr>m_locks := mput sid () (m_locks m)\<rparr> \<and> sid \<notin> mkeys (m_locks m) \<and>
         unlock = (\<lambda>m. (m\<lparr>m_locks := mdel sid (m_locks m)\<rparr>, Inr ()))"
  using assms by (auto simp: mem_Lock_def mkeys_iff split: if_splits)

interpretation mem: store_contract MemoryStore mem_view mem_ok
proof unfold_locales
  show "mem_mutates (exec MemoryStore t t' c) (call_ok c) (call_effect c)" for t t' c
    by (cases c) (simp_all add: MemoryStore_def mem_PutSession_mutates mem_TouchSession_mutates
      mem_ApplySessionControls_mutates mem_DeleteSession_mutates mem_PutKey_mutates mem_ReplaceKey_mutates
      mem_DeleteKey_mutates mem_PutCookie_mutates mem_DeleteCookie_mutates mem_AddOwnerIndex_mutates
      mem_RemoveOwnerIndex_mutates mem_ReassignOwner_mutates mem_DeleteByOwner_mutates
      del: call_ok.simps call_effect.simps)
  show "RotateSessionKey MemoryStore sid old new lr t =
      ApplySessionControls MemoryStore sid (rotate_controls old new lr) t 0" for sid old new lr t
    by (simp add: MemoryStore_def mem_RotateSessionKey_def rotate_controls_def fun_eq_iff
        mem_ApplySessionControls_def)
  show "b \<longleftrightarrow> (\<exists>s. v_session (mem_view m) sid = Some s \<and> s_OwnerID s = o')"
    if "DeleteSessionByOwner MemoryStore o' sid m = (m', Inr b)" for o' sid m m' b
    using that by (auto simp: MemoryStore_def mem_DeleteSessionByOwner_def Let_def split: option.splits if_splits)
  show "mem_ok m' \<and> mem_view m' = mem_view m"
    if "mem_ok m" "Lock MemoryStore sid t m = (m', r)" "r = Inr None \<or> isl r" for m sid t m' r
    using that mem_Lock_busy by (force simp: MemoryStore_def)
  show "mem_ok m' \<and> sid \<notin> v_lock (mem_view m) \<and>
      mem_view m' = (mem_view m)\<lparr>v_lock := insert sid (v_lock (mem_view m))\<rparr>"
    if "mem_ok m" "Lock MemoryStore sid t m = (m', Inr (Some u))" for m sid t m' u
    using that mem_Lock_taken by (fastforce simp: MemoryStore_def mem_locks gomap_simps)
  show "mem_ok m' \<and> (mem_view m' = mem_view m \<or> mem_view m' = (mem_view m)\<lparr>v_lock := v_lock (mem_view m) - {sid}\<rparr>)"
    if "Lock MemoryStore sid t m0 = (m1, Inr (Some u))" "mem_ok m" "u m = (m', r)" for sid t m0 m1 u m m' r
    using that mem_Lock_taken by (fastforce simp: MemoryStore_def mem_locks gomap_simps)
qed (auto simp: MemoryStore_def queries_def finds_def mem_GetSession_def mem_GetKey_def mem_GetCookies_def
      mem_CookieSHAs_def mem_OwnerSessions_def mem_ok_def inner_distinct_def mkeys_def split: option.splits)

interpretation mem: exact_store MemoryStore mem_view mem_ok
proof unfold_locales
  show "\<not> call_ok c (mem_view m) \<and> e = call_error c (mem_view m)"
    if "mem_ok m" "exec MemoryStore t t' c m = (m', Inl e)" for t t' c m m' e
    using that mem_PutCookie_run [of m]
    by (cases c) (auto simp: store_defs call_error_def Let_def mem_PutCookie_run
      simp del: not_None_eq split: option.splits if_splits)
  show "\<not> isl r \<and> mem_view m' = (mem_view m)\<lparr>v_lock := v_lock (mem_view m) - {sid}\<rparr>"
    if "Lock MemoryStore sid t m0 = (m1, Inr (Some u))" "u m = (m', r)" for sid t m0 m1 u m m' r
    using that mem_Lock_taken by (fastforce simp: MemoryStore_def mem_locks gomap_simps)
qed (auto simp: store_defs mkeys_iff mem_ok_def inner_distinct_def split: option.splits if_splits)

section \<open>Any interleaving of calls\<close>

lemma exec_all_append: "exec_all I t t' (cs @ ds) st = exec_all I t t' ds (exec_all I t t' cs st)"
  by (induction cs arbitrary: st) auto

lemma empty_view_no_orphans: "no_orphans empty_view"
  by (simp add: no_orphans_def empty_view_def)

lemma mem_reachable:
  "mem_ok (exec_all MemoryStore t t' cs NewMemory)" "no_orphans (mem_view (exec_all MemoryStore t t' cs NewMemory))"
proof -
  note sim = mem.exec_all_simulates [OF mem_ok_New, of t t' cs, unfolded mem_view_New]
  then show "mem_ok (exec_all MemoryStore t t' cs NewMemory)" ..
  show "no_orphans (mem_view (exec_all MemoryStore t t' cs NewMemory))"
    using sim empty_view_no_orphans by (blast intro: vruns_no_orphans)
qed

text \<open>
  C20. After any history of calls on a new in-memory store, every mutating method succeeds exactly
  when its documented precondition holds, reports \<open>ErrNotFound\<close> for an absent session and
  \<open>ErrConflict\<close> for a lost key comparison otherwise, and changes what a client can observe exactly
  as the abstract call does, or not at all when it fails. It never panics, and rows, keys, cached
  cookies and hashes never become orphans.
\<close>

theorem mem_calls_exact:
  "let m = exec_all MemoryStore t t' cs NewMemory; v = mem_view m; ok = call_ok c v
   in no_orphans v \<and>
      (\<exists>m'. exec MemoryStore u u' c m = (m', if ok then Inr () else Inl (call_error c v)) \<and>
            mem_view m' = (if ok then call_effect c v else v))"
proof -
  obtain m' where "exec MemoryStore u u' c (exec_all MemoryStore t t' cs NewMemory) = (m',
        if call_ok c (mem_view (exec_all MemoryStore t t' cs NewMemory)) then Inr ()
        else Inl (call_error c (mem_view (exec_all MemoryStore t t' cs NewMemory))))"
    and "mem_view m' = (if call_ok c (mem_view (exec_all MemoryStore t t' cs NewMemory))
        then call_effect c (mem_view (exec_all MemoryStore t t' cs NewMemory))
        else mem_view (exec_all MemoryStore t t' cs NewMemory))"
    using mem.call_total [OF mem_reachable(1)] by metis
  with mem_reachable(2) show ?thesis unfolding Let_def by blast
qed

text \<open>
  C22. Once a session is deleted, no interleaving of later calls, stale touches, key writes, cookie
  writes and owner moves included, brings back its row, a key that leads to it, a cached cookie or
  a hash, unless a session with that id is created anew.
\<close>

theorem mem_deleted_stays_gone:
  assumes "\<forall>c \<in> set ds. \<not> creates sid c"
  shows "gone sid (mem_view (exec_all MemoryStore t t' (cs @ CDeleteSession sid # ds) NewMemory))"
proof -
  let ?m = "exec_all MemoryStore t t' (cs @ [CDeleteSession sid]) NewMemory"
  obtain m' where "exec MemoryStore t t' (CDeleteSession sid) (exec_all MemoryStore t t' cs NewMemory) = (m', Inr ())"
    and "mem_view m' = call_effect (CDeleteSession sid) (mem_view (exec_all MemoryStore t t' cs NewMemory))"
    using mem.call_total [OF mem_reachable(1) [of t t' cs], of t t' "CDeleteSession sid"] by auto
  then have "v_session (mem_view ?m) sid = None"
    by (simp add: exec_all_append spec_delete_def del: mem_view_sel)
  then have "gone sid (mem_view ?m)" using mem_reachable(2) by (intro no_orphans_gone)
  from mem.exec_all_gone [OF mem_reachable this assms, of t t']
  show ?thesis by (simp add: exec_all_append)
qed

theorem mem_deleted_stays_gone_witness:
  "gone ''s'' (mem_view (exec_all MemoryStore 0 0
     ([CPutSession \<lparr>s_ID = ''s'', s_Creation = 1, s_LastAccess = 1, s_InactiveTimeout = 60, s_FinalTimeout = 600,
         s_OwnerID = 7, s_LastRotation = 1, s_Labels = []\<rparr>, CPutKey ''k'' ''s'', CPutCookie ''s'' ''a'' ''b'' ''h'']
      @ CDeleteSession ''s'' # [CPutKey ''k2'' ''s'', CTouchSession ''s'' ''k'' 5 5, CPutCookie ''s'' ''a'' ''c'' ''h'']) NewMemory))"
  by (rule mem_deleted_stays_gone) simp

text \<open>
  C21. A key rotation is a compare-and-swap with one winner. When \<open>ApplySessionControls\<close> rotates away
  from a key, then after any further calls that do not mint that key anew, the key resolves to
  nothing, and every later update that still presents it is refused and leaves the store as it was.
\<close>

theorem mem_rotation_single_winner:
  assumes first: "mem_ApplySessionControls sid c u u' (exec_all MemoryStore t t' cs NewMemory) = (m1, Inr ())"
    and rotates: "c_Rotate c"
    and later: "m2 = exec_all MemoryStore t t' ds m1" "\<forall>d \<in> set ds. \<not> mints (c_OldKeyID c) d"
    and stale: "c_OldKeyID c' = c_OldKeyID c"
  shows "mem_GetKey (c_OldKeyID c) m2 = (m2, Inl ErrNotFound) \<and>
    (\<exists>e \<in> {ErrNotFound, ErrConflict}. mem_ApplySessionControls sid' c' w w' m2 = (m2, Inl e))"
proof -
  have "exec MemoryStore u u' (CApplyControls sid c) (exec_all MemoryStore t t' cs NewMemory) = (m1, Inr ())"
    using first by (simp add: MemoryStore_def)
  from mem.call_done [OF mem_reachable(1) this] have ok: "mem_ok m1"
    and "v_key (mem_view m1) (c_OldKeyID c) = None"
    using rotates by (auto simp: spec_controls_def simp del: mem_view_sel)
  with later mem.exec_all_simulates [OF ok, of t t' ds] have "v_key (mem_view m2) (c_OldKeyID c) = None"
    by (auto intro: vruns_dead_key simp del: mem_view_sel)
  then have dead: "mget (m_keys m2) (c_OldKeyID c) = None" by simp
  with stale show ?thesis
    by (simp add: mem_GetKey_def mem_ApplySessionControls_def split: option.splits)
qed

definition rotation_history :: "store_call list" where
  "rotation_history = [CPutSession \<lparr>s_ID = ''s'', s_Creation = 1, s_LastAccess = 1, s_InactiveTimeout = 60,
     s_FinalTimeout = 600, s_OwnerID = 0, s_LastRotation = 1, s_Labels = []\<rparr>, CPutKey ''k0'' ''s'']"

theorem mem_rotation_single_winner_witness:
  "snd (mem_GetKey ''k0'' (exec_all MemoryStore 0 0 [CTouchSession ''s'' ''k1'' 9 9]
     (fst (mem_ApplySessionControls ''s'' (rotate_controls ''k0'' ''k1'' 5) 0 0
       (exec_all MemoryStore 0 0 rotation_history NewMemory))))) = Inl ErrNotFound"
proof -
  have run: "mem_ApplySessionControls ''s'' (rotate_controls ''k0'' ''k1'' 5) 0 0
      (exec_all MemoryStore 0 0 rotation_history NewMemory) =
    (fst (mem_ApplySessionControls ''s'' (rotate_controls ''k0'' ''k1'' 5) 0 0
      (exec_all MemoryStore 0 0 rotation_history NewMemory)), Inr ())"
    by code_simp
  show ?thesis
    using mem_rotation_single_winner [OF run _ refl, of "[CTouchSession ''s'' ''k1'' 9 9]" "rotate_controls ''k0'' ''k2'' 6"]
    by (simp add: rotate_controls_def)
qed

end
