(* ===== verification/Go_Crypto.thy ===== *)
theory Go_Crypto
  imports Go_Strings
begin

text \<open>
  The two library functions behind identifiers and cookie hashes: \<open>base64.RawURLEncoding\<close>
  and \<open>sha256.Sum256\<close>, both on byte strings.
\<close>

unbundle bit_operations_syntax

section \<open>base64.RawURLEncoding\<close>

definition b64_alphabet :: string where
  "b64_alphabet = ''ABCDEFGHIJKLMNOPQRSTUVWXYZabcdefghijklmnopqrstuvwxyz0123456789-_''"

definition b64_char :: "int \<Rightarrow> char" where
  "b64_char n = b64_alphabet ! nat (n mod 64)"

text \<open>Three bytes become four characters; a rest of one or two bytes becomes two or three, unpadded.\<close>

fun RawURLEncode :: "string \<Rightarrow> string" where
  "RawURLEncode (a # b # c # s) =
     (let n = ord a * 65536 + ord b * 256 + ord c
      in b64_char (n div 262144) # b64_char (n div 4096) # b64_char (n div 64) # b64_char n # RawURLEncode s)"
| "RawURLEncode [a, b] =
     (let n = ord a * 65536 + ord b * 256
      in [b64_char (n div 262144), b64_char (n div 4096), b64_char (n div 64)])"
| "RawURLEncode [a] = (let n = ord a * 65536 in [b64_char (n div 262144), b64_char (n div 4096)])"
| "RawURLEncode [] = []"

lemma b64_char_eq: "b64_char x = b64_char y \<longleftrightarrow> x mod 64 = y mod 64"
proof -
  have d: "distinct b64_alphabet" and l: "length b64_alphabet = 64" by (simp_all add: b64_alphabet_def)
  have "b64_char x = b64_char y \<longleftrightarrow> nat (x mod 64) = nat (y mod 64)"
    unfolding b64_char_def using l by (intro nth_eq_iff_index_eq [OF d]) (simp_all add: nat_less_iff)
  then show ?thesis by (simp add: nat_eq_iff)
qed

lemma b64_char_set: "b64_char x \<in> set b64_alphabet"
  unfolding b64_char_def by (rule nth_mem) (simp add: b64_alphabet_def nat_less_iff)

lemma length_RawURLEncode: "length (RawURLEncode s) = (length s * 4 + 2) div 3"
  by (induction s rule: RawURLEncode.induct) (simp_all add: Let_def)

lemma RawURLEncode_alphabet: "set (RawURLEncode s) \<subseteq> set b64_alphabet"
  by (induction s rule: RawURLEncode.induct) (simp_all add: Let_def b64_char_set)

text \<open>The encoding loses nothing: it is injective on inputs of equal length.\<close>

lemma digits64:
  fixes m :: int
  assumes "0 \<le> m" "m < 16777216"
  shows "m = ((m div 262144) mod 64) * 262144 + ((m div 4096) mod 64) * 4096 + ((m div 64) mod 64) * 64 + m mod 64"
proof -
  have "m div 64 div 64 = m div 4096" "m div 4096 div 64 = m div 262144"
    by (simp_all add: zdiv_zmult2_eq [symmetric])
  moreover have "m = m div 64 * 64 + m mod 64" "m div 64 = m div 64 div 64 * 64 + m div 64 mod 64"
    "m div 4096 = m div 4096 div 64 * 64 + m div 4096 mod 64" by (rule div_mult_mod_eq [symmetric])+
  moreover have "(m div 262144) mod 64 = m div 262144"
    using assms by (intro mod_pos_pos_trivial) (simp_all add: div_less_iff_less_mult pos_imp_zdiv_nonneg_iff)
  ultimately show ?thesis by linarith
qed

lemma digits64_eq:
  fixes m n :: int
  assumes "0 \<le> m \<and> m < 16777216" "0 \<le> n \<and> n < 16777216"
    and "b64_char (m div 262144) = b64_char (n div 262144)" "b64_char (m div 4096) = b64_char (n div 4096)"
        "b64_char (m div 64) = b64_char (n div 64)" "b64_char m = b64_char n"
  shows "m = n"
proof -
  note eqs = assms(3-6) [unfolded b64_char_eq]
  have "m = ((m div 262144) mod 64) * 262144 + ((m div 4096) mod 64) * 4096 + ((m div 64) mod 64) * 64 + m mod 64"
    using assms(1) by (intro digits64) blast+
  also have "\<dots> = ((n div 262144) mod 64) * 262144 + ((n div 4096) mod 64) * 4096 + ((n div 64) mod 64) * 64 + n mod 64"
    unfolding eqs ..
  also have "\<dots> = n" using assms(2) by (intro digits64 [symmetric]) blast+
  finally show ?thesis .
qed

lemma triple_bounds:
  fixes a b c :: int
  assumes "0 \<le> a \<and> a < 256" "0 \<le> b \<and> b < 256" "0 \<le> c \<and> c < 256"
  shows "0 \<le> a * 65536 + b * 256 + c \<and> a * 65536 + b * 256 + c < 16777216"
  using assms by linarith

lemma bytes_eq:
  fixes a b c :: int
  assumes "a * 65536 + b * 256 + c = a' * 65536 + b' * 256 + c'"
    and "0 \<le> b \<and> b < 256" "0 \<le> c \<and> c < 256" "0 \<le> b' \<and> b' < 256" "0 \<le> c' \<and> c' < 256"
  shows "a = a' \<and> b = b' \<and> c = c'"
proof -
  have a: "a = a'"
    using assms int_div_pos_eq [of "a * 65536 + b * 256 + c" 65536 a "b * 256 + c"]
      int_div_pos_eq [of "a' * 65536 + b' * 256 + c'" 65536 a' "b' * 256 + c'"] by simp
  have "b = b'"
    using assms a int_div_pos_eq [of "b * 256 + c" 256 b c] int_div_pos_eq [of "b' * 256 + c'" 256 b' c'] by simp
  with a assms(1) show ?thesis by simp
qed

lemma rest64:
  fixes a b :: int
  shows "b64_char (a * 65536 + b * 256) = b64_char 0" "b64_char (a * 65536) = b64_char 0"
    "b64_char (a * 65536 div 64) = b64_char 0"
proof -
  have "a * 65536 + b * 256 = 64 * (a * 1024 + b * 4)" "a * 65536 = 64 * (a * 1024)"
    "a * 65536 div 64 = 64 * (a * 16)" by simp_all
  then show "b64_char (a * 65536 + b * 256) = b64_char 0" "b64_char (a * 65536) = b64_char 0"
    "b64_char (a * 65536 div 64) = b64_char 0"
    unfolding b64_char_eq by (simp_all only: mod_mult_self1_is_0 mod_0)
qed

lemma triple_eq:
  fixes a b c :: int
  assumes "0 \<le> a \<and> a < 256" "0 \<le> b \<and> b < 256" "0 \<le> c \<and> c < 256"
    and "0 \<le> a' \<and> a' < 256" "0 \<le> b' \<and> b' < 256" "0 \<le> c' \<and> c' < 256"
    and "n = a * 65536 + b * 256 + c" "n' = a' * 65536 + b' * 256 + c'"
    and "b64_char (n div 262144) = b64_char (n' div 262144)" "b64_char (n div 4096) = b64_char (n' div 4096)"
        "b64_char (n div 64) = b64_char (n' div 64)" "b64_char n = b64_char n'"
  shows "a = a' \<and> b = b' \<and> c = c'"
proof (rule bytes_eq)
  show "a * 65536 + b * 256 + c = a' * 65536 + b' * 256 + c'"
    using digits64_eq [OF _ _ assms(9-12)] triple_bounds [OF assms(1-3)] triple_bounds [OF assms(4-6)]
    unfolding assms(7,8) by blast
qed (use assms in blast)+

lemma RawURLEncode_inj: "length s = length t \<Longrightarrow> RawURLEncode s = RawURLEncode t \<Longrightarrow> s = t"
proof (induction s arbitrary: t rule: RawURLEncode.induct)
  case (1 a b c s)
  from "1.prems"(1) obtain a' b' c' t' where t: "t = a' # b' # c' # t'" "length s = length t'"
    by (cases t rule: RawURLEncode.cases) auto
  note eq = "1.prems"(2) [unfolded t RawURLEncode.simps Let_def list.inject]
  have "ord a = ord a' \<and> ord b = ord b' \<and> ord c = ord c'"
    by (rule triple_eq [OF ord_bounds ord_bounds ord_bounds ord_bounds ord_bounds ord_bounds refl refl])
      (use eq in blast)+
  moreover have "s = t'" using "1.IH" [OF refl t(2)] eq by blast
  ultimately show ?case unfolding t ord_inj by blast
next
  case (2 a b)
  from "2.prems"(1) obtain a' b' where t: "t = [a', b']" by (cases t rule: RawURLEncode.cases) auto
  note eq = "2.prems"(2) [unfolded t RawURLEncode.simps Let_def list.inject]
  have z: "0 \<le> (0::int) \<and> (0::int) < 256" by simp
  have "ord a = ord a' \<and> ord b = ord b' \<and> (0::int) = 0"
    by (rule triple_eq [OF ord_bounds ord_bounds z ord_bounds ord_bounds z refl refl])
      (use eq in \<open>simp_all only: rest64 add_0_right\<close>)
  then show ?case unfolding t ord_inj by blast
next
  case (3 a)
  from "3.prems"(1) obtain a' where t: "t = [a']" by (cases t rule: RawURLEncode.cases) auto
  note eq = "3.prems"(2) [unfolded t RawURLEncode.simps Let_def list.inject]
  have z: "0 \<le> (0::int) \<and> (0::int) < 256" by simp
  have "ord a = ord a' \<and> (0::int) = 0 \<and> (0::int) = 0"
    by (rule triple_eq [OF ord_bounds z z ord_bounds z z refl refl])
      (use eq in \<open>simp_all only: rest64 add_0_right mult_zero_left\<close>)
  then show ?case unfolding t ord_inj by blast
qed simp

section \<open>sha256.Sum256\<close>

text \<open>The constants are the first 32 bits of the fractional parts of the square and cube roots of the first
  primes; \<open>root_bits k n x 0\<close> is the integer part of the \<open>k\<close>-th root of \<open>x\<close>, found bit by bit.\<close>

definition primes_below :: "int \<Rightarrow> int list" where
  "primes_below n = filter (\<lambda>p. list_all (\<lambda>d. p mod d \<noteq> 0) [2..p - 1]) [2..n - 1]"

fun root_bits :: "nat \<Rightarrow> nat \<Rightarrow> int \<Rightarrow> int \<Rightarrow> int" where
  "root_bits k 0 x r = r"
| "root_bits k (Suc b) x r = root_bits k b x (if (r + 2 ^ b) ^ k \<le> x then r + 2 ^ b else r)"

definition root_fraction :: "nat \<Rightarrow> int \<Rightarrow> 32 word" where
  "root_fraction k p = word_of_int (root_bits k 36 (p * 2 ^ (32 * k)) 0)"

definition sha_K :: "32 word list" where
  "sha_K = map (root_fraction 3) (primes_below 312)"

record sha_state =
  h_a :: "32 word"
  h_b :: "32 word"
  h_c :: "32 word"
  h_d :: "32 word"
  h_e :: "32 word"
  h_f :: "32 word"
  h_g :: "32 word"
  h_h :: "32 word"

definition sha_init :: sha_state where
  "sha_init = \<lparr>h_a = root_fraction 2 2, h_b = root_fraction 2 3, h_c = root_fraction 2 5, h_d = root_fraction 2 7,
     h_e = root_fraction 2 11, h_f = root_fraction 2 13, h_g = root_fraction 2 17, h_h = root_fraction 2 19\<rparr>"

definition rotr :: "nat \<Rightarrow> 32 word \<Rightarrow> 32 word" where
  "rotr n w = (drop_bit n w) OR (push_bit (32 - n) w)"

definition sha_word :: "32 word list \<Rightarrow> 32 word" where
  "sha_word ws =
     (let n = length ws; w15 = ws ! (n - 15); w2 = ws ! (n - 2);
          s0 = rotr 7 w15 XOR rotr 18 w15 XOR drop_bit 3 w15;
          s1 = rotr 17 w2 XOR rotr 19 w2 XOR drop_bit 10 w2
      in ws ! (n - 16) + s0 + ws ! (n - 7) + s1)"

definition sha_schedule :: "32 word list \<Rightarrow> 32 word list" where
  "sha_schedule block = ((\<lambda>ws. ws @ [sha_word ws]) ^^ 48) block"

definition sha_round :: "32 word \<times> 32 word \<Rightarrow> sha_state \<Rightarrow> sha_state" where
  "sha_round kw s =
     (let S1 = rotr 6 (h_e s) XOR rotr 11 (h_e s) XOR rotr 25 (h_e s);
          ch = (h_e s AND h_f s) XOR (NOT (h_e s) AND h_g s);
          t1 = h_h s + S1 + ch + fst kw + snd kw;
          S0 = rotr 2 (h_a s) XOR rotr 13 (h_a s) XOR rotr 22 (h_a s);
          mj = (h_a s AND h_b s) XOR (h_a s AND h_c s) XOR (h_b s AND h_c s)
      in \<lparr>h_a = t1 + (S0 + mj), h_b = h_a s, h_c = h_b s, h_d = h_c s,
          h_e = h_d s + t1, h_f = h_e s, h_g = h_f s, h_h = h_g s\<rparr>)"

definition sha_block :: "32 word list \<Rightarrow> sha_state \<Rightarrow> sha_state" where
  "sha_block block s =
     (let r = fold sha_round (zip sha_K (sha_schedule block)) s
      in \<lparr>h_a = h_a s + h_a r, h_b = h_b s + h_b r, h_c = h_c s + h_c r, h_d = h_d s + h_d r,
          h_e = h_e s + h_e r, h_f = h_f s + h_f r, h_g = h_g s + h_g r, h_h = h_h s + h_h r\<rparr>)"

text \<open>Padding: the bit 1, zeros up to 56 modulo 64 bytes, and the length in bits as eight bytes.\<close>

fun be_bytes :: "nat \<Rightarrow> int \<Rightarrow> int list" where
  "be_bytes 0 n = []"
| "be_bytes (Suc k) n = be_bytes k (n div 256) @ [n mod 256]"

definition sha_pad :: "string \<Rightarrow> int list" where
  "sha_pad s = map ord s @ [128] @ replicate (nat ((55 - int (length s)) mod 64)) 0 @ be_bytes 8 (8 * int (length s))"

fun be_words :: "int list \<Rightarrow> 32 word list" where
  "be_words (a # b # c # d # s) = word_of_int (((a * 256 + b) * 256 + c) * 256 + d) # be_words s"
| "be_words _ = []"

fun sha_blocks :: "nat \<Rightarrow> 32 word list \<Rightarrow> sha_state \<Rightarrow> sha_state" where
  "sha_blocks 0 ws s = s"
| "sha_blocks (Suc n) ws s = sha_blocks n (drop 16 ws) (sha_block (take 16 ws) s)"

definition Sum256 :: "string \<Rightarrow> string" where
  "Sum256 m =
     (let ws = be_words (sha_pad m); s = sha_blocks (length ws div 16) ws sha_init
      in map char_of (concat (map (\<lambda>w. be_bytes 4 (uint w))
           [h_a s, h_b s, h_c s, h_d s, h_e s, h_f s, h_g s, h_h s])))"

lemma length_be_bytes [simp]: "length (be_bytes k n) = k"
  by (induction k n rule: be_bytes.induct) auto

lemma length_Sum256 [simp]: "length (Sum256 m) = 32"
  by (simp add: Sum256_def Let_def)

end
