(* ===== verification/Session_Manager.thy ===== *)
theory Session_Manager
  imports Memory_Store Go_Crypto "HOL-Library.Char_ord" "HOL-Library.List_Lexorder"
begin

text \<open>
  The session manager (\<open>internal/session/manager.go\<close>): lifecycle of sessions and keys over any
  \<open>Store\<close>. The world an operation runs in holds the store, the bytes the random reader still
  delivers, the successive readings of the clock, and what other requests do to the store before each
  of this request's store calls, so that every operation is modelled under interleaving.
\<close>

section \<open>Configuration, world, handles\<close>

record Config =
  Inactive :: duration
  Final :: duration
  Synchronize :: bool
  RotateOnLogin :: bool
  RotateInterval :: duration

record 'st Manager =
  m_store :: "'st StoreI"
  m_cfg :: Config

record 'st world =
  w_store :: 'st
  w_rng :: string
  w_clock :: "nat \<Rightarrow> int64"
  w_ticks :: nat
  w_env :: "nat \<Rightarrow> 'st \<Rightarrow> 'st"
  w_calls :: nat

record Live =
  l_KeyID :: string
  l_SessionID :: string
  l_OwnerID :: int64
  l_Cookies :: "(string, string) gomap"
  l_Labels :: "string list"
  l_shas :: "(string, string) gomap"
  l_newKey :: string
  l_rewrite :: bool
  l_rotateDue :: bool

record CookieMut =
  cmu_Name :: string
  cmu_Value :: string
  cmu_Delete :: bool

text \<open>One store call: the other requests' calls that precede it take effect, then the call itself.\<close>

definition onStore :: "('st, 'a) op \<Rightarrow> 'st world \<Rightarrow> 'st world \<times> (error + 'a)" where
  "onStore f w =
     (case f (w_env w (w_calls w) (w_store w)) of
        (st, r) \<Rightarrow> (w\<lparr>w_store := st, w_calls := Suc (w_calls w)\<rparr>, r))"

text \<open>\<open>clock.Now().Unix()\<close>.\<close>

definition clockNow :: "'st world \<Rightarrow> 'st world \<times> int64" where
  "clockNow w = (w\<lparr>w_ticks := Suc (w_ticks w)\<rparr>, w_clock w (w_ticks w))"

definition quiet :: "'st world \<Rightarrow> bool" where
  "quiet w \<longleftrightarrow> w_env w = (\<lambda>_ st. st)"

section \<open>Time\<close>

definition expired :: "Session \<Rightarrow> int64 \<Rightarrow> bool" where
  "expired s now \<longleftrightarrow> s_InactiveTimeout s \<le> i64 (now - s_LastAccess s)
     \<or> i64 (s_Creation s + s_FinalTimeout s) \<le> now"

definition ttl_of :: "Session \<Rightarrow> int64 \<Rightarrow> duration" where
  "ttl_of s now =
     (let inactive = i64 (s_InactiveTimeout s * Second);
          remainingFinal = i64 (i64 (i64 (s_Creation s + s_FinalTimeout s) - now) * Second)
      in if remainingFinal < inactive then remainingFinal else inactive)"

section \<open>Identifiers\<close>

text \<open>\<open>io.ReadFull\<close> of 32 bytes: a short read consumes what is left and fails.\<close>

definition newID :: "'st world \<Rightarrow> 'st world \<times> (error + string)" where
  "newID w =
     (if length (w_rng w) < 32 then (w\<lparr>w_rng := []\<rparr>, Inl ErrRandom)
      else (w\<lparr>w_rng := drop 32 (w_rng w)\<rparr>, Inr (RawURLEncode (take 32 (w_rng w)))))"

section \<open>Begin and Resolve\<close>

definition Begin :: "'st Manager \<Rightarrow> 'st world \<Rightarrow> 'st world \<times> (error + Live)" where
  "Begin M w0 =
     (let (w, now) = clockNow w0
      in andThen (newID w) (\<lambda>w sid.
         andThen (newID w) (\<lambda>w key.
           let sess = \<lparr>s_ID = sid, s_Creation = now, s_LastAccess = now,
                 s_InactiveTimeout = seconds_of (Inactive (m_cfg M)), s_FinalTimeout = seconds_of (Final (m_cfg M)),
                 s_OwnerID = 0, s_LastRotation = now, s_Labels = []\<rparr>;
               ttl = ttl_of sess now
           in andThen (onStore (PutSession (m_store M) sess ttl) w) (\<lambda>w _.
              andThen (onStore (PutKey (m_store M) key sid ttl) w) (\<lambda>w _.
                (w, Inr \<lparr>l_KeyID = key, l_SessionID = sid, l_OwnerID = 0, l_Cookies = [], l_Labels = [],
                         l_shas = [], l_newKey = key, l_rewrite = True, l_rotateDue = False\<rparr>))))))"

text \<open>The part of \<open>Resolve\<close> after the timeout check: the window slides and the handle is built.\<close>

definition resolve_live :: "'st Manager \<Rightarrow> string \<Rightarrow> string \<Rightarrow> Session \<Rightarrow> int64 \<Rightarrow> 'st world \<Rightarrow> 'st world \<times> (error + Live option)" where
  "resolve_live M keyID sid sess now w =
     (let interval = 0 < RotateInterval (m_cfg M);
          due = (interval \<and> s_LastRotation sess \<noteq> 0
                 \<and> seconds_of (RotateInterval (m_cfg M)) \<le> i64 (now - s_LastRotation sess));
          sess1 = (if interval \<and> s_LastRotation sess = 0 then sess\<lparr>s_LastRotation := now\<rparr> else sess);
          sess2 = sess1\<lparr>s_LastAccess := now\<rparr>;
          ttl = ttl_of sess2 now
      in andThen (onStore (TouchSession (m_store M) sid keyID (s_LastAccess sess2) (s_LastRotation sess2) ttl) w) (\<lambda>w _.
         andThen (onStore (GetCookies (m_store M) sid) w) (\<lambda>w cookies.
         andThen (onStore (CookieSHAs (m_store M) sid) w) (\<lambda>w shas.
           (w, Inr (Some \<lparr>l_KeyID = keyID, l_SessionID = sid, l_OwnerID = s_OwnerID sess2, l_Cookies = cookies,
                 l_Labels = Fields (s_Labels sess2), l_shas = shas, l_newKey = [], l_rewrite = False,
                 l_rotateDue = due\<rparr>))))))"

definition Resolve :: "'st Manager \<Rightarrow> string \<Rightarrow> 'st world \<Rightarrow> 'st world \<times> (error + Live option)" where
  "Resolve M keyID w0 =
     (case onStore (GetKey (m_store M) keyID) w0 of
        (w, Inl e) \<Rightarrow> (w, if e = ErrNotFound then Inr None else Inl e)
      | (w, Inr sid) \<Rightarrow>
          (case onStore (GetSession (m_store M) sid) w of
             (w, Inl e) \<Rightarrow> (w, if e = ErrNotFound then Inr None else Inl e)
           | (w, Inr sess) \<Rightarrow>
               (let (w, now) = clockNow w
                in if expired sess now
                   then (fst (onStore (DeleteSession (m_store M) sid) w), Inr None)
                   else resolve_live M keyID sid sess now w)))"

section \<open>Labels\<close>

fun dedupe :: "string list \<Rightarrow> string list \<Rightarrow> string list" where
  "dedupe seen [] = []"
| "dedupe seen (l # ls) =
     (let l = TrimSpace l
      in if l = [] \<or> l \<in> set seen then dedupe seen ls else l # dedupe (l # seen) ls)"

definition normalizeLabels :: "string list \<Rightarrow> string" where
  "normalizeLabels labels = Join (sort (dedupe [] labels)) '' ''"

definition HasLabel :: "Live \<Rightarrow> string \<Rightarrow> bool" where
  "HasLabel l label \<longleftrightarrow> label \<in> set (l_Labels l)"

section \<open>Operations on a handle\<close>

type_synonym ('st, 'a) lop = "'st world \<times> Live \<Rightarrow> ('st world \<times> Live) \<times> (error + 'a)"

definition to_mutation :: "CookieMut \<Rightarrow> CookieMutation" where
  "to_mutation c = \<lparr>cm_Name = cmu_Name c, cm_Value = cmu_Value c,
     cm_SHA = (if cmu_Delete c then [] else RawURLEncode (Sum256 (cmu_Value c))), cm_Delete = cmu_Delete c\<rparr>"

text \<open>The decisions of \<open>applyControls\<close> before a key is drawn.\<close>

definition controls0 :: "Config \<Rightarrow> Live \<Rightarrow> Session \<Rightarrow> int64 option \<Rightarrow> string list option \<Rightarrow> bool \<Rightarrow> bool \<Rightarrow> CookieMut list
    \<Rightarrow> int64 \<Rightarrow> SessionControls" where
  "controls0 cfg l sess ownerID labels forceRotate checkPeriodic cookies now =
     (let ownerChanged = (case ownerID of None \<Rightarrow> False | Some i \<Rightarrow> i \<noteq> s_OwnerID sess);
          normalized = (case labels of None \<Rightarrow> [] | Some ls \<Rightarrow> normalizeLabels ls);
          labelsChanged = (labels \<noteq> None \<and> normalized \<noteq> s_Labels sess);
          due = (checkPeriodic \<and> 0 < RotateInterval cfg
                 \<and> seconds_of (RotateInterval cfg) \<le> i64 (now - s_LastRotation sess))
      in \<lparr>c_SetOwner = ownerChanged, c_OwnerID = (case ownerID of None \<Rightarrow> 0 | Some i \<Rightarrow> i),
          c_SetLabels = labelsChanged, c_Labels = normalized,
          c_LastAccess = 0, c_LastRotation = 0, c_OldKeyID = l_KeyID l, c_NewKeyID = [],
          c_Rotate = (\<not> l_rewrite l \<and> (forceRotate \<or> due \<or> labelsChanged \<or> (ownerChanged \<and> RotateOnLogin cfg))),
          c_Cookies = map to_mutation cookies\<rparr>)"

definition idle :: "SessionControls \<Rightarrow> bool" where
  "idle c \<longleftrightarrow> \<not> c_SetOwner c \<and> \<not> c_SetLabels c \<and> \<not> c_Rotate c \<and> c_Cookies c = []"

text \<open>The controls handed to the store, once the new key (or the kept one) is known.\<close>

definition controls1 :: "SessionControls \<Rightarrow> int64 \<Rightarrow> string \<Rightarrow> SessionControls" where
  "controls1 c now key = c\<lparr>
     c_LastAccess := (if c_SetOwner c \<or> c_SetLabels c \<or> c_Cookies c \<noteq> [] then now else c_LastAccess c),
     c_LastRotation := (if c_Rotate c then now else c_LastRotation c), c_NewKeyID := key\<rparr>"

text \<open>The in-request handle after a successful call.\<close>

definition settle :: "int64 option \<Rightarrow> string list option \<Rightarrow> Live \<Rightarrow> Live" where
  "settle ownerID labels l =
     l\<lparr>l_OwnerID := (case ownerID of None \<Rightarrow> l_OwnerID l | Some i \<Rightarrow> i),
       l_Labels := (case labels of None \<Rightarrow> l_Labels l | Some ls \<Rightarrow> Fields (normalizeLabels ls))\<rparr>"

definition cache_cookie :: "CookieMutation \<Rightarrow> Live \<Rightarrow> Live" where
  "cache_cookie c l =
     (if cm_Delete c
      then l\<lparr>l_Cookies := mdel (cm_Name c) (l_Cookies l), l_shas := mdel (cm_Name c) (l_shas l)\<rparr>
      else l\<lparr>l_Cookies := mput (cm_Name c) (cm_Value c) (l_Cookies l),
             l_shas := mput (cm_Name c) (cm_SHA c) (l_shas l)\<rparr>)"

definition take_key :: "SessionControls \<Rightarrow> Live \<Rightarrow> Live" where
  "take_key c l = (if c_Rotate c then l\<lparr>l_KeyID := c_NewKeyID c, l_newKey := c_NewKeyID c, l_rewrite := True\<rparr> else l)"

text \<open>The second half of \<open>applyControls\<close>: draw the key, issue the one store transition, update the
  handle.\<close>

definition commitControls :: "'st Manager \<Rightarrow> int64 option \<Rightarrow> string list option \<Rightarrow> Session \<Rightarrow> SessionControls \<Rightarrow> int64 \<Rightarrow> ('st, unit) lop" where
  "commitControls M ownerID labels sess c now = (\<lambda>(w, l).
     case (if c_Rotate c then newID w else (w, Inr (l_KeyID l))) of
       (w, Inl e) \<Rightarrow> ((w, l), Inl e)
     | (w, Inr key) \<Rightarrow>
         let c' = controls1 c now key;
             sess' = sess\<lparr>s_LastAccess := max (s_LastAccess sess) (c_LastAccess c')\<rparr>
         in case onStore (ApplySessionControls (m_store M) (l_SessionID l) c' (ttl_of sess' now)
                   (i64 (s_FinalTimeout sess * Second))) w of
              (w, Inl e) \<Rightarrow> ((w, l), Inl e)
            | (w, Inr _) \<Rightarrow>
                ((w, take_key c' (fold cache_cookie (c_Cookies c') (settle ownerID labels l))), Inr ()))"

definition applyControls :: "'st Manager \<Rightarrow> int64 option \<Rightarrow> string list option \<Rightarrow> bool \<Rightarrow> bool \<Rightarrow> CookieMut list \<Rightarrow> ('st, unit) lop" where
  "applyControls M ownerID labels forceRotate checkPeriodic cookies = (\<lambda>(w0, l).
     let (w, now) = clockNow w0
     in case onStore (GetSession (m_store M) (l_SessionID l)) w of
          (w, Inl e) \<Rightarrow> ((w, l), Inl e)
        | (w, Inr sess) \<Rightarrow>
            let c = controls0 (m_cfg M) l sess ownerID labels forceRotate checkPeriodic cookies now
            in if idle c then ((w, settle ownerID labels l), Inr ())
               else commitControls M ownerID labels sess c now (w, l))"

definition SetLabels :: "'st Manager \<Rightarrow> string list \<Rightarrow> ('st, bool) lop" where
  "SetLabels M labels = (\<lambda>(w, l).
     case onStore (GetSession (m_store M) (l_SessionID l)) w of
       (w, Inl e) \<Rightarrow> ((w, l), Inl e)
     | (w, Inr sess) \<Rightarrow>
         andThen (applyControls M None (Some labels) False False [] (w, l)) (\<lambda>wl _.
           (wl, Inr (normalizeLabels labels \<noteq> s_Labels sess))))"

definition ApplyResponseControls :: "'st Manager \<Rightarrow> int64 option \<Rightarrow> string list option \<Rightarrow> bool \<Rightarrow> ('st, unit) lop" where
  "ApplyResponseControls M ownerID labels forceRotate = applyControls M ownerID labels forceRotate True []"

definition ApplyResponse :: "'st Manager \<Rightarrow> int64 option \<Rightarrow> string list option \<Rightarrow> bool \<Rightarrow> CookieMut list \<Rightarrow> ('st, unit) lop" where
  "ApplyResponse M ownerID labels forceRotate cookies = applyControls M ownerID labels forceRotate True cookies"

definition NewProxyCookie :: "Live \<Rightarrow> string option" where
  "NewProxyCookie l = (if l_rewrite l then Some (l_newKey l) else None)"

definition live_StoreCookie :: "'st Manager \<Rightarrow> string \<Rightarrow> string \<Rightarrow> ('st, unit) lop" where
  "live_StoreCookie M name val =
     applyControls M None None False False [\<lparr>cmu_Name = name, cmu_Value = val, cmu_Delete = False\<rparr>]"

definition live_DeleteCookie :: "'st Manager \<Rightarrow> string \<Rightarrow> ('st, unit) lop" where
  "live_DeleteCookie M name =
     applyControls M None None False False [\<lparr>cmu_Name = name, cmu_Value = [], cmu_Delete = True\<rparr>]"

text \<open>A pending unsent key is set aside so that the owner transition rotates, and restored on failure.\<close>

definition BindOwner :: "'st Manager \<Rightarrow> int64 \<Rightarrow> ('st, bool) lop" where
  "BindOwner M ownerID = (\<lambda>(w, l).
     if ownerID \<le> 0 then ((w, l), Inr False)
     else case onStore (GetSession (m_store M) (l_SessionID l)) w of
       (w, Inl e) \<Rightarrow> ((w, l), Inl e)
     | (w, Inr sess) \<Rightarrow>
         let changed = (ownerID \<noteq> s_OwnerID sess);
             l0 = (if changed \<and> RotateOnLogin (m_cfg M) \<and> l_rewrite l then l\<lparr>l_rewrite := False, l_newKey := []\<rparr> else l)
         in case applyControls M (Some ownerID) None False False [] (w, l0) of
              ((w, l1), Inl e) \<Rightarrow> ((w, l1\<lparr>l_rewrite := l_rewrite l, l_newKey := l_newKey l\<rparr>), Inl e)
            | (wl, Inr _) \<Rightarrow> (wl, Inr (changed \<and> RotateOnLogin (m_cfg M))))"

section \<open>Rotation\<close>

definition rotateKey :: "'st Manager \<Rightarrow> duration \<Rightarrow> int64 \<Rightarrow> ('st, unit) lop" where
  "rotateKey M ttl lastRotation = (\<lambda>(w, l).
     case newID w of
       (w, Inl e) \<Rightarrow> ((w, l), Inl e)
     | (w, Inr newKey) \<Rightarrow>
         (case onStore (RotateSessionKey (m_store M) (l_SessionID l) (l_KeyID l) newKey lastRotation ttl) w of
            (w, Inl e) \<Rightarrow> ((w, l), Inl e)
          | (w, Inr _) \<Rightarrow> ((w, l\<lparr>l_KeyID := newKey, l_newKey := newKey, l_rewrite := True\<rparr>), Inr ())))"

definition MaybeRotate :: "'st Manager \<Rightarrow> ('st, unit) lop" where
  "MaybeRotate M = (\<lambda>(w0, l).
     if \<not> l_rotateDue l \<or> l_rewrite l then ((w0, l), Inr ())
     else let (w, now) = clockNow w0
       in case onStore (GetSession (m_store M) (l_SessionID l)) w of
            (w, Inl e) \<Rightarrow> ((w, l), Inl e)
          | (w, Inr sess) \<Rightarrow>
              if i64 (now - s_LastRotation sess) < seconds_of (RotateInterval (m_cfg M)) then ((w, l), Inr ())
              else rotateKey M (ttl_of sess now) now (w, l))"

definition ForceRotate :: "'st Manager \<Rightarrow> ('st, unit) lop" where
  "ForceRotate M = (\<lambda>(w0, l).
     if l_rewrite l then ((w0, l), Inr ())
     else let (w, now) = clockNow w0
       in case onStore (GetSession (m_store M) (l_SessionID l)) w of
            (w, Inl e) \<Rightarrow> ((w, l), Inl e)
          | (w, Inr sess) \<Rightarrow> rotateKey M (ttl_of sess now) now (w, l))"

section \<open>Revocation and locking\<close>

definition Revoke :: "'st Manager \<Rightarrow> ('st, unit) lop" where
  "Revoke M = (\<lambda>(w, l).
     case onStore (DeleteSession (m_store M) (l_SessionID l)) w of
       (w, Inl e) \<Rightarrow> ((w, l), Inl e)
     | (w, Inr _) \<Rightarrow>
         ((w, l\<lparr>l_KeyID := [], l_newKey := [], l_rewrite := False, l_Cookies := [], l_shas := []\<rparr>), Inr ()))"

fun revoke_loop :: "'st StoreI \<Rightarrow> int64 \<Rightarrow> string list \<Rightarrow> error option \<Rightarrow> 'st world \<Rightarrow> 'st world \<times> error option" where
  "revoke_loop I ownerID [] firstErr w = (w, firstErr)"
| "revoke_loop I ownerID (sid # sids) firstErr w =
     (case onStore (DeleteSessionByOwner I ownerID sid) w of
        (w', Inl e) \<Rightarrow> revoke_loop I ownerID sids (if firstErr = None then Some e else firstErr) w'
      | (w', Inr _) \<Rightarrow> revoke_loop I ownerID sids firstErr w')"

definition RevokeOwner :: "'st Manager \<Rightarrow> int64 \<Rightarrow> 'st world \<Rightarrow> 'st world \<times> (error + unit)" where
  "RevokeOwner M ownerID w =
     andThen (onStore (OwnerSessions (m_store M) ownerID) w) (\<lambda>w sids.
       case revoke_loop (m_store M) ownerID sids None w of
         (w, None) \<Rightarrow> (w, Inr ())
       | (w, Some e) \<Rightarrow> (w, Inl e))"

text \<open>The guarded function runs on the world and whatever state its closure holds.\<close>

definition WithLock :: "'st Manager \<Rightarrow> string \<Rightarrow> ('st world \<times> 'x \<Rightarrow> ('st world \<times> 'x) \<times> (error + unit))
    \<Rightarrow> 'st world \<times> 'x \<Rightarrow> ('st world \<times> 'x) \<times> (error + unit)" where
  "WithLock M sid fn = (\<lambda>(w, x).
     if \<not> Synchronize (m_cfg M) then fn (w, x)
     else case onStore (Lock (m_store M) sid (5 * Second)) w of
       (w, Inl e) \<Rightarrow> ((w, x), Inl e)
     | (w, Inr None) \<Rightarrow> ((w, x), Inl ErrLockContended)
     | (w, Inr (Some unlock)) \<Rightarrow>
         (case fn (w, x) of ((w, x), r) \<Rightarrow> ((fst (onStore unlock w), x), r)))"

lemmas manager_definitions [manager_defs] =
  onStore_def clockNow_def newID_def Begin_def resolve_live_def Resolve_def commitControls_def applyControls_def
  SetLabels_def ApplyResponseControls_def ApplyResponse_def live_StoreCookie_def live_DeleteCookie_def
  BindOwner_def rotateKey_def MaybeRotate_def ForceRotate_def Revoke_def RevokeOwner_def WithLock_def

end
