(* ===== verification/Go_Http.thy ===== *)
theory Go_Http
  imports Go_Strings
begin

text \<open>
  The parts of \<open>net/http\<close> the handler relies on: header maps with canonical keys, parsing of
  \<open>Cookie\<close> and \<open>Set-Cookie\<close> lines, and printing of cookies. Dates in \<open>Expires\<close> are read by
  \<open>time.Parse\<close>, which consults the local time-zone database; its result, in seconds since 1970,
  is a parameter.
\<close>

section \<open>Tokens and canonical keys\<close>

definition token_byte :: "char \<Rightarrow> bool" where
  "token_byte c \<longleftrightarrow> (let n = ord c in
     (48 \<le> n \<and> n \<le> 57) \<or> (65 \<le> n \<and> n \<le> 90) \<or> (97 \<le> n \<and> n \<le> 122)
     \<or> n \<in> {33, 35, 36, 37, 38, 39, 42, 43, 45, 46, 94, 95, 96, 124, 126})"

definition isToken :: "string \<Rightarrow> bool" where
  "isToken s \<longleftrightarrow> s \<noteq> [] \<and> list_all token_byte s"

definition upper_byte :: "char \<Rightarrow> char" where
  "upper_byte c = (if 97 \<le> ord c \<and> ord c \<le> 122 then char_of (ord c - 32) else c)"

definition lower_byte :: "char \<Rightarrow> char" where
  "lower_byte c = (if 65 \<le> ord c \<and> ord c \<le> 90 then char_of (ord c + 32) else c)"

text \<open>\<open>CanonicalHeaderKey\<close>: words separated by \<open>-\<close> get a capital; a key with a byte that no header
  name may contain is left alone.\<close>

fun canon_words :: "bool \<Rightarrow> string \<Rightarrow> string" where
  "canon_words up [] = []"
| "canon_words up (c # s) =
     (let d = (if up then upper_byte c else lower_byte c) in d # canon_words (d = CHR ''-'') s)"

definition CanonicalHeaderKey :: "string \<Rightarrow> string" where
  "CanonicalHeaderKey s = (if list_all token_byte s then canon_words True s else s)"

section \<open>Header maps\<close>

type_synonym Header = "(string, string list) gomap"

definition hValues :: "Header \<Rightarrow> string \<Rightarrow> string list" where
  "hValues h k = (case mget h (CanonicalHeaderKey k) of None \<Rightarrow> [] | Some vs \<Rightarrow> vs)"

definition hGet :: "Header \<Rightarrow> string \<Rightarrow> string" where
  "hGet h k = (case hValues h k of [] \<Rightarrow> [] | v # _ \<Rightarrow> v)"

definition hSet :: "string \<Rightarrow> string \<Rightarrow> Header \<Rightarrow> Header" where
  "hSet k v h = mput (CanonicalHeaderKey k) [v] h"

definition hAdd :: "string \<Rightarrow> string \<Rightarrow> Header \<Rightarrow> Header" where
  "hAdd k v h = mput (CanonicalHeaderKey k) (hValues h k @ [v]) h"

definition hDel :: "string \<Rightarrow> Header \<Rightarrow> Header" where
  "hDel k h = mdel (CanonicalHeaderKey k) h"

section \<open>Cookies\<close>

text \<open>\<open>textproto.TrimString\<close>.\<close>

definition ascii_space :: "char \<Rightarrow> bool" where
  "ascii_space c \<longleftrightarrow> ord c \<in> {32, 9, 10, 13}"

definition TrimString :: "string \<Rightarrow> string" where
  "TrimString s = rev (dropWhile ascii_space (rev (dropWhile ascii_space s)))"

definition value_byte :: "char \<Rightarrow> bool" where
  "value_byte c \<longleftrightarrow> 32 \<le> ord c \<and> ord c < 127 \<and> c \<noteq> CHR 0x22 \<and> c \<noteq> CHR '';'' \<and> c \<noteq> CHR 0x5C"

text \<open>\<open>parseCookieValue\<close>: surrounding quotes are dropped when allowed, and every byte is checked.\<close>

definition parseCookieValue :: "string \<Rightarrow> bool \<Rightarrow> string option" where
  "parseCookieValue raw allowQuote =
     (let raw = (if allowQuote \<and> 1 < length raw \<and> hd raw = CHR 0x22 \<and> last raw = CHR 0x22 then butlast (tl raw) else raw)
      in if list_all value_byte raw then Some raw else None)"

text \<open>One part of a \<open>Cookie\<close> line, and \<open>readCookies\<close> with its limit on the number of parts.\<close>

definition cookie_part :: "string \<Rightarrow> (string \<times> string) option" where
  "cookie_part part =
     (let part = TrimString part; (name, val, _) = Cut part (CHR ''=''); name = TrimString name
      in if part = [] \<or> \<not> isToken name then None
         else map_option (\<lambda>v. (name, v)) (parseCookieValue val True))"

definition readCookies :: "Header \<Rightarrow> (string \<times> string) list" where
  "readCookies h =
     (let ls = (case mget h ''Cookie'' of None \<Rightarrow> [] | Some ls \<Rightarrow> ls)
      in if 3000 < sum_list (map (\<lambda>l. int (length (Split l (CHR '';'')))) ls) then []
         else concat (map (\<lambda>l. List.map_filter cookie_part (Split (TrimString l) (CHR '';''))) ls))"

text \<open>\<open>Request.Cookie\<close>: the first cookie of that name.\<close>

definition requestCookie :: "string \<Rightarrow> Header \<Rightarrow> string option" where
  "requestCookie name h = (if name = [] then None else mget (readCookies h) name)"

text \<open>\<open>ParseSetCookie\<close>, as far as the handler looks at its result: name, value, and the expiry of the
  last \<open>Expires\<close> attribute. The zero time stands for a missing or unreadable date.\<close>

record Cookie =
  ck_Name :: string
  ck_Value :: string
  ck_Expires :: int64

definition zero_time :: int64 where
  "zero_time = - 62135596800"

definition expires_attr :: "(string \<Rightarrow> int64 option) \<Rightarrow> string \<Rightarrow> int64 \<Rightarrow> int64" where
  "expires_attr parseTime part e =
     (let (attr, val, _) = Cut (TrimString part) (CHR ''='')
      in if map lower_byte attr \<noteq> ''expires'' then e
         else case parseCookieValue val False of None \<Rightarrow> e
              | Some v \<Rightarrow> (case parseTime v of None \<Rightarrow> zero_time | Some t \<Rightarrow> t))"

definition ParseSetCookie :: "(string \<Rightarrow> int64 option) \<Rightarrow> string \<Rightarrow> Cookie option" where
  "ParseSetCookie parseTime line =
     (let parts = Split (TrimString line) (CHR '';'');
          (name, val, found) = Cut (TrimString (hd parts)) (CHR ''='');
          name = TrimString name
      in if \<not> found \<or> \<not> isToken name then None
         else case parseCookieValue val True of
           None \<Rightarrow> None
         | Some v \<Rightarrow> Some \<lparr>ck_Name = name, ck_Value = v, ck_Expires = fold (expires_attr parseTime) (tl parts) zero_time\<rparr>)"

text \<open>\<open>Cookie.String\<close> for the attributes the handler sets.\<close>

datatype SameSite = SameSiteLaxMode | SameSiteStrictMode | SameSiteNoneMode

definition sanitizeCookieValue :: "string \<Rightarrow> string" where
  "sanitizeCookieValue v =
     (let v = filter value_byte v
      in if v \<noteq> [] \<and> (CHR '' '' \<in> set v \<or> CHR '','' \<in> set v) then [CHR 0x22] @ v @ [CHR 0x22] else v)"

definition sanitizeCookiePath :: "string \<Rightarrow> string" where
  "sanitizeCookiePath p = filter (\<lambda>c. 32 \<le> ord c \<and> ord c < 127 \<and> c \<noteq> CHR '';'') p"

fun same_site :: "SameSite \<Rightarrow> string" where
  "same_site SameSiteLaxMode = ''; SameSite=Lax''"
| "same_site SameSiteStrictMode = ''; SameSite=Strict''"
| "same_site SameSiteNoneMode = ''; SameSite=None''"

definition cookieString :: "string \<Rightarrow> string \<Rightarrow> string \<Rightarrow> string \<Rightarrow> bool \<Rightarrow> bool \<Rightarrow> SameSite \<Rightarrow> string" where
  "cookieString name val path expiry httpOnly secure site =
     (if \<not> isToken name then []
      else name @ ''='' @ sanitizeCookieValue val
        @ (if path = [] then [] else ''; Path='' @ sanitizeCookiePath path)
        @ expiry
        @ (if httpOnly then ''; HttpOnly'' else [])
        @ (if secure then ''; Secure'' else [])
        @ same_site site)"

section \<open>Lemmas\<close>

lemma ord_case_bytes:
  "ord (upper_byte c) = (if 97 \<le> ord c \<and> ord c \<le> 122 then ord c - 32 else ord c)"
  "ord (lower_byte c) = (if 65 \<le> ord c \<and> ord c \<le> 90 then ord c + 32 else ord c)"
  by (simp_all add: upper_byte_def lower_byte_def ord_char_of)

lemma token_case_bytes: "token_byte (upper_byte c) = token_byte c" "token_byte (lower_byte c) = token_byte c"
  by (auto simp: token_byte_def ord_case_bytes)

lemma case_bytes_idem: "upper_byte (upper_byte c) = upper_byte c" "lower_byte (lower_byte c) = lower_byte c"
  by (simp_all add: ord_inj [symmetric] ord_case_bytes)

lemma case_bytes_dash: "upper_byte c = CHR ''-'' \<longleftrightarrow> c = CHR ''-''" "lower_byte c = CHR ''-'' \<longleftrightarrow> c = CHR ''-''"
proof -
  have "ord (CHR ''-'') = 45" by (simp add: ord_def)
  then show "upper_byte c = CHR ''-'' \<longleftrightarrow> c = CHR ''-''" "lower_byte c = CHR ''-'' \<longleftrightarrow> c = CHR ''-''"
    unfolding ord_inj [symmetric] ord_case_bytes by auto
qed

lemma canon_words_idem: "canon_words up (canon_words up s) = canon_words up s"
  by (induction s arbitrary: up) (simp_all add: Let_def case_bytes_idem case_bytes_dash)

lemma canon_words_token: "list_all token_byte (canon_words up s) = list_all token_byte s"
  by (induction s arbitrary: up) (simp_all add: Let_def token_case_bytes)

lemma Canonical_idem [simp]: "CanonicalHeaderKey (CanonicalHeaderKey s) = CanonicalHeaderKey s"
  by (simp add: CanonicalHeaderKey_def canon_words_idem canon_words_token)

lemma length_canon [simp]: "length (CanonicalHeaderKey s) = length s"
proof -
  have "length (canon_words up s) = length s" for up by (induction up s rule: canon_words.induct) (auto simp: Let_def)
  then show ?thesis by (simp add: CanonicalHeaderKey_def)
qed

lemma hValues_hDel: "hValues (hDel k h) k' = (if CanonicalHeaderKey k' = CanonicalHeaderKey k then [] else hValues h k')"
  by (simp add: hValues_def hDel_def gomap_simps)

lemma hValues_hSet: "hValues (hSet k v h) k' = (if CanonicalHeaderKey k' = CanonicalHeaderKey k then [v] else hValues h k')"
  by (simp add: hValues_def hSet_def gomap_simps)

lemma hValues_hAdd: "hValues (hAdd k v h) k' = (if CanonicalHeaderKey k' = CanonicalHeaderKey k then hValues h k @ [v] else hValues h k')"
  by (simp add: hValues_def hAdd_def gomap_simps)

lemmas header_simps = hValues_hDel hValues_hSet hValues_hAdd

end
