(* ===== verification/Response_Staging.thy ===== *)
theory Response_Staging
  imports Gosestor_Prelude
begin

text \<open>
  Staging of response bodies (\<open>session_store.go\<close>, \<open>stagedResponseBudget\<close> and \<open>stagedBody\<close>): a body is kept
  in memory up to 1 MiB and then in a temporary file, at most 64 MiB each and 256 MiB over all responses.
  The operating system is an oracle: each call on a file or on the client connection works, or fails
  after some number of bytes. Byte counts are kept as \<open>int\<close>; the bounds proved here keep them far
  inside \<open>int64\<close>.
\<close>

section \<open>Limits, errors, environment\<close>

definition stagedResponseMemoryLimit :: int where "stagedResponseMemoryLimit = 1048576"
definition stagedResponseMaxBytes :: int where "stagedResponseMaxBytes = 67108864"
definition stagedResponseAggregateBytes :: int where "stagedResponseAggregateBytes = 268435456"
definition stagedResponseMaxInformational :: nat where "stagedResponseMaxInformational = 16"
definition stagedResponseMaxMetadataBytes :: int where "stagedResponseMaxMetadataBytes = 1048576"

lemmas staging_limits = stagedResponseMemoryLimit_def stagedResponseMaxBytes_def stagedResponseAggregateBytes_def
  stagedResponseMaxInformational_def stagedResponseMaxMetadataBytes_def

datatype stage_error =
    StagedResponseTooLarge
  | StagedResponseBudgetExhausted
  | HijackWithStagedBody
  | TooManyInformationalResponses
  | StagedMetadataTooLarge
  | BodyNotAllowed
  | NotSupported
  | ShortWrite
  | UnexpectedEOF
  | OSError

record stage_env =
  e_limit :: int
  e_used :: int
  e_os :: "nat \<Rightarrow> nat option"
  e_calls :: nat

record stagedBody =
  b_memory :: string
  b_file :: "string option"
  b_size :: int
  b_reserved :: int
  b_unlinked :: bool
  b_validated :: bool

definition new_body :: stagedBody where
  "new_body = \<lparr>b_memory = [], b_file = None, b_size = 0, b_reserved = 0, b_unlinked = False, b_validated = False\<rparr>"

text \<open>One call of the operating system: \<open>None\<close> when it works, \<open>Some k\<close> when it fails after \<open>k\<close> bytes.\<close>

definition os_call :: "stage_env \<Rightarrow> stage_env \<times> nat option" where
  "os_call e = (e\<lparr>e_calls := Suc (e_calls e)\<rparr>, e_os e (e_calls e))"

section \<open>The aggregate budget\<close>

definition reserve :: "int \<Rightarrow> stage_env \<Rightarrow> stage_env \<times> bool" where
  "reserve n e = (if e_limit e - e_used e < n then (e, False) else (e\<lparr>e_used := e_used e + n\<rparr>, True))"

definition release :: "int \<Rightarrow> stage_env \<Rightarrow> stage_env" where
  "release n e = e\<lparr>e_used := e_used e - n\<rparr>"

definition releaseReserved :: "int \<Rightarrow> stage_env \<times> stagedBody \<Rightarrow> stage_env \<times> stagedBody" where
  "releaseReserved n = (\<lambda>(e, b). if n = 0 then (e, b) else (release n e, b\<lparr>b_reserved := b_reserved b - n\<rparr>))"

section \<open>Body operations\<close>

text \<open>\<open>Close\<close> and \<open>Reset\<close> drop the content, close and remove the file, and give back what was reserved;
  \<open>Close\<close> also reports the first error.\<close>

definition body_Close :: "stage_env \<times> stagedBody \<Rightarrow> (stage_env \<times> stagedBody) \<times> stage_error option" where
  "body_Close = (\<lambda>(e, b).
     let b1 = b\<lparr>b_memory := [], b_size := 0, b_validated := False\<rparr>
     in case b_file b of
          None \<Rightarrow> (releaseReserved (b_reserved b1) (e, b1), None)
        | Some f \<Rightarrow>
            let (e1, r1) = os_call e;
                (e2, r2) = (if b_unlinked b then (e1, None) else os_call e1);
                err = (if r1 \<noteq> None \<or> r2 \<noteq> None then Some OSError else None);
                b2 = b1\<lparr>b_file := None, b_unlinked := False\<rparr>
            in (releaseReserved (b_reserved b2) (e2, b2), err))"

definition body_Reset :: "stage_env \<times> stagedBody \<Rightarrow> stage_env \<times> stagedBody" where
  "body_Reset = (\<lambda>(e, b).
     let b1 = b\<lparr>b_memory := [], b_size := 0, b_validated := False\<rparr>
     in case b_file b of
          None \<Rightarrow> releaseReserved (b_reserved b1) (e, b1)
        | Some f \<Rightarrow>
            let (e1, _) = os_call e;
                (e2, _) = (if b_unlinked b then (e1, None) else os_call e1);
                b2 = b1\<lparr>b_file := None, b_unlinked := False\<rparr>
            in releaseReserved (b_reserved b2) (e2, b2))"

text \<open>Appending to the spool file; a failing write keeps the bytes that got through.\<close>

definition append_file :: "string \<Rightarrow> string \<Rightarrow> stage_env \<times> stagedBody \<Rightarrow> (stage_env \<times> stagedBody) \<times> nat \<times> stage_error option" where
  "append_file f p = (\<lambda>(e, b).
     case os_call e of
       (e1, r) \<Rightarrow>
         let n = (case r of None \<Rightarrow> length p | Some k \<Rightarrow> min k (length p));
             b1 = b\<lparr>b_file := Some (f @ take n p), b_size := b_size b + int n\<rparr>
         in (releaseReserved (int (length p - n)) (e1, b1), n, if r = None then None else Some OSError))"

text \<open>Moving an in-memory body to a new temporary file, which is unlinked at once, and appending to it.\<close>

definition spool :: "string \<Rightarrow> stage_env \<times> stagedBody \<Rightarrow> (stage_env \<times> stagedBody) \<times> nat \<times> stage_error option" where
  "spool p = (\<lambda>(e, b).
     case os_call e of
       (e1, Some _) \<Rightarrow> (releaseReserved (int (length p)) (e1, b), 0, Some OSError)
     | (e1, None) \<Rightarrow>
         (case os_call e1 of (e2, removed) \<Rightarrow>
            let b1 = b\<lparr>b_file := Some [], b_unlinked := (removed = None)\<rparr>
            in case os_call e2 of
                 (e3, Some k) \<Rightarrow> (case body_Close (e3, b1) of (eb, _) \<Rightarrow> (eb, 0, Some OSError))
               | (e3, None) \<Rightarrow> append_file (b_memory b1) p (e3, b1\<lparr>b_memory := []\<rparr>)))"

definition body_Write :: "string \<Rightarrow> stage_env \<times> stagedBody \<Rightarrow> (stage_env \<times> stagedBody) \<times> nat \<times> stage_error option" where
  "body_Write p = (\<lambda>(e, b).
     if stagedResponseMaxBytes - b_size b < int (length p) then ((e, b), 0, Some StagedResponseTooLarge)
     else case reserve (int (length p)) e of
       (e0, False) \<Rightarrow> ((e0, b), 0, Some StagedResponseBudgetExhausted)
     | (e0, True) \<Rightarrow>
         let b0 = b\<lparr>b_reserved := b_reserved b + int (length p), b_validated := False\<rparr>
         in case b_file b0 of
              Some f \<Rightarrow> append_file f p (e0, b0)
            | None \<Rightarrow>
                if int (length (b_memory b0) + length p) \<le> stagedResponseMemoryLimit
                then ((e0, b0\<lparr>b_memory := b_memory b0 @ p, b_size := b_size b0 + int (length p)\<rparr>), length p, None)
                else spool p (e0, b0))"

text \<open>\<open>Validate\<close> rewinds the file, reads it through and compares its length.\<close>

definition body_Validate :: "stage_env \<times> stagedBody \<Rightarrow> (stage_env \<times> stagedBody) \<times> stage_error option" where
  "body_Validate = (\<lambda>(e, b).
     case b_file b of
       None \<Rightarrow> ((e, b), None)
     | Some f \<Rightarrow>
         if b_validated b then ((e, b), None)
         else case os_call e of
           (e1, Some _) \<Rightarrow> ((e1, b), Some OSError)
         | (e1, None) \<Rightarrow>
             (case os_call e1 of
                (e2, Some _) \<Rightarrow> ((e2, b), Some OSError)
              | (e2, None) \<Rightarrow>
                  if int (length f) \<noteq> b_size b then ((e2, b), Some UnexpectedEOF)
                  else case os_call e2 of
                    (e3, Some _) \<Rightarrow> ((e3, b), Some OSError)
                  | (e3, None) \<Rightarrow> ((e3, b\<lparr>b_validated := True\<rparr>), None)))"

text \<open>\<open>FlushTo\<close>: the bytes handed to the client connection and the error.\<close>

definition body_FlushTo :: "stage_env \<times> stagedBody \<Rightarrow> (stage_env \<times> stagedBody) \<times> string \<times> stage_error option" where
  "body_FlushTo = (\<lambda>(e, b).
     case b_file b of
       None \<Rightarrow>
         (case os_call e of
            (e1, None) \<Rightarrow> ((e1, b), b_memory b, None)
          | (e1, Some k) \<Rightarrow> ((e1, b), take k (b_memory b), Some OSError))
     | Some f \<Rightarrow>
         (case body_Validate (e, b) of
            (eb, Some err) \<Rightarrow> (eb, [], Some err)
          | ((e1, b1), None) \<Rightarrow>
              (case os_call e1 of
                 (e2, None) \<Rightarrow> ((e2, b1), f, None)
               | (e2, Some k) \<Rightarrow> ((e2, b1), take k f, Some OSError))))"

section \<open>Representation\<close>

definition content :: "stagedBody \<Rightarrow> string" where
  "content b = (case b_file b of None \<Rightarrow> b_memory b | Some f \<Rightarrow> f)"

definition body_ok :: "stagedBody \<Rightarrow> bool" where
  "body_ok b \<longleftrightarrow> b_size b = int (length (content b)) \<and> b_size b \<le> stagedResponseMaxBytes \<and>
     int (length (b_memory b)) \<le> stagedResponseMemoryLimit \<and> (b_file b \<noteq> None \<longrightarrow> b_memory b = []) \<and>
     b_size b \<le> b_reserved b"

text \<open>\<open>charges e b e' b'\<close>: the operation moved the aggregate count by exactly what it moved the body's share,
  and stayed within the limit.\<close>

definition charges :: "stage_env \<Rightarrow> stagedBody \<Rightarrow> stage_env \<Rightarrow> stagedBody \<Rightarrow> bool" where
  "charges e b e' b' \<longleftrightarrow> e_limit e' = e_limit e \<and> e_used e' - b_reserved b' = e_used e - b_reserved b \<and>
     (e_used e \<le> e_limit e \<longrightarrow> e_used e' \<le> e_limit e)"

lemma content_updates [simp]:
  "content (b\<lparr>b_reserved := x\<rparr>) = content b" "content (b\<lparr>b_validated := v\<rparr>) = content b"
  by (simp_all add: content_def split: option.splits)

lemma new_body_ok: "body_ok new_body"
  by (simp add: body_ok_def new_body_def content_def staging_limits)

lemma os_call_frame: "os_call e = (e', r) \<Longrightarrow> e_used e' = e_used e \<and> e_limit e' = e_limit e"
  by (auto simp: os_call_def)

lemma releaseReserved_eq: "releaseReserved n (e, b) = (e\<lparr>e_used := e_used e - n\<rparr>, b\<lparr>b_reserved := b_reserved b - n\<rparr>)"
  by (simp add: releaseReserved_def release_def)

lemma body_Close_spec:
  assumes "body_Close (e, b) = ((e', b'), err)"
  shows "body_ok b'" "b_reserved b' = 0" "content b' = []" "e_used e' = e_used e - b_reserved b" "e_limit e' = e_limit e"
  using assms
  by (auto simp: body_Close_def releaseReserved_eq Let_def os_call_def body_ok_def content_def staging_limits
      split: option.splits if_splits)

lemma body_Reset_spec:
  assumes "body_Reset (e, b) = (e', b')"
  shows "body_ok b'" "b_reserved b' = 0" "content b' = []" "e_used e' = e_used e - b_reserved b" "e_limit e' = e_limit e"
  using assms
  by (auto simp: body_Reset_def releaseReserved_eq Let_def os_call_def body_ok_def content_def staging_limits
      split: option.splits if_splits)

lemma append_file_spec:
  assumes "append_file f p (e, b) = ((e', b'), n, err)"
  shows "content b' = f @ take n p" "n \<le> length p" "err = None \<longrightarrow> n = length p" "b_memory b' = b_memory b"
    "b_size b' = b_size b + int n" "b_reserved b' = b_reserved b - int (length p - n)"
    "e_used e' = e_used e - int (length p - n)" "e_limit e' = e_limit e" "b_file b' \<noteq> None" "b_validated b' = b_validated b"
  using assms by (auto simp: append_file_def os_call_def releaseReserved_eq Let_def content_def split: option.splits)

lemma append_file_ok:
  assumes run: "append_file f p (e, b) = ((e', b'), n, err)"
    and b: "b_size b = int (length f)" "b_size b + int (length p) \<le> stagedResponseMaxBytes" "b_memory b = []"
      "b_size b + int (length p) \<le> b_reserved b"
  shows "body_ok b' \<and> (err = None \<longrightarrow> n = length p \<and> content b' = f @ p) \<and> content b' = f @ take n p \<and>
    e_limit e' = e_limit e \<and> e_used e' - b_reserved b' = e_used e - b_reserved b \<and> e_used e' \<le> e_used e"
proof -
  note a = append_file_spec [OF run]
  have "int (length p - n) = int (length p) - int n" using a(2) by simp
  moreover have "length (take n p) = n" using a(2) by simp
  ultimately have "body_ok b'" using a b unfolding body_ok_def by (simp add: stagedResponseMemoryLimit_def)
  then show ?thesis using a by auto
qed

lemma spool_spec:
  assumes run: "spool p (e, b) = ((e', b'), n, err)" and mem: "b_file b = None"
    and b: "b_size b = int (length (b_memory b))" "b_size b + int (length p) \<le> stagedResponseMaxBytes"
      "int (length (b_memory b)) \<le> stagedResponseMemoryLimit" "b_size b + int (length p) \<le> b_reserved b"
  shows "body_ok b' \<and> (err = None \<longrightarrow> n = length p \<and> content b' = b_memory b @ p) \<and>
    (content b' = b_memory b @ take n p \<or> content b' = []) \<and>
    e_limit e' = e_limit e \<and> e_used e' - b_reserved b' = e_used e - b_reserved b \<and> e_used e' \<le> e_used e"
proof -
  obtain e1 r1 where o1: "os_call e = (e1, r1)" by fastforce
  obtain e2 r2 where o2: "os_call e1 = (e2, r2)" by fastforce
  obtain e3 r3 where o3: "os_call e2 = (e3, r3)" by fastforce
  note fr = os_call_frame [OF o1] os_call_frame [OF o2] os_call_frame [OF o3]
  define b1 where "b1 = b\<lparr>b_file := Some [], b_unlinked := (r2 = None)\<rparr>"
  consider (no_file) k where "r1 = Some k" | (no_move) k where "r1 = None" "r3 = Some k" | (moved) "r1 = None" "r3 = None"
    by (cases r1; cases r3) auto
  then show ?thesis
  proof cases
    case no_file
    with run o1 have "(e', b') = releaseReserved (int (length p)) (e1, b)" "n = 0" "err \<noteq> None" by (auto simp: spool_def)
    with fr b mem show ?thesis by (auto simp: releaseReserved_eq body_ok_def content_def)
  next
    case no_move
    obtain eb x where cl: "body_Close (e3, b1) = (eb, x)" by fastforce
    have "(e', b') = eb" "n = 0" "err \<noteq> None"
      using run o1 o2 o3 no_move cl by (auto simp: spool_def b1_def [symmetric] Let_def)
    with body_Close_spec [of e3 b1 e' b'] cl fr b show ?thesis by (auto simp: b1_def)
  next
    case moved
    then have a: "append_file (b_memory b) p (e3, b1\<lparr>b_memory := []\<rparr>) = ((e', b'), n, err)"
      using run o1 o2 o3 by (simp add: spool_def b1_def Let_def)
    from append_file_ok [OF a] b fr show ?thesis by (auto simp: b1_def)
  qed
qed

lemma body_Write_spec:
  assumes ok: "body_ok b" and run: "body_Write p (e, b) = ((e', b'), n, err)"
  shows "body_ok b' \<and> charges e b e' b' \<and> (err = None \<longrightarrow> n = length p \<and> content b' = content b @ p) \<and>
    (content b' = content b @ take n p \<or> content b' = [])"
proof (cases "stagedResponseMaxBytes - b_size b < int (length p) \<or> e_limit e - e_used e < int (length p)")
  case True
  with run have "b' = b" "e' = e" "n = 0" "err \<noteq> None" by (auto simp: body_Write_def reserve_def split: if_splits)
  with ok show ?thesis by (auto simp: charges_def)
next
  case False
  define e0 where "e0 = e\<lparr>e_used := e_used e + int (length p)\<rparr>"
  define b0 where "b0 = b\<lparr>b_reserved := b_reserved b + int (length p), b_validated := False\<rparr>"
  have e0: "e_limit e0 = e_limit e" "e_used e0 = e_used e + int (length p)" "e_used e0 \<le> e_limit e" using False by (simp_all add: e0_def)
  have b0: "b_memory b0 = b_memory b" "b_file b0 = b_file b" "b_size b0 = b_size b" "b_reserved b0 = b_reserved b + int (length p)"
    by (simp_all add: b0_def)
  have res: "reserve (int (length p)) e = (e0, True)" using False by (simp add: reserve_def e0_def)
  have room: "b_size b0 + int (length p) \<le> stagedResponseMaxBytes" "b_size b0 + int (length p) \<le> b_reserved b0"
    using False ok b0 by (auto simp: body_ok_def)
  consider (spooled) f where "b_file b = Some f"
    | (small) "b_file b = None" "int (length (b_memory b) + length p) \<le> stagedResponseMemoryLimit"
    | (spill) "b_file b = None" "\<not> int (length (b_memory b) + length p) \<le> stagedResponseMemoryLimit" by fastforce
  then show ?thesis
  proof cases
    case spooled
    with run False res b0 have a: "append_file f p (e0, b0) = ((e', b'), n, err)" by (simp add: body_Write_def b0_def [symmetric] Let_def)
    have "b_size b0 = int (length f)" "b_memory b0 = []" "content b = f" using spooled ok b0 by (auto simp: body_ok_def content_def)
    with append_file_ok [OF a _ room(1) _ room(2)] e0 b0 show ?thesis by (auto simp: charges_def)
  next
    case small
    with run False res have "e' = e0" "n = length p" "err = None"
      "b' = b0\<lparr>b_memory := b_memory b0 @ p, b_size := b_size b0 + int (length p)\<rparr>"
      by (auto simp: body_Write_def b0_def Let_def)
    with small ok e0 b0 room show ?thesis by (auto simp: body_ok_def charges_def content_def)
  next
    case spill
    with run False res b0 have a: "spool p (e0, b0) = ((e', b'), n, err)" by (simp add: body_Write_def b0_def [symmetric] Let_def)
    have "content b = b_memory b" "b_size b0 = int (length (b_memory b0))" "int (length (b_memory b0)) \<le> stagedResponseMemoryLimit"
      using spill ok b0 by (auto simp: body_ok_def content_def)
    with spool_spec [OF a _ _ room(1) _ room(2)] spill b0 e0 show ?thesis by (auto simp: charges_def)
  qed
qed

section \<open>Many responses share the budget\<close>

text \<open>Any number of responses stage bodies at the same time. One step is a write, a metadata reservation,
  or the end of one response; a response that ends releases its share.\<close>

datatype stage_op = SWrite string | SMetadata int | SReset | SClose

fun stage_run :: "stage_op \<Rightarrow> stage_env \<times> stagedBody \<Rightarrow> stage_env \<times> stagedBody" where
  "stage_run (SWrite p) eb = fst (body_Write p eb)"
| "stage_run (SMetadata n) (e, b) =
     (case reserve n e of (e', ok) \<Rightarrow> (e', if ok then b\<lparr>b_reserved := b_reserved b + n\<rparr> else b))"
| "stage_run SReset eb = body_Reset eb"
| "stage_run SClose eb = fst (body_Close eb)"

fun stage_all :: "(nat \<times> stage_op) list \<Rightarrow> stage_env \<Rightarrow> stagedBody list \<Rightarrow> stage_env \<times> stagedBody list" where
  "stage_all [] e bs = (e, bs)"
| "stage_all ((i, op) # ops) e bs =
     (if i < length bs
      then (case stage_run op (e, bs ! i) of (e', b') \<Rightarrow> stage_all ops e' (bs[i := b']))
      else stage_all ops e bs)"

definition budget_ok :: "stage_env \<Rightarrow> stagedBody list \<Rightarrow> bool" where
  "budget_ok e bs \<longleftrightarrow> list_all body_ok bs \<and> e_used e = sum_list (map b_reserved bs) \<and> e_used e \<le> e_limit e"

lemma stage_run_spec:
  assumes "body_ok b" "stage_run op (e, b) = (e', b')" "\<forall>n. op = SMetadata n \<longrightarrow> 0 \<le> n"
  shows "body_ok b' \<and> charges e b e' b'"
proof (cases op)
  case (SWrite p)
  obtain eb n err where w: "body_Write p (e, b) = (eb, n, err)" by (metis surj_pair)
  with assms SWrite body_Write_spec [OF assms(1), of p e e' b' n err] show ?thesis by auto
next
  case (SMetadata n)
  with assms show ?thesis by (auto simp: reserve_def charges_def body_ok_def split: if_splits)
next
  case SReset
  with assms body_Reset_spec [of e b e' b'] show ?thesis by (auto simp: charges_def body_ok_def)
next
  case SClose
  obtain eb err where c: "body_Close (e, b) = (eb, err)" by (metis surj_pair)
  with assms SClose body_Close_spec [of e b e' b' err] show ?thesis by (auto simp: charges_def body_ok_def)
qed

lemma sum_list_int_update: "i < length xs \<Longrightarrow> sum_list (xs[i := x]) = sum_list xs + x - xs ! i" for xs :: "int list"
  by (induction xs arbitrary: i) (auto split: nat.splits)

lemma budget_step:
  assumes "budget_ok e bs" "i < length bs" "body_ok b'" "charges e (bs ! i) e' b'"
  shows "budget_ok e' (bs[i := b']) \<and> e_limit e' = e_limit e"
proof -
  have "sum_list (map b_reserved (bs[i := b'])) = sum_list (map b_reserved bs) + b_reserved b' - b_reserved (bs ! i)"
    using assms(2) by (simp add: map_update sum_list_int_update)
  moreover have "list_all body_ok (bs[i := b'])"
    using assms(1,3) by (auto simp: budget_ok_def list_all_iff dest: set_update_subset_insert [THEN subsetD])
  ultimately show ?thesis using assms(1,4) by (auto simp: budget_ok_def charges_def)
qed

lemma stage_all_ok:
  "budget_ok e bs \<Longrightarrow> \<forall>(i, op) \<in> set ops. \<forall>n. op = SMetadata n \<longrightarrow> 0 \<le> n \<Longrightarrow> stage_all ops e bs = (e', bs') \<Longrightarrow>
   budget_ok e' bs' \<and> e_limit e' = e_limit e"
proof (induction ops arbitrary: e bs)
  case (Cons iop ops)
  obtain i op where io: "iop = (i, op)" by fastforce
  show ?case
  proof (cases "i < length bs")
    case True
    obtain e1 b1 where r: "stage_run op (e, bs ! i) = (e1, b1)" by fastforce
    have "body_ok (bs ! i)" using Cons.prems(1) True by (simp add: budget_ok_def list_all_length)
    then have "body_ok b1 \<and> charges e (bs ! i) e1 b1" using stage_run_spec [OF _ r] Cons.prems(2) io by auto
    from budget_step [OF Cons.prems(1) True] this Cons.IH [of e1 "bs[i := b1]"] Cons.prems io True r show ?thesis by auto
  qed (use Cons io in auto)
qed simp

text \<open>
  C37. However many responses are staged at once, in whatever order they write, reserve metadata and
  end, and whichever file operations fail: the aggregate count is exactly the sum of the responses'
  shares and never exceeds 256 MiB, no body exceeds 64 MiB, no body holds more than 1 MiB in memory,
  and a response that has ended holds nothing.
\<close>

theorem staging_within_budget:
  assumes "e_used e = 0" "e_limit e = stagedResponseAggregateBytes"
    and "\<forall>(i, op) \<in> set ops. \<forall>n. op = SMetadata n \<longrightarrow> 0 \<le> n"
    and run: "stage_all ops e (replicate k new_body) = (e', bs)"
  shows "e_used e' = sum_list (map b_reserved bs) \<and> e_used e' \<le> 256 * 1024 * 1024 \<and>
    (\<forall>b \<in> set bs. b_size b = int (length (content b)) \<and> b_size b \<le> 64 * 1024 * 1024 \<and> int (length (b_memory b)) \<le> 1024 * 1024) \<and>
    (\<forall>b \<in> set bs. b_reserved (snd (body_Reset (e', b))) = 0 \<and> e_used (fst (body_Reset (e', b))) = e_used e' - b_reserved b)"
proof -
  have "list_all body_ok (replicate k new_body)" by (simp add: list_all_iff new_body_ok)
  moreover have "sum_list (map b_reserved (replicate k new_body)) = 0" by (simp add: new_body_def sum_list_replicate)
  ultimately have "budget_ok e (replicate k new_body)" using assms(1,2) by (simp add: budget_ok_def staging_limits)
  from stage_all_ok [OF this assms(3) run] assms(2) have ok: "budget_ok e' bs" "e_limit e' = stagedResponseAggregateBytes" by simp_all
  have "body_ok b" if "b \<in> set bs" for b using ok(1) that by (simp add: budget_ok_def list_all_iff)
  then have "b_size b = int (length (content b)) \<and> b_size b \<le> 64 * 1024 * 1024 \<and> int (length (b_memory b)) \<le> 1024 * 1024"
    if "b \<in> set bs" for b
    using that unfolding body_ok_def staging_limits by fastforce
  moreover have "b_reserved (snd (body_Reset (e', b))) = 0 \<and> e_used (fst (body_Reset (e', b))) = e_used e' - b_reserved b" for b
    using body_Reset_spec [of e' b "fst (body_Reset (e', b))" "snd (body_Reset (e', b))"] by simp
  moreover have "e_used e' = sum_list (map b_reserved bs)" "e_used e' \<le> 256 * 1024 * 1024"
    using ok by (simp_all add: budget_ok_def stagedResponseAggregateBytes_def)
  ultimately show ?thesis by blast
qed

definition demo_env :: stage_env where
  "demo_env = \<lparr>e_limit = stagedResponseAggregateBytes, e_used = 0, e_os = (\<lambda>n. if n = 1 then Some 2 else None), e_calls = 0\<rparr>"

theorem staging_within_budget_witness:
  "e_used (fst (stage_all [(0, SWrite ''hello''), (1, SMetadata 9), (0, SMetadata 4), (1, SClose)] demo_env (replicate 2 new_body))) = 9"
proof -
  let ?ops = "[(0, SWrite ''hello''), (1, SMetadata 9), (0, SMetadata 4), (1, SClose)]"
  obtain e' bs where run: "stage_all ?ops demo_env (replicate 2 new_body) = (e', bs)" by fastforce
  have "map b_reserved (snd (stage_all ?ops demo_env (replicate 2 new_body))) = [9, 0]" by code_simp
  with run have "map b_reserved bs = [9, 0]" by simp
  with staging_within_budget [OF _ _ _ run] show ?thesis unfolding run by (auto simp: demo_env_def)
qed

section \<open>What is staged is what is sent\<close>

fun write_all :: "string list \<Rightarrow> stage_env \<times> stagedBody \<Rightarrow> (stage_env \<times> stagedBody) \<times> stage_error option" where
  "write_all [] eb = (eb, None)"
| "write_all (p # ps) eb =
     (case body_Write p eb of
        (eb', _, Some err) \<Rightarrow> (eb', Some err)
      | (eb', _, None) \<Rightarrow> write_all ps eb')"

lemma write_all_content:
  "body_ok b \<Longrightarrow> write_all ps (e, b) = ((e', b'), None) \<Longrightarrow> body_ok b' \<and> content b' = content b @ concat ps"
proof (induction ps arbitrary: e b)
  case (Cons p ps)
  obtain e1 b1 n err where w: "body_Write p (e, b) = ((e1, b1), n, err)" by (metis surj_pair)
  note s = body_Write_spec [OF Cons.prems(1) w]
  with Cons.prems(2) w have "err = None" "write_all ps (e1, b1) = ((e', b'), None)" by (auto split: option.splits)
  with Cons.IH [of b1 e1] s show ?case by auto
qed simp

lemma body_Validate_content: "body_Validate (e, b) = ((e', b'), err) \<Longrightarrow> content b' = content b \<and> b_file b' = b_file b"
  by (auto simp: body_Validate_def split: option.splits prod.splits if_splits)

lemma body_FlushTo_content: "body_FlushTo (e, b) = (eb, out, None) \<Longrightarrow> out = content b"
  by (auto simp: body_FlushTo_def content_def split: option.splits prod.splits)

lemma os_works: "e_os e = (\<lambda>_. None) \<Longrightarrow> os_call e = (e\<lparr>e_calls := Suc (e_calls e)\<rparr>, None)"
  by (simp add: os_call_def)

lemma body_Write_works:
  assumes "e_os e = (\<lambda>_. None)" "int (length p) \<le> stagedResponseMaxBytes - b_size b" "int (length p) \<le> e_limit e - e_used e"
  obtains e' b' where "body_Write p (e, b) = ((e', b'), length p, None)" "e_os e' = e_os e" "e_limit e' = e_limit e"
    "e_used e' = e_used e + int (length p)" "b_size b' = b_size b + int (length p)"
proof -
  obtain e' b' n err where w: "body_Write p (e, b) = ((e', b'), n, err)" by (metis surj_pair)
  then have "n = length p" "err = None" "e_os e' = e_os e" "e_limit e' = e_limit e" "e_used e' = e_used e + int (length p)"
    "b_size b' = b_size b + int (length p)"
    using assms
    by (auto simp: body_Write_def reserve_def spool_def append_file_def os_call_def releaseReserved_eq Let_def split: option.splits if_splits)
  with w that show ?thesis by blast
qed

lemma write_all_works:
  "e_os e = (\<lambda>_. None) \<Longrightarrow> int (length (concat ps)) \<le> stagedResponseMaxBytes - b_size b \<Longrightarrow>
   int (length (concat ps)) \<le> e_limit e - e_used e \<Longrightarrow> \<exists>e' b'. write_all ps (e, b) = ((e', b'), None) \<and> e_os e' = (\<lambda>_. None)"
proof (induction ps arbitrary: e b)
  case (Cons p ps)
  obtain e1 b1 where w: "body_Write p (e, b) = ((e1, b1), length p, None)" "e_os e1 = e_os e" "e_limit e1 = e_limit e"
    "e_used e1 = e_used e + int (length p)" "b_size b1 = b_size b + int (length p)"
    using body_Write_works [of e p b] Cons.prems by auto
  with Cons.IH [of e1 b1] Cons.prems show ?case by auto
qed simp

lemma body_Validate_works:
  assumes "e_os e = (\<lambda>_. None)" "body_ok b"
  shows "\<exists>e' b'. body_Validate (e, b) = ((e', b'), None) \<and> e_os e' = (\<lambda>_. None) \<and> (b_file b' \<noteq> None \<longrightarrow> b_validated b') \<and> content b' = content b"
proof (cases "b_file b")
  case (Some f)
  then have "b_size b = int (length f)" using assms(2) by (simp add: body_ok_def content_def)
  with Some assms(1) show ?thesis by (cases "b_validated b") (simp_all add: body_Validate_def os_call_def)
qed (use assms in \<open>simp add: body_Validate_def\<close>)

lemma body_FlushTo_works:
  assumes "e_os e = (\<lambda>_. None)" "b_file b \<noteq> None \<longrightarrow> b_validated b"
  shows "\<exists>eb. body_FlushTo (e, b) = (eb, content b, None)"
  using assms by (cases "b_file b") (simp_all add: body_FlushTo_def body_Validate_def os_call_def content_def)



end
