(* ===== verification/Response_Interceptor.thy ===== *)
theory Response_Interceptor
  imports Session_Manager Go_Http Response_Staging Cookie_Filter Authz_Policy
begin

text \<open>
  The response interceptor of the Caddy handler (\<open>session_store.go\<close>): it stages what the downstream
  handler writes, takes the control headers and the backend's cookies out of the response, and turns
  them into session changes before anything reaches the client. The underlying response writer records
  the calls it receives, each \<open>WriteHeader\<close> with the header map at that moment. Log lines are left out.
\<close>

section \<open>State\<close>

record 'st Handler =
  h_CookieName :: string
  h_CookiePath :: string
  h_SameSite :: string
  h_Insecure :: bool
  h_IdentityHeader :: string
  h_OnStoreError :: string
  h_filter :: Filter
  h_manager :: "'st Manager"
  h_rotateHeaderName :: string
  h_rotateEnabled :: bool
  h_revokeHeaderName :: string
  h_revokeEnabled :: bool
  h_labelsHeaderName :: string
  h_authz :: "Authz option"
  h_parseTime :: "string \<Rightarrow> int64 option" \<comment> \<open>\<open>time.Parse\<close> of an \<open>Expires\<close> date\<close>

datatype wcall =
    WHead int Header
  | WBody string
  | WFlush
  | WHijack

record client =
  cl_header :: Header
  cl_calls :: "wcall list"
  cl_hijacker :: bool

record interceptor =
  ic_live :: "Live option"
  ic_extended :: bool
  ic_once :: bool
  ic_failed :: bool
  ic_wroteHeader :: bool
  ic_status :: int
  ic_body :: stagedBody
  ic_header :: Header
  ic_informational :: "(int \<times> Header) list"
  ic_hijacked :: bool
  ic_storeErr :: "error option"
  ic_revokeRequested :: bool
  ic_hadProxyCookie :: bool
  ic_resolveErr :: "error option"
  ic_writeErr :: "stage_error option"
  ic_metadataBytes :: int
  ic_finalMetadataReserved :: bool
  ic_terminal :: bool

section \<open>Header helpers\<close>

text \<open>\<open>clearHeaders\<close> deletes the canonical form of every key it finds.\<close>

definition clearHeaders :: "Header \<Rightarrow> Header" where
  "clearHeaders h = fold (\<lambda>(name, _) h'. hDel name h') h h"

definition copyHeaders :: "Header \<Rightarrow> Header \<Rightarrow> Header" where
  "copyHeaders dst src = foldr (\<lambda>(name, vs). mput name vs) src (clearHeaders dst)"

definition blocked_name :: "string list \<Rightarrow> string \<Rightarrow> bool" where
  "blocked_name names name \<longleftrightarrow> CanonicalHeaderKey name \<in> CanonicalHeaderKey ` set names"

text \<open>The names declared in \<open>Trailer\<close> lines, trimmed.\<close>

definition declared :: "Header \<Rightarrow> string list" where
  "declared h = concat (map (\<lambda>d. map TrimSpace (Split d (CHR '',''))) (hValues h ''Trailer''))"

definition trailer_key :: "string \<Rightarrow> bool" where
  "trailer_key key \<longleftrightarrow> take 8 (map lower_rune (runes key)) = map ord ''trailer:''"

definition stripManagedTrailerDeclarations :: "string list \<Rightarrow> Header \<Rightarrow> Header" where
  "stripManagedTrailerDeclarations names h =
     (let h1 = fold (\<lambda>name h'. if blocked_name names name then hDel name h' else h') (declared h) h;
          kept = filter (\<lambda>name. \<not> blocked_name names name \<and> name \<noteq> []) (declared h);
          h2 = hDel ''Trailer'' h1;
          h3 = (if kept = [] then h2 else hSet ''Trailer'' (Join kept '', '') h2)
      in fold (\<lambda>(key, _) h'. if trailer_key key \<and> blocked_name names (drop 8 key) then hDel key h' else h') h3 h3)"

definition managed_names :: "'st Handler \<Rightarrow> string list" where
  "managed_names h = [''Set-Cookie'', h_IdentityHeader h, h_rotateHeaderName h, h_revokeHeaderName h, h_labelsHeaderName h]"

definition scrubManagedResponseHeader :: "'st Handler \<Rightarrow> Header \<Rightarrow> Header" where
  "scrubManagedResponseHeader h hdr =
     hDel (h_labelsHeaderName h) (hDel (h_revokeHeaderName h) (hDel (h_rotateHeaderName h) (hDel (h_IdentityHeader h)
       (hDel ''Set-Cookie'' (stripManagedTrailerDeclarations (managed_names h) hdr)))))"

definition discardBackendMetadata :: "'st Handler \<Rightarrow> interceptor \<Rightarrow> interceptor" where
  "discardBackendMetadata h ic =
     (if ic_once ic then ic
      else ic\<lparr>ic_once := True,
        ic_header := stripManagedTrailerDeclarations (managed_names h)
          (hDel (h_labelsHeaderName h) (hDel (h_revokeHeaderName h) (hDel (h_rotateHeaderName h) (hDel (h_IdentityHeader h)
            (hDel ''Set-Cookie'' (ic_header ic))))))\<rparr>)"

section \<open>The proxy cookie\<close>

definition proxyCookiePath :: "'st Handler \<Rightarrow> string" where
  "proxyCookiePath h = (if h_CookiePath h = [] then ''/'' else h_CookiePath h)"

definition cookie_site :: "'st Handler \<Rightarrow> SameSite" where
  "cookie_site h = (if ToLower_is (h_SameSite h) ''strict'' then SameSiteStrictMode
     else if ToLower_is (h_SameSite h) ''none'' then SameSiteNoneMode else SameSiteLaxMode)"

definition buildProxyCookie :: "'st Handler \<Rightarrow> string \<Rightarrow> string" where
  "buildProxyCookie h val =
     cookieString (h_CookieName h) val (proxyCookiePath h) [] True (\<not> h_Insecure h) (cookie_site h)"

definition buildExpiredProxyCookie :: "'st Handler \<Rightarrow> string" where
  "buildExpiredProxyCookie h =
     cookieString (h_CookieName h) [] (proxyCookiePath h)
       ''; Expires=Thu, 01 Jan 1970 00:00:01 GMT; Max-Age=0'' True (\<not> h_Insecure h) (cookie_site h)"

section \<open>Staged metadata\<close>

definition stagedHeaderBytes :: "Header \<Rightarrow> int" where
  "stagedHeaderBytes h = sum_list (map (\<lambda>(name, vs). sum_list (map (\<lambda>v. int (length name + length v + 4)) vs)) h)"

definition reserveMetadataBytes :: "int \<Rightarrow> stage_env \<times> interceptor \<Rightarrow> (stage_env \<times> interceptor) \<times> stage_error option" where
  "reserveMetadataBytes n = (\<lambda>(e, ic).
     if stagedResponseMaxMetadataBytes - ic_metadataBytes ic < n then ((e, ic), Some StagedMetadataTooLarge)
     else case reserve n e of
       (e', False) \<Rightarrow> ((e', ic), Some StagedResponseBudgetExhausted)
     | (e', True) \<Rightarrow>
         ((e', ic\<lparr>ic_body := (ic_body ic)\<lparr>b_reserved := b_reserved (ic_body ic) + n\<rparr>,
                  ic_metadataBytes := ic_metadataBytes ic + n\<rparr>), None))"

definition generatedMetadataAllowance :: "'st Handler \<Rightarrow> int" where
  "generatedMetadataAllowance h =
     int (length ''Set-Cookie'' + max (length (buildProxyCookie h (replicate 43 (CHR ''x''))))
       (length (buildExpiredProxyCookie h)) + 4)"

definition reserveFinalMetadata :: "'st Handler \<Rightarrow> stage_env \<times> interceptor \<Rightarrow> (stage_env \<times> interceptor) \<times> stage_error option" where
  "reserveFinalMetadata h = (\<lambda>(e, ic).
     if ic_finalMetadataReserved ic then ((e, ic), None)
     else case reserveMetadataBytes (stagedHeaderBytes (ic_header ic) + generatedMetadataAllowance h) (e, ic) of
       (eic, Some err) \<Rightarrow> (eic, Some err)
     | ((e', ic'), None) \<Rightarrow> ((e', ic'\<lparr>ic_finalMetadataReserved := True\<rparr>), None))"

section \<open>The response writer given to the downstream handler\<close>

text \<open>\<open>None\<close> is the panic on an invalid status code.\<close>

definition set_writeErr :: "stage_error \<Rightarrow> interceptor \<Rightarrow> interceptor" where
  "set_writeErr err ic = (if ic_writeErr ic = None then ic\<lparr>ic_writeErr := Some err\<rparr> else ic)"

definition ic_WriteHeader :: "int \<Rightarrow> stage_env \<times> interceptor \<Rightarrow> (stage_env \<times> interceptor) option" where
  "ic_WriteHeader status = (\<lambda>(e, ic).
     if ic_wroteHeader ic then Some (e, ic)
     else if status < 100 \<or> 999 < status then None
     else if 100 \<le> status \<and> status < 200 \<and> status \<noteq> 101
     then (if stagedResponseMaxInformational \<le> length (ic_informational ic)
           then Some (e, set_writeErr TooManyInformationalResponses ic)
           else case reserveMetadataBytes (stagedHeaderBytes (ic_header ic)) (e, ic) of
             ((e', ic'), Some err) \<Rightarrow> Some (e', set_writeErr err ic')
           | ((e', ic'), None) \<Rightarrow> Some (e', ic'\<lparr>ic_informational := ic_informational ic' @ [(status, ic_header ic')]\<rparr>))
     else Some (e, ic\<lparr>ic_wroteHeader := True, ic_status := status\<rparr>))"

definition client_Write :: "string \<Rightarrow> stage_env \<times> client \<Rightarrow> (stage_env \<times> client) \<times> nat \<times> stage_error option" where
  "client_Write p = (\<lambda>(e, cl).
     case os_call e of (e', r) \<Rightarrow>
       let n = (case r of None \<Rightarrow> length p | Some k \<Rightarrow> min k (length p))
       in ((e', cl\<lparr>cl_calls := cl_calls cl @ [WBody (take n p)]\<rparr>), n, if r = None then None else Some OSError))"

definition client_WriteHeader :: "int \<Rightarrow> client \<Rightarrow> client" where
  "client_WriteHeader status cl = cl\<lparr>cl_calls := cl_calls cl @ [WHead status (cl_header cl)]\<rparr>"

definition client_Call :: "wcall \<Rightarrow> stage_env \<times> client \<Rightarrow> (stage_env \<times> client) \<times> stage_error option" where
  "client_Call c = (\<lambda>(e, cl).
     case os_call e of (e', r) \<Rightarrow>
       ((e', cl\<lparr>cl_calls := cl_calls cl @ [c]\<rparr>), if r = None then None else Some OSError))"

type_synonym io = "stage_env \<times> client \<times> interceptor"

text \<open>\<open>WriteHeader(200)\<close> where no header was written yet.\<close>

definition default_status :: "interceptor \<Rightarrow> interceptor" where
  "default_status ic = (if ic_wroteHeader ic then ic else ic\<lparr>ic_wroteHeader := True, ic_status := 200\<rparr>)"

definition bodyless :: "int \<Rightarrow> bool" where
  "bodyless status \<longleftrightarrow> status = 204 \<or> status = 304 \<or> (100 \<le> status \<and> status < 200)"

definition ic_Write :: "string \<Rightarrow> io \<Rightarrow> io \<times> nat \<times> stage_error option" where
  "ic_Write p = (\<lambda>(e, cl, ic).
     if ic_terminal ic then (case client_Write p (e, cl) of ((e', cl'), r) \<Rightarrow> ((e', cl', ic), r))
     else let ic1 = default_status ic
       in if bodyless (ic_status ic1) then ((e, cl, ic1), 0, Some BodyNotAllowed)
          else case body_Write p (e, ic_body ic1) of
            ((e', b'), n, None) \<Rightarrow> ((e', cl, ic1\<lparr>ic_body := b'\<rparr>), n, None)
          | ((e', b'), n, Some err) \<Rightarrow> ((e', cl, set_writeErr err (ic1\<lparr>ic_body := b'\<rparr>)), n, Some err))"

fun commit_one :: "'st Handler \<Rightarrow> int \<times> Header \<Rightarrow> client \<Rightarrow> client" where
  "commit_one h (status, hdr) cl =
     client_WriteHeader status (cl\<lparr>cl_header := copyHeaders (cl_header cl) (scrubManagedResponseHeader h hdr)\<rparr>)"

definition commitInformational :: "'st Handler \<Rightarrow> interceptor \<Rightarrow> client \<Rightarrow> client" where
  "commitInformational h ic cl = fold (commit_one h) (ic_informational ic) cl"

definition releaseTerminalStaging :: "stage_env \<times> interceptor \<Rightarrow> stage_env \<times> interceptor" where
  "releaseTerminalStaging = (\<lambda>(e, ic).
     case body_Reset (e, ic_body ic) of (e', b') \<Rightarrow>
       (e', ic\<lparr>ic_body := b', ic_informational := [], ic_header := clearHeaders (ic_header ic), ic_metadataBytes := 0\<rparr>))"

text \<open>What \<open>FlushError\<close> and \<open>Hijack\<close> share: the staged metadata goes out without any session change
  and the staging is given up. \<open>FlushError\<close> always has a status by then.\<close>

definition go_terminal :: "'st Handler \<Rightarrow> io \<Rightarrow> io" where
  "go_terminal h = (\<lambda>(e, cl, ic).
     let ic1 = (discardBackendMetadata h ic)\<lparr>ic_terminal := True\<rparr>;
         cl1 = commitInformational h ic1 cl;
         cl2 = cl1\<lparr>cl_header := copyHeaders (cl_header cl1) (ic_header ic1)\<rparr>;
         cl3 = (if ic_wroteHeader ic1 then client_WriteHeader (ic_status ic1) cl2 else cl2);
         (e', ic2) = releaseTerminalStaging (e, ic1)
     in (e', cl3, ic2))"

definition finish_terminal :: "wcall \<Rightarrow> io \<Rightarrow> io \<times> stage_error option" where
  "finish_terminal c = (\<lambda>(e, cl, ic).
     case client_Call c (e, cl) of ((e', cl'), r) \<Rightarrow>
       ((e', cl', if r = None then ic\<lparr>ic_hijacked := True\<rparr> else ic), r))"

definition FlushError :: "'st Handler \<Rightarrow> io \<Rightarrow> io \<times> stage_error option" where
  "FlushError h = (\<lambda>(e, cl, ic).
     if \<not> ic_extended ic then ((e, cl, ic), Some NotSupported)
     else if ic_terminal ic then (case client_Call WFlush (e, cl) of ((e', cl'), r) \<Rightarrow> ((e', cl', ic), r))
     else if ic_writeErr ic \<noteq> None then ((e, cl, ic), ic_writeErr ic)
     else case reserveFinalMetadata h (e, ic) of
       ((e1, ic1), Some err) \<Rightarrow> ((e1, cl, ic1\<lparr>ic_writeErr := Some err\<rparr>), Some err)
     | ((e1, ic1), None) \<Rightarrow>
         if b_size (ic_body ic1) \<noteq> 0 then ((e1, cl, ic1), Some HijackWithStagedBody)
         else finish_terminal WFlush (go_terminal h (e1, cl, default_status ic1)))"

definition Hijack :: "'st Handler \<Rightarrow> io \<Rightarrow> io \<times> stage_error option" where
  "Hijack h = (\<lambda>(e, cl, ic).
     if \<not> cl_hijacker cl then ((e, cl, ic), Some NotSupported)
     else if ic_writeErr ic \<noteq> None then ((e, cl, ic), ic_writeErr ic)
     else case reserveFinalMetadata h (e, ic) of
       ((e1, ic1), Some err) \<Rightarrow> ((e1, cl, ic1\<lparr>ic_writeErr := Some err\<rparr>), Some err)
     | ((e1, ic1), None) \<Rightarrow>
         if b_size (ic_body ic1) \<noteq> 0 then ((e1, cl, ic1), Some HijackWithStagedBody)
         else finish_terminal WHijack (go_terminal h (e1, cl, ic1)))"

section \<open>Response processing\<close>

definition splitLabels :: "string \<Rightarrow> string list" where
  "splitLabels s = FieldsFunc (\<lambda>r. r = 44 \<or> IsSpace r) s"

text \<open>The decision of the last well-formed \<open>Max-Age\<close> attribute, if there is one.\<close>

definition max_age_attr :: "string \<Rightarrow> bool option \<Rightarrow> bool option" where
  "max_age_attr part d =
     (let (name, val, found) = Cut part (CHR ''=''); val = TrimSpace val; negative = HasPrefix val ''-'';
          digits = (if negative then tl val else val)
      in if \<not> found \<or> \<not> EqualFold_lit (TrimSpace name) ''Max-Age'' \<or> digits = []
            \<or> \<not> list_all (\<lambda>c. 48 \<le> ord c \<and> ord c \<le> 57) digits then d
         else Some (negative \<or> list_all (\<lambda>c. c = CHR ''0'') digits))"

definition maxAgeDeletes :: "string \<Rightarrow> bool option" where
  "maxAgeDeletes raw = fold max_age_attr (tl (Split raw (CHR '';''))) None"

definition cookieDeletesNow :: "string \<Rightarrow> Cookie \<Rightarrow> int64 \<Rightarrow> bool" where
  "cookieDeletesNow raw c now =
     (case maxAgeDeletes raw of Some deletes \<Rightarrow> deletes
      | None \<Rightarrow> ck_Expires c \<noteq> zero_time \<and> ck_Expires c \<le> now)"

definition ensureLive :: "'st Handler \<Rightarrow> 'st world \<times> interceptor \<Rightarrow> ('st world \<times> interceptor) \<times> (error + unit)" where
  "ensureLive h = (\<lambda>(w, ic).
     if ic_live ic \<noteq> None then ((w, ic), Inr ())
     else case Begin (h_manager h) w of
       (w', Inl e) \<Rightarrow> ((w', ic), Inl e)
     | (w', Inr l) \<Rightarrow> ((w', ic\<lparr>ic_live := Some l\<rparr>), Inr ()))"

definition owner_control :: "'st Handler \<Rightarrow> Header \<Rightarrow> int64 option" where
  "owner_control h hdr =
     (let raw = hGet hdr (h_IdentityHeader h)
      in if raw = [] then None
         else case ParseInt raw of None \<Rightarrow> None | Some n \<Rightarrow> if 0 < n then Some n else None)"

definition rotate_control :: "'st Handler \<Rightarrow> Header \<Rightarrow> bool" where
  "rotate_control h hdr \<longleftrightarrow>
     h_rotateEnabled h \<and> hGet hdr (h_rotateHeaderName h) \<noteq> [] \<and> ParseBool (hGet hdr (h_rotateHeaderName h)) = Some True"

definition labels_control :: "'st Handler \<Rightarrow> Header \<Rightarrow> string list option" where
  "labels_control h hdr =
     (let raw = hValues hdr (h_labelsHeaderName h)
      in if raw = [] then None
         else Some (filter (\<lambda>lab. lab \<noteq> Anonymous) (splitLabels (Join raw '',''))))"

text \<open>The loop over the captured \<open>Set-Cookie\<close> lines, with the mutations collected so far.\<close>

fun cookie_loop :: "'st Handler \<Rightarrow> string list \<Rightarrow> CookieMut list \<Rightarrow> 'st world \<times> interceptor
    \<Rightarrow> ('st world \<times> interceptor) \<times> (error + CookieMut list)" where
  "cookie_loop h [] muts s = (s, Inr muts)"
| "cookie_loop h (sc # scs) muts (w, ic) =
     (case ParseSetCookie (h_parseTime h) sc of
        None \<Rightarrow> cookie_loop h scs muts (w, ic)
      | Some c \<Rightarrow>
          (case Decide (h_filter h) (ck_Name c) of
             Forward \<Rightarrow> cookie_loop h scs muts (w, ic\<lparr>ic_header := hAdd ''Set-Cookie'' sc (ic_header ic)\<rparr>)
           | Drop \<Rightarrow> cookie_loop h scs muts (w, ic)
           | Store \<Rightarrow>
               (case clockNow w of (w1, now) \<Rightarrow>
                  if cookieDeletesNow sc c now
                  then cookie_loop h scs
                    (if ic_live ic = None then muts
                     else muts @ [\<lparr>cmu_Name = ck_Name c, cmu_Value = [], cmu_Delete = True\<rparr>]) (w1, ic)
                  else case ensureLive h (w1, ic) of
                    (s, Inl e) \<Rightarrow> (s, Inl e)
                  | (s, Inr _) \<Rightarrow> cookie_loop h scs
                      (muts @ [\<lparr>cmu_Name = ck_Name c, cmu_Value = ck_Value c, cmu_Delete = False\<rparr>]) s)))"

definition revoke_response :: "'st Handler \<Rightarrow> 'st world \<times> interceptor \<Rightarrow> ('st world \<times> interceptor) \<times> (error + unit)" where
  "revoke_response h = (\<lambda>(w, ic).
     let ic1 = ic\<lparr>ic_header := hDel (h_labelsHeaderName h) (hDel (h_rotateHeaderName h) (hDel (h_IdentityHeader h) (ic_header ic)))\<rparr>;
         expire = (\<lambda>ic. if ic_hadProxyCookie ic
           then ic\<lparr>ic_header := hAdd ''Set-Cookie'' (buildExpiredProxyCookie h) (ic_header ic)\<rparr> else ic)
     in case ic_live ic1 of
          None \<Rightarrow> ((w, expire ic1), Inr ())
        | Some l \<Rightarrow>
            (case Revoke (h_manager h) (w, l) of
               ((w', l'), Inl e) \<Rightarrow> ((w', ic1\<lparr>ic_live := Some l'\<rparr>), Inl e)
             | ((w', l'), Inr _) \<Rightarrow> ((w', expire (ic1\<lparr>ic_live := None\<rparr>)), Inr ())))"

text \<open>The final transition and the refreshed proxy cookie.\<close>

definition apply_response :: "'st Handler \<Rightarrow> int64 option \<Rightarrow> string list option \<Rightarrow> bool \<Rightarrow> CookieMut list
    \<Rightarrow> 'st world \<times> interceptor \<Rightarrow> ('st world \<times> interceptor) \<times> (error + unit)" where
  "apply_response h owner labels rot muts = (\<lambda>(w, ic).
     case ic_live ic of
       None \<Rightarrow> ((w, ic), Inr ())
     | Some l \<Rightarrow>
         (case ApplyResponse (h_manager h) owner labels rot muts (w, l) of
            ((w', l'), Inl e) \<Rightarrow> ((w', ic\<lparr>ic_live := Some l'\<rparr>), Inl e)
          | ((w', l'), Inr _) \<Rightarrow>
              ((w', case NewProxyCookie l' of
                      None \<Rightarrow> ic\<lparr>ic_live := Some l'\<rparr>
                    | Some v \<Rightarrow> ic\<lparr>ic_live := Some l',
                        ic_header := hAdd ''Set-Cookie'' (buildProxyCookie h v) (ic_header ic)\<rparr>), Inr ())))"

definition processLocked :: "'st Handler \<Rightarrow> 'st world \<times> interceptor \<Rightarrow> ('st world \<times> interceptor) \<times> (error + unit)" where
  "processLocked h = (\<lambda>(w, ic).
     let setCookies = hValues (ic_header ic) ''Set-Cookie'';
         hdr0 = hDel ''Set-Cookie'' (ic_header ic)
     in if ic_revokeRequested ic then revoke_response h (w, ic\<lparr>ic_header := hdr0\<rparr>)
        else let owner = owner_control h hdr0; hdr1 = hDel (h_IdentityHeader h) hdr0;
                 rot = rotate_control h hdr1; hdr2 = hDel (h_rotateHeaderName h) hdr1;
                 labels = labels_control h hdr2; hdr3 = hDel (h_labelsHeaderName h) hdr2
          in andThen (cookie_loop h setCookies [] (w, ic\<lparr>ic_header := hdr3\<rparr>)) (\<lambda>(w, ic) muts.
             andThen (if ic_live ic = None \<and> (owner \<noteq> None \<or> (labels \<noteq> None \<and> labels \<noteq> Some []))
                      then ensureLive h (w, ic) else ((w, ic), Inr ())) (\<lambda>s _.
             apply_response h owner labels rot muts s)))"

text \<open>\<open>process\<close>; the error for an unresolved session wraps the resolve error and is given as that error.\<close>

definition revoke_control :: "'st Handler \<Rightarrow> Header \<Rightarrow> bool" where
  "revoke_control h hdr \<longleftrightarrow>
     h_revokeEnabled h \<and> list_ex (\<lambda>raw. ParseBool raw = Some True) (hValues hdr (h_revokeHeaderName h))"

definition process :: "'st Handler \<Rightarrow> 'st world \<times> interceptor \<Rightarrow> ('st world \<times> interceptor) \<times> (error + unit)" where
  "process h = (\<lambda>(w, ic).
     let hdr = stripManagedTrailerDeclarations (managed_names h) (ic_header ic);
         ic1 = ic\<lparr>ic_header := hDel (h_revokeHeaderName h) hdr,
                  ic_revokeRequested := ic_revokeRequested ic \<or> revoke_control h hdr\<rparr>
     in case (ic_revokeRequested ic1, ic_resolveErr ic1) of
          (True, Some e) \<Rightarrow> ((w, ic1), Inl e)
        | _ \<Rightarrow>
            (case ic_live ic1 of
               Some l \<Rightarrow> WithLock (h_manager h) (l_SessionID l) (processLocked h) (w, ic1)
             | None \<Rightarrow> processLocked h (w, ic1)))"

definition ensureProcessed :: "'st Handler \<Rightarrow> 'st world \<times> interceptor \<Rightarrow> 'st world \<times> interceptor" where
  "ensureProcessed h = (\<lambda>(w, ic).
     if ic_once ic then (w, ic)
     else case process h (w, ic) of
       ((w', ic'), Inr _) \<Rightarrow> (w', ic'\<lparr>ic_once := True\<rparr>)
     | ((w', ic'), Inl e) \<Rightarrow>
         let ic1 = ic'\<lparr>ic_once := True,
           ic_header := hDel (h_labelsHeaderName h) (hDel (h_revokeHeaderName h) (hDel (h_rotateHeaderName h)
             (hDel (h_IdentityHeader h) (hDel ''Set-Cookie'' (ic_header ic')))))\<rparr>
         in (w', if h_OnStoreError h = ''fail_closed'' \<or> ic_revokeRequested ic1
                 then ic1\<lparr>ic_failed := True, ic_storeErr := Some e\<rparr> else ic1))"

end
