(* ===== verification/Manager_Laws.thy ===== *)
theory Manager_Laws
  imports Session_Manager
begin

text \<open>
  The session manager against the store contract. The lemmas are proved once for every store that
  keeps the contract, under interference by other requests, and once more exactly for stores whose
  calls only fail for the documented reasons; the in-memory store interprets both.
\<close>

section \<open>Interference\<close>

text \<open>\<open>others P v v'\<close>: the store went from \<open>v\<close> to \<open>v'\<close> by calls of other requests, each satisfying
  \<open>P\<close> in the state it met.\<close>

definition others :: "(view \<Rightarrow> store_call \<Rightarrow> bool) \<Rightarrow> view \<Rightarrow> view \<Rightarrow> bool" where
  "others P = (\<lambda>v v'. \<exists>c. P v c \<and> vstep v c v')\<^sup>*\<^sup>*"

lemma others_refl [simp, intro]: "others P v v"
  by (simp add: others_def)

lemma others_trans [trans]: "others P u v \<Longrightarrow> others P v w \<Longrightarrow> others P u w"
  unfolding others_def by (rule rtranclp_trans)

lemma others_keeps:
  assumes "others P v v'" and "J v" and "\<And>v c v'. J v \<Longrightarrow> P v c \<Longrightarrow> vstep v c v' \<Longrightarrow> J v'"
  shows "J v'"
  using assms(1,2) unfolding others_def by (induction rule: rtranclp_induct) (blast intro: assms(3))+

lemma others_dead_key:
  assumes "others P v v'" "v_key v k = None" "\<And>v c. P v c \<Longrightarrow> \<not> mints k c"
  shows "v_key v' k = None"
proof (rule others_keeps [OF assms(1), of "\<lambda>v. v_key v k = None", OF assms(2)])
  fix v c v' assume "v_key v k = None" "P v c" "vstep v c v'"
  then show "v_key v' k = None" using assms(3) by (auto elim!: vstepE intro: dead_key_call)
qed

lemma others_gone:
  assumes "others P v v'" "no_orphans v" "gone sid v" "\<And>v c. P v c \<Longrightarrow> \<not> creates sid c"
  shows "no_orphans v' \<and> gone sid v'"
proof -
  have "no_orphans v' \<and> v_session v' sid = None"
  proof (rule others_keeps [OF assms(1)])
    show "no_orphans v \<and> v_session v sid = None" using assms(2,3) by (simp add: gone_def)
    fix v c v' assume "no_orphans v \<and> v_session v sid = None" "P v c" "vstep v c v'"
    then show "no_orphans v' \<and> v_session v' sid = None"
      using assms(4) by (auto elim!: vstepE intro: no_orphans_call absent_call)
  qed
  then show ?thesis by (simp add: no_orphans_gone)
qed

text \<open>What an operation may assume of the world it starts in: the store satisfies its invariant, and
  the other requests only issue calls that \<open>P\<close> allows.\<close>

definition sound_world :: "('st \<Rightarrow> bool) \<Rightarrow> ('st \<Rightarrow> view) \<Rightarrow> (view \<Rightarrow> store_call \<Rightarrow> bool) \<Rightarrow> 'st world \<Rightarrow> bool" where
  "sound_world invar obs P w \<longleftrightarrow> invar (w_store w) \<and>
     (\<forall>n st. invar st \<longrightarrow> invar (w_env w n st) \<and> others P (obs st) (obs (w_env w n st)))"

lemma quiet_sound: "quiet w \<Longrightarrow> invar (w_store w) \<Longrightarrow> sound_world invar obs P w"
  by (simp add: quiet_def sound_world_def)

lemma sound_world_cong:
  "w_store w' = w_store w \<Longrightarrow> w_env w' = w_env w \<Longrightarrow> sound_world invar obs P w' = sound_world invar obs P w"
  by (simp add: sound_world_def)

lemma onStore_frame:
  assumes "onStore f w = (w', r)"
  shows "w_env w' = w_env w" "w_rng w' = w_rng w" "w_clock w' = w_clock w" "w_ticks w' = w_ticks w"
  using assms by (auto simp: onStore_def split: prod.splits)

lemma onStore_queries:
  assumes "queries invar obs f Q" "sound_world invar obs P w" "onStore f w = (w', r)"
  shows "sound_world invar obs P w'" "others P (obs (w_store w)) (obs (w_store w'))" "Q (obs (w_store w')) r"
proof -
  define st where "st = w_env w (w_calls w) (w_store w)"
  have st: "invar st" "others P (obs (w_store w)) (obs st)" using assms(2) by (auto simp: st_def sound_world_def)
  have e: "f st = (w_store w', r)" using assms(3) by (auto simp: onStore_def st_def split: prod.splits)
  with assms(1) st(1) have q: "invar (w_store w')" "obs (w_store w') = obs st" "Q (obs st) r"
    by (auto simp: queries_def)
  then show "sound_world invar obs P w'" using assms(2) onStore_frame [OF assms(3)] by (simp add: sound_world_def)
  show "others P (obs (w_store w)) (obs (w_store w'))" "Q (obs (w_store w')) r" using st q by auto
qed

lemma onStore_mutates:
  assumes "mutates invar obs f ok eff" "sound_world invar obs P w" "onStore f w = (w', r)"
  obtains v where "sound_world invar obs P w'" "others P (obs (w_store w)) v"
    and "case r of Inl _ \<Rightarrow> obs (w_store w') = v | Inr _ \<Rightarrow> ok v \<and> obs (w_store w') = eff v"
proof -
  define st where "st = w_env w (w_calls w) (w_store w)"
  have st: "invar st" "others P (obs (w_store w)) (obs st)" using assms(2) by (auto simp: st_def sound_world_def)
  have e: "f st = (w_store w', r)" using assms(3) by (auto simp: onStore_def st_def split: prod.splits)
  with assms(1) st(1) have q: "invar (w_store w')"
    "case r of Inl _ \<Rightarrow> obs (w_store w') = obs st | Inr _ \<Rightarrow> ok (obs st) \<and> obs (w_store w') = eff (obs st)"
    unfolding mutates_def by blast+
  have "sound_world invar obs P w'" using q(1) assms(2) onStore_frame [OF assms(3)] by (simp add: sound_world_def)
  with st(2) q(2) that show ?thesis by blast
qed

lemma clockNow_frame:
  assumes "clockNow w = (w', now)"
  shows "w_env w' = w_env w" "w_store w' = w_store w" "w_rng w' = w_rng w" "now = w_clock w (w_ticks w)"
    "w_clock w' = w_clock w"
  using assms by (auto simp: clockNow_def)

lemma newID_frame:
  assumes "newID w = (w', r)"
  shows "w_env w' = w_env w" "w_store w' = w_store w" "w_clock w' = w_clock w" "w_ticks w' = w_ticks w"
  using assms by (auto simp: newID_def split: if_splits)

section \<open>Applying controls\<close>

text \<open>
  \<open>commits\<close>: the one store transition of a successful \<open>applyControls\<close>, in a state \<open>v\<close> in which
  the handle's key still leads to the session.
\<close>

definition commits :: "int64 option \<Rightarrow> string list option \<Rightarrow> SessionControls \<Rightarrow> int64 \<Rightarrow> string \<Rightarrow> Live \<Rightarrow> view \<Rightarrow> view \<Rightarrow> Live \<Rightarrow> bool" where
  "commits ownerID labels c0 now key l v v' l' \<longleftrightarrow>
     (let c = controls1 c0 now key
      in (\<not> c_Rotate c0 \<longrightarrow> key = l_KeyID l) \<and>
         call_ok (CApplyControls (l_SessionID l) c) v \<and>
         v' = call_effect (CApplyControls (l_SessionID l) c) v \<and>
         l' = take_key c (fold cache_cookie (c_Cookies c) (settle ownerID labels l)))"

context store_contract
begin

lemma onStore_session:
  assumes "sound_world invar obs P w" "onStore (GetSession I sid) w = (w', r)"
  shows "sound_world invar obs P w'" "others P (obs (w_store w)) (obs (w_store w'))"
    "finds (v_session (obs (w_store w')) sid) r"
  using onStore_queries [OF get_session assms] by auto

lemma onStore_call:
  assumes "sound_world invar obs P w" "onStore (exec I t t' c) w = (w', r)"
  obtains v where "sound_world invar obs P w'" "others P (obs (w_store w)) v"
    and "case r of Inl _ \<Rightarrow> obs (w_store w') = v | Inr _ \<Rightarrow> call_ok c v \<and> obs (w_store w') = call_effect c v"
  using onStore_mutates [OF call assms] by blast

lemma commitControls_outcome:
  assumes w: "sound_world invar obs P w" and M: "m_store M = I"
    and run: "commitControls M ownerID labels sess c0 now (w, l) = ((w', l'), r)"
  shows "sound_world invar obs P w' \<and>
    (case r of Inl e \<Rightarrow> l' = l \<and> others P (obs (w_store w)) (obs (w_store w'))
     | Inr _ \<Rightarrow> \<exists>key v. others P (obs (w_store w)) v \<and> commits ownerID labels c0 now key l v (obs (w_store w')) l')"
proof -
  obtain w3 k where n: "(if c_Rotate c0 then newID w else (w, Inr (l_KeyID l))) = (w3, k)" by fastforce
  have f3: "w_env w3 = w_env w" "w_store w3 = w_store w" using n newID_frame by (auto split: if_splits)
  have w3: "sound_world invar obs P w3" using w f3 by (simp add: sound_world_def)
  show ?thesis
  proof (cases k)
    case (Inl e)
    with run M n have "w' = w3" "l' = l" "r = Inl e" by (auto simp: commitControls_def)
    with w3 f3 show ?thesis by simp
  next
    case kr: (Inr key)
    define c where "c = controls1 c0 now key"
    define t where "t = ttl_of (sess\<lparr>s_LastAccess := max (s_LastAccess sess) (c_LastAccess c)\<rparr>) now"
    obtain w4 a where a: "onStore (exec I t (i64 (s_FinalTimeout sess * Second)) (CApplyControls (l_SessionID l) c)) w3 = (w4, a)"
      by fastforce
    obtain v where v: "sound_world invar obs P w4" "others P (obs (w_store w3)) v"
      "case a of Inl _ \<Rightarrow> obs (w_store w4) = v | Inr _ \<Rightarrow> call_ok (CApplyControls (l_SessionID l) c) v \<and>
         obs (w_store w4) = call_effect (CApplyControls (l_SessionID l) c) v"
      using onStore_call [OF w3 a] .
    have res: "((w', l'), r) = (case a of Inl e \<Rightarrow> ((w4, l), Inl e)
        | Inr _ \<Rightarrow> ((w4, take_key c (fold cache_cookie (c_Cookies c) (settle ownerID labels l))), Inr ()))"
      using run M n kr a by (auto simp: commitControls_def c_def t_def Let_def split: sum.splits)
    have "\<not> c_Rotate c0 \<longrightarrow> key = l_KeyID l" using n kr by (auto split: if_splits)
    with res v f3 show ?thesis
      by (cases a) (auto simp: commits_def Let_def c_def simp del: call_ok.simps call_effect.simps)
  qed
qed

lemma applyControls_outcome:
  assumes w: "sound_world invar obs P w" and M: "m_store M = I"
    and run: "applyControls M ownerID labels force periodic cookies (w, l) = ((w', l'), r)"
  shows "sound_world invar obs P w' \<and>
    (case r of Inl e \<Rightarrow> l' = l \<and> others P (obs (w_store w)) (obs (w_store w'))
     | Inr _ \<Rightarrow> \<exists>sess c0 v0. others P (obs (w_store w)) v0 \<and> v_session v0 (l_SessionID l) = Some sess \<and>
         c0 = controls0 (m_cfg M) l sess ownerID labels force periodic cookies (w_clock w (w_ticks w)) \<and>
         (if idle c0 then obs (w_store w') = v0 \<and> l' = settle ownerID labels l
          else \<exists>key v. others P v0 v \<and> commits ownerID labels c0 (w_clock w (w_ticks w)) key l v (obs (w_store w')) l'))"
proof -
  obtain w1 now where c1: "clockNow w = (w1, now)" by fastforce
  note f1 = clockNow_frame [OF c1]
  have w1: "sound_world invar obs P w1" using w f1 by (simp add: sound_world_def)
  obtain w2 q where g: "onStore (GetSession I (l_SessionID l)) w1 = (w2, q)" by fastforce
  note s2 = onStore_session [OF w1 g, unfolded f1]
  show ?thesis
  proof (cases q)
    case (Inl e)
    with run c1 g M s2 show ?thesis by (auto simp: applyControls_def)
  next
    case (Inr sess)
    define c0 where "c0 = controls0 (m_cfg M) l sess ownerID labels force periodic cookies now"
    have row: "v_session (obs (w_store w2)) (l_SessionID l) = Some sess" using s2(3) Inr by (simp add: finds_def)
    show ?thesis
    proof (cases "idle c0")
      case True
      then have "w' = w2" "l' = settle ownerID labels l" "r = Inr ()"
        using run c1 g M Inr by (auto simp: applyControls_def c0_def)
      with True s2 row f1 show ?thesis unfolding c0_def by auto
    next
      case False
      then have "commitControls M ownerID labels sess c0 now (w2, l) = ((w', l'), r)"
        using run c1 g M Inr by (simp add: applyControls_def c0_def)
      note out = commitControls_outcome [OF s2(1) M this]
      show ?thesis
      proof (cases r)
        case (Inl e)
        with out s2(2) show ?thesis by (auto intro: others_trans)
      next
        case (Inr u)
        with out False s2(2) row f1 show ?thesis unfolding c0_def by auto
      qed
    qed
  qed
qed

end

section \<open>Every operation on a handle\<close>

text \<open>The operations a request can perform on its handle, and running one of them.\<close>

datatype live_op =
    LApply "int64 option" "string list option" bool bool "CookieMut list"
  | LSetLabels "string list"
  | LBindOwner int64
  | LMaybeRotate
  | LForceRotate
  | LRevoke

definition outcome :: "'s \<times> (error + 'a) \<Rightarrow> 's \<times> error option" where
  "outcome p = (case p of (s, Inl e) \<Rightarrow> (s, Some e) | (s, Inr _) \<Rightarrow> (s, None))"

fun run_live :: "'st Manager \<Rightarrow> live_op \<Rightarrow> 'st world \<times> Live \<Rightarrow> ('st world \<times> Live) \<times> error option" where
  "run_live M (LApply ownerID labels force periodic cookies) wl = outcome (applyControls M ownerID labels force periodic cookies wl)"
| "run_live M (LSetLabels labels) wl = outcome (SetLabels M labels wl)"
| "run_live M (LBindOwner i) wl = outcome (BindOwner M i wl)"
| "run_live M LMaybeRotate wl = outcome (MaybeRotate M wl)"
| "run_live M LForceRotate wl = outcome (ForceRotate M wl)"
| "run_live M LRevoke wl = outcome (Revoke M wl)"

fun owner_arg :: "live_op \<Rightarrow> int64 option" where
  "owner_arg (LApply ownerID labels force periodic cookies) = ownerID"
| "owner_arg (LBindOwner i) = (if i \<le> 0 then None else Some i)"
| "owner_arg _ = None"

text \<open>The store calls an operation may issue itself: a deletion of its session, or one update that
  presents the handle's key and binds no owner but the requested one.\<close>

fun own_call :: "live_op \<Rightarrow> Live \<Rightarrow> store_call \<Rightarrow> bool" where
  "own_call LRevoke l c \<longleftrightarrow> c = CDeleteSession (l_SessionID l)"
| "own_call op l c \<longleftrightarrow> (\<exists>k. c = CApplyControls (l_SessionID l) k \<and> c_OldKeyID k = l_KeyID l \<and>
     (c_SetOwner k \<longrightarrow> owner_arg op = Some (c_OwnerID k)))"

text \<open>\<open>effect_of\<close>: nothing but the others' calls happened, or at the last step the operation's own call
  took effect; after a failure the former holds and the handle is as before.\<close>

definition effect_of :: "(view \<Rightarrow> store_call \<Rightarrow> bool) \<Rightarrow> (store_call \<Rightarrow> bool) \<Rightarrow> view \<Rightarrow> view \<Rightarrow> bool \<Rightarrow> bool" where
  "effect_of P own v v' done' \<longleftrightarrow>
     (\<exists>u. others P v u \<and> (v' = u \<or> done' \<and> (\<exists>c. own c \<and> call_ok c u \<and> v' = call_effect c u)))"

lemma effect_of_trans: "others P v u \<Longrightarrow> effect_of P own u v' d \<Longrightarrow> effect_of P own v v' d"
  unfolding effect_of_def by (blast intro: others_trans)

lemma effect_of_others: "others P v v' \<Longrightarrow> effect_of P own v v' d"
  unfolding effect_of_def by blast

lemma cache_cookie_sel [simp]:
  "l_KeyID (fold cache_cookie cs l) = l_KeyID l" "l_SessionID (fold cache_cookie cs l) = l_SessionID l"
  "l_rewrite (fold cache_cookie cs l) = l_rewrite l" "l_newKey (fold cache_cookie cs l) = l_newKey l"
  by (induction cs arbitrary: l) (simp_all add: cache_cookie_def)

lemma settle_sel [simp]:
  "l_KeyID (settle i ls l) = l_KeyID l" "l_SessionID (settle i ls l) = l_SessionID l"
  "l_rewrite (settle i ls l) = l_rewrite l" "l_newKey (settle i ls l) = l_newKey l"
  by (simp_all add: settle_def)

lemma controls0_sel [simp]:
  "c_OldKeyID (controls0 cfg l s i ls f p cs now) = l_KeyID l"
  "c_SetOwner (controls0 cfg l s i ls f p cs now) \<longleftrightarrow> (\<exists>x. i = Some x \<and> x \<noteq> s_OwnerID s)"
  "c_OwnerID (controls0 cfg l s i ls f p cs now) = (case i of None \<Rightarrow> 0 | Some x \<Rightarrow> x)"
  "c_Cookies (controls0 cfg l s i ls f p cs now) = map to_mutation cs"
  by (auto simp: controls0_def Let_def split: option.splits)

lemma controls0_rotate:
  "c_Rotate (controls0 cfg l s i ls f p cs now) \<longleftrightarrow> \<not> l_rewrite l \<and>
     (f \<or> (p \<and> 0 < RotateInterval cfg \<and> seconds_of (RotateInterval cfg) \<le> i64 (now - s_LastRotation s)) \<or>
      (\<exists>x. ls = Some x \<and> normalizeLabels x \<noteq> s_Labels s) \<or> (\<exists>x. i = Some x \<and> x \<noteq> s_OwnerID s \<and> RotateOnLogin cfg))"
  by (auto simp: controls0_def Let_def split: option.splits)

lemma controls0_labels:
  "c_SetLabels (controls0 cfg l s i ls f p cs now) \<longleftrightarrow> (\<exists>x. ls = Some x \<and> normalizeLabels x \<noteq> s_Labels s)"
  "ls = Some x \<Longrightarrow> c_Labels (controls0 cfg l s i ls f p cs now) = normalizeLabels x"
  by (auto simp: controls0_def Let_def split: option.splits)

lemma controls1_sel [simp]:
  "c_OldKeyID (controls1 c now k) = c_OldKeyID c" "c_SetOwner (controls1 c now k) = c_SetOwner c"
  "c_OwnerID (controls1 c now k) = c_OwnerID c" "c_Cookies (controls1 c now k) = c_Cookies c"
  "c_Rotate (controls1 c now k) = c_Rotate c" "c_NewKeyID (controls1 c now k) = k"
  "c_SetLabels (controls1 c now k) = c_SetLabels c" "c_Labels (controls1 c now k) = c_Labels c"
  by (simp_all add: controls1_def)

lemma commits_effect:
  assumes "commits i ls (controls0 cfg l s i ls f p cs n) now key l v v' l'"
  shows "\<exists>c. (\<exists>k. c = CApplyControls (l_SessionID l) k \<and> c_OldKeyID k = l_KeyID l \<and> (c_SetOwner k \<longrightarrow> i = Some (c_OwnerID k)))
     \<and> call_ok c v \<and> v' = call_effect c v"
    and "l_SessionID l' = l_SessionID l"
proof -
  let ?k = "controls1 (controls0 cfg l s i ls f p cs n) now key"
  have "call_ok (CApplyControls (l_SessionID l) ?k) v" "v' = call_effect (CApplyControls (l_SessionID l) ?k) v"
    using assms by (simp_all add: commits_def Let_def del: call_ok.simps call_effect.simps)
  moreover have "c_OldKeyID ?k = l_KeyID l" "c_SetOwner ?k \<longrightarrow> i = Some (c_OwnerID ?k)" by (auto split: option.splits)
  ultimately show "\<exists>c. (\<exists>k. c = CApplyControls (l_SessionID l) k \<and> c_OldKeyID k = l_KeyID l \<and> (c_SetOwner k \<longrightarrow> i = Some (c_OwnerID k)))
     \<and> call_ok c v \<and> v' = call_effect c v" by blast
  show "l_SessionID l' = l_SessionID l" using assms by (simp add: commits_def Let_def take_key_def)
qed

text \<open>The outcome of an operation on a handle, for every store.\<close>

definition well_behaved :: "('st \<Rightarrow> bool) \<Rightarrow> ('st \<Rightarrow> view) \<Rightarrow> (view \<Rightarrow> store_call \<Rightarrow> bool) \<Rightarrow> live_op
    \<Rightarrow> 'st world \<Rightarrow> Live \<Rightarrow> 'st world \<Rightarrow> Live \<Rightarrow> error option \<Rightarrow> bool" where
  "well_behaved invar obs P op w l w' l' e \<longleftrightarrow>
     sound_world invar obs P w' \<and> l_SessionID l' = l_SessionID l \<and> (e \<noteq> None \<longrightarrow> l' = l) \<and>
     effect_of P (own_call op l) (obs (w_store w)) (obs (w_store w')) (e = None)"

context store_contract
begin

lemma apply_behaved:
  assumes w: "sound_world invar obs P w" and M: "m_store M = I"
    and run: "applyControls M i ls f p cs (w, l) = ((w', l'), r)"
  shows "sound_world invar obs P w' \<and> l_SessionID l' = l_SessionID l \<and> (isl r \<longrightarrow> l' = l) \<and>
    effect_of P (\<lambda>c. \<exists>k. c = CApplyControls (l_SessionID l) k \<and> c_OldKeyID k = l_KeyID l \<and> (c_SetOwner k \<longrightarrow> i = Some (c_OwnerID k)))
      (obs (w_store w)) (obs (w_store w')) (\<not> isl r)"
proof (cases r)
  case (Inl e)
  with applyControls_outcome [OF assms] show ?thesis by (auto intro: effect_of_others)
next
  case (Inr u)
  with applyControls_outcome [OF assms] obtain sess v0 where
    w': "sound_world invar obs P w'" and v0: "others P (obs (w_store w)) v0" and
    cases: "if idle (controls0 (m_cfg M) l sess i ls f p cs (w_clock w (w_ticks w)))
      then obs (w_store w') = v0 \<and> l' = settle i ls l
      else \<exists>key v. others P v0 v \<and> commits i ls (controls0 (m_cfg M) l sess i ls f p cs (w_clock w (w_ticks w)))
        (w_clock w (w_ticks w)) key l v (obs (w_store w')) l'"
    by auto
  show ?thesis
  proof (cases "idle (controls0 (m_cfg M) l sess i ls f p cs (w_clock w (w_ticks w)))")
    case True
    with cases w' v0 Inr show ?thesis by (simp add: effect_of_others)
  next
    case False
    with cases obtain key v where v: "others P v0 v" and
      com: "commits i ls (controls0 (m_cfg M) l sess i ls f p cs (w_clock w (w_ticks w)))
        (w_clock w (w_ticks w)) key l v (obs (w_store w')) l'" by auto
    show ?thesis using w' Inr commits_effect [OF com] others_trans [OF v0 v] unfolding effect_of_def by auto
  qed
qed

lemma rotate_behaved:
  assumes w: "sound_world invar obs P w" and M: "m_store M = I"
    and run: "rotateKey M t lr (w, l) = ((w', l'), r)"
  shows "sound_world invar obs P w' \<and> l_SessionID l' = l_SessionID l \<and> (isl r \<longrightarrow> l' = l) \<and>
    effect_of P (\<lambda>c. \<exists>k. c = CApplyControls (l_SessionID l) k \<and> c_OldKeyID k = l_KeyID l \<and> \<not> c_SetOwner k)
      (obs (w_store w)) (obs (w_store w')) (\<not> isl r)"
proof -
  obtain w1 k where n: "newID w = (w1, k)" by fastforce
  note f = newID_frame [OF n]
  have w1: "sound_world invar obs P w1" using w f by (simp add: sound_world_def)
  show ?thesis
  proof (cases k)
    case (Inl e)
    with run n w1 f show ?thesis by (auto simp: rotateKey_def effect_of_others)
  next
    case (Inr key)
    obtain w2 a where a: "onStore (exec I t 0 (CApplyControls (l_SessionID l) (rotate_controls (l_KeyID l) key lr))) w1 = (w2, a)"
      by fastforce
    obtain v where v: "sound_world invar obs P w2" "others P (obs (w_store w1)) v"
      "case a of Inl _ \<Rightarrow> obs (w_store w2) = v | Inr _ \<Rightarrow> call_ok (CApplyControls (l_SessionID l) (rotate_controls (l_KeyID l) key lr)) v \<and>
         obs (w_store w2) = call_effect (CApplyControls (l_SessionID l) (rotate_controls (l_KeyID l) key lr)) v"
      using onStore_call [OF w1 a] .
    have res: "((w', l'), r) = (case a of Inl e \<Rightarrow> ((w2, l), Inl e)
        | Inr _ \<Rightarrow> ((w2, l\<lparr>l_KeyID := key, l_newKey := key, l_rewrite := True\<rparr>), Inr ()))"
      using run M n Inr a by (auto simp: rotateKey_def rotate split: sum.splits)
    have "c_OldKeyID (rotate_controls (l_KeyID l) key lr) = l_KeyID l \<and> \<not> c_SetOwner (rotate_controls (l_KeyID l) key lr)"
      by (simp add: rotate_controls_def)
    with res v f(2) show ?thesis
      by (cases a) (auto simp: effect_of_def simp del: call_ok.simps call_effect.simps)
  qed
qed

lemma run_apply_behaved:
  assumes w: "sound_world invar obs P w" and M: "m_store M = I" and l0: "l_KeyID l0 = l_KeyID l" "l_SessionID l0 = l_SessionID l"
    and run: "applyControls M i ls f p cs (w, l0) = ((w', l'), r)"
    and own: "\<And>c. own_call op l c \<longleftrightarrow> (\<exists>k. c = CApplyControls (l_SessionID l) k \<and> c_OldKeyID k = l_KeyID l \<and> (c_SetOwner k \<longrightarrow> i = Some (c_OwnerID k)))"
    and l1: "if isl r then l1 = l else l1 = l'"
  shows "well_behaved invar obs P op w l w' l1 (if isl r then Some e else None)"
  using apply_behaved [OF w M run] l1 unfolding well_behaved_def own l0 by auto

lemma onStore_session_trans:
  assumes "sound_world invar obs P w" "onStore (GetSession I sid) w = (w1, q)"
    and "well_behaved invar obs P op w1 l w' l' e"
  shows "well_behaved invar obs P op w l w' l' e"
  using assms onStore_session(2) [OF assms(1,2)] unfolding well_behaved_def by (blast intro: effect_of_trans)

lemma well_behaved_others:
  assumes "sound_world invar obs P w'" "others P (obs (w_store w)) (obs (w_store w'))"
  shows "well_behaved invar obs P op w l w' l e"
  using assms by (simp add: well_behaved_def effect_of_others)

lemma clock_sound:
  assumes "clockNow w = (w1, now)"
  shows "sound_world invar obs P w1 = sound_world invar obs P w" "w_store w1 = w_store w"
  using clockNow_frame [OF assms] by (simp_all add: sound_world_def)

lemma rotation_behaved:
  assumes w: "sound_world invar obs P w" and M: "m_store M = I"
    and run: "rotateKey M t lr (w, l) = ((w', l'), r)"
    and own: "\<And>c. own_call op l c \<longleftrightarrow> (\<exists>k. c = CApplyControls (l_SessionID l) k \<and> c_OldKeyID k = l_KeyID l \<and> \<not> c_SetOwner k)"
  shows "well_behaved invar obs P op w l w' l' (if isl r then Some e else None)"
  using rotate_behaved [OF w M run] unfolding well_behaved_def own by auto

lemma SetLabels_behaved:
  assumes w: "sound_world invar obs P w" and M: "m_store M = I" and run: "outcome (SetLabels M ls (w, l)) = ((w', l'), e)"
  shows "well_behaved invar obs P (LSetLabels ls) w l w' l' e"
proof -
  obtain w1 q where g: "onStore (GetSession I (l_SessionID l)) w = (w1, q)" by fastforce
  note s1 = onStore_session [OF w g]
  show ?thesis
  proof (cases q)
    case (Inl x)
    with run g M s1 show ?thesis by (auto simp: SetLabels_def outcome_def intro: well_behaved_others)
  next
    case (Inr sess)
    obtain w2 l2 r where a: "applyControls M None (Some ls) False False [] (w1, l) = ((w2, l2), r)"
      by (metis surj_pair)
    have "w' = w2" "l' = l2" "e = (if isl r then Some (projl r) else None)"
      using run g M Inr a by (auto simp: SetLabels_def outcome_def andThen_def split: sum.splits)
    with run_apply_behaved [OF s1(1) M refl refl a, of "LSetLabels ls" l2 "projl r"] apply_behaved [OF s1(1) M a]
    show ?thesis by (auto intro: onStore_session_trans [OF w g])
  qed
qed

lemma BindOwner_behaved:
  assumes w: "sound_world invar obs P w" and M: "m_store M = I" and run: "outcome (BindOwner M i (w, l)) = ((w', l'), e)"
  shows "well_behaved invar obs P (LBindOwner i) w l w' l' e"
proof (cases "i \<le> 0")
  case True
  with run w show ?thesis by (auto simp: BindOwner_def outcome_def intro!: well_behaved_others)
next
  case pos: False
  obtain w1 q where g: "onStore (GetSession I (l_SessionID l)) w = (w1, q)" by fastforce
  note s1 = onStore_session [OF w g]
  show ?thesis
  proof (cases q)
    case (Inl x)
    with run g M s1 pos show ?thesis by (auto simp: BindOwner_def outcome_def intro: well_behaved_others)
  next
    case (Inr sess)
    define l0 where "l0 = (if i \<noteq> s_OwnerID sess \<and> RotateOnLogin (m_cfg M) \<and> l_rewrite l
      then l\<lparr>l_rewrite := False, l_newKey := []\<rparr> else l)"
    have l0: "l_KeyID l0 = l_KeyID l" "l_SessionID l0 = l_SessionID l"
      and restored: "l0\<lparr>l_rewrite := l_rewrite l, l_newKey := l_newKey l\<rparr> = l" by (simp_all add: l0_def)
    obtain w2 l2 r where a: "applyControls M (Some i) None False False [] (w1, l0) = ((w2, l2), r)"
      by (metis surj_pair)
    have "w' = w2" "e = (if isl r then Some (projl r) else None)"
      "if isl r then l' = l2\<lparr>l_rewrite := l_rewrite l, l_newKey := l_newKey l\<rparr> else l' = l2"
      using run g M Inr a pos by (auto simp: BindOwner_def outcome_def Let_def l0_def split: sum.splits)
    moreover have "isl r \<longrightarrow> l2 = l0" using apply_behaved [OF s1(1) M a] by blast
    ultimately show ?thesis
      using run_apply_behaved [OF s1(1) M l0 a, of "LBindOwner i" l' "projl r"] pos restored
      by (auto intro: onStore_session_trans [OF w g])
  qed
qed

lemma Revoke_behaved:
  assumes w: "sound_world invar obs P w" and M: "m_store M = I" and run: "outcome (Revoke M (w, l)) = ((w', l'), e)"
  shows "well_behaved invar obs P LRevoke w l w' l' e"
proof -
  obtain w1 q where d: "onStore (exec I 0 0 (CDeleteSession (l_SessionID l))) w = (w1, q)" by fastforce
  obtain v where "sound_world invar obs P w1" "others P (obs (w_store w)) v"
    "case q of Inl _ \<Rightarrow> obs (w_store w1) = v | Inr _ \<Rightarrow> call_ok (CDeleteSession (l_SessionID l)) v \<and>
       obs (w_store w1) = call_effect (CDeleteSession (l_SessionID l)) v"
    using onStore_call [OF w d] .
  with run d M show ?thesis
    by (cases q) (auto simp: Revoke_def outcome_def well_behaved_def effect_of_def simp del: call_ok.simps call_effect.simps)
qed

lemma MaybeRotate_behaved:
  assumes w: "sound_world invar obs P w" and M: "m_store M = I" and run: "outcome (MaybeRotate M (w, l)) = ((w', l'), e)"
  shows "well_behaved invar obs P LMaybeRotate w l w' l' e"
proof (cases "\<not> l_rotateDue l \<or> l_rewrite l")
  case True
  with run w show ?thesis by (auto simp: MaybeRotate_def outcome_def intro!: well_behaved_others)
next
  case due: False
  obtain w0 now where c: "clockNow w = (w0, now)" by fastforce
  obtain w1 q where g: "onStore (GetSession I (l_SessionID l)) w0 = (w1, q)" by fastforce
  have w0: "sound_world invar obs P w0" "w_store w0 = w_store w" using w clock_sound [OF c] by simp_all
  note s1 = onStore_session [OF w0(1) g]
  show ?thesis
  proof (cases "\<exists>sess. q = Inr sess \<and> \<not> i64 (now - s_LastRotation sess) < seconds_of (RotateInterval (m_cfg M))")
    case False
    with run g M s1 due c w0 show ?thesis
      by (cases q) (auto simp: MaybeRotate_def outcome_def intro: well_behaved_others split: if_splits)
  next
    case True
    then obtain sess where Inr: "q = Inr sess" "\<not> i64 (now - s_LastRotation sess) < seconds_of (RotateInterval (m_cfg M))" by blast
    obtain w2 l2 r where a: "rotateKey M (ttl_of sess now) now (w1, l) = ((w2, l2), r)" by (metis surj_pair)
    have "w' = w2" "l' = l2" "e = (if isl r then Some (projl r) else None)"
      using run g M Inr a due c by (auto simp: MaybeRotate_def outcome_def split: sum.splits)
    with rotation_behaved [OF s1(1) M a, of LMaybeRotate "projl r"]
    have "well_behaved invar obs P LMaybeRotate w0 l w' l' e"
      by (intro onStore_session_trans [OF w0(1) g]) auto
    with w0(2) show ?thesis by (simp add: well_behaved_def)
  qed
qed

lemma ForceRotate_behaved:
  assumes w: "sound_world invar obs P w" and M: "m_store M = I" and run: "outcome (ForceRotate M (w, l)) = ((w', l'), e)"
  shows "well_behaved invar obs P LForceRotate w l w' l' e"
proof (cases "l_rewrite l")
  case True
  with run w show ?thesis by (auto simp: ForceRotate_def outcome_def intro!: well_behaved_others)
next
  case due: False
  obtain w0 now where c: "clockNow w = (w0, now)" by fastforce
  obtain w1 q where g: "onStore (GetSession I (l_SessionID l)) w0 = (w1, q)" by fastforce
  have w0: "sound_world invar obs P w0" "w_store w0 = w_store w" using w clock_sound [OF c] by simp_all
  note s1 = onStore_session [OF w0(1) g]
  show ?thesis
  proof (cases q)
    case (Inl x)
    with run g M s1 due c w0 show ?thesis by (auto simp: ForceRotate_def outcome_def intro: well_behaved_others)
  next
    case (Inr sess)
    obtain w2 l2 r where a: "rotateKey M (ttl_of sess now) now (w1, l) = ((w2, l2), r)" by (metis surj_pair)
    have "w' = w2" "l' = l2" "e = (if isl r then Some (projl r) else None)"
      using run g M Inr a due c by (auto simp: ForceRotate_def outcome_def split: sum.splits)
    with rotation_behaved [OF s1(1) M a, of LForceRotate "projl r"]
    have "well_behaved invar obs P LForceRotate w0 l w' l' e"
      by (intro onStore_session_trans [OF w0(1) g]) auto
    with w0(2) show ?thesis by (simp add: well_behaved_def)
  qed
qed

lemma run_live_behaved:
  assumes w: "sound_world invar obs P w" and M: "m_store M = I" and run: "run_live M op (w, l) = ((w', l'), e)"
  shows "well_behaved invar obs P op w l w' l' e"
proof (cases op)
  case (LApply i ls f p cs)
  obtain w2 l2 r where a: "applyControls M i ls f p cs (w, l) = ((w2, l2), r)" by (metis surj_pair)
  have "w' = w2" "l' = l2" "e = (if isl r then Some (projl r) else None)"
    using run LApply a by (auto simp: outcome_def split: sum.splits)
  with run_apply_behaved [OF w M refl refl a, of op l2 "projl r"] apply_behaved [OF w M a] LApply
  show ?thesis by auto
qed (use assms in \<open>auto intro: SetLabels_behaved BindOwner_behaved MaybeRotate_behaved ForceRotate_behaved Revoke_behaved\<close>)

text \<open>A handle whose key was rotated away cannot change anything, and no operation brings back a
  revoked session.\<close>

lemma dead_handle:
  assumes w: "sound_world invar obs P w" and M: "m_store M = I" and run: "run_live M op (w, l) = ((w', l'), e)"
    and op: "op \<noteq> LRevoke" and dead: "v_key (obs (w_store w)) (l_KeyID l) = None"
    and P: "\<And>v c. P v c \<Longrightarrow> \<not> mints (l_KeyID l) c"
  shows "others P (obs (w_store w)) (obs (w_store w'))"
proof -
  obtain u where u: "others P (obs (w_store w)) u"
    and "obs (w_store w') = u \<or> (\<exists>c. own_call op l c \<and> call_ok c u \<and> obs (w_store w') = call_effect c u)"
    using run_live_behaved [OF w M run] unfolding well_behaved_def effect_of_def by blast
  moreover have "\<not> call_ok c u" if "own_call op l c" for c
    using that op others_dead_key [OF u dead P] by (cases op) auto
  ultimately show ?thesis by blast
qed

lemma Revoke_gone:
  assumes w: "sound_world invar obs P w" and M: "m_store M = I" and run: "run_live M LRevoke (w, l) = ((w', l'), None)"
    and v: "no_orphans (obs (w_store w))"
  shows "no_orphans (obs (w_store w')) \<and> gone (l_SessionID l) (obs (w_store w'))"
proof -
  obtain w1 q where d: "onStore (exec I 0 0 (CDeleteSession (l_SessionID l))) w = (w1, q)" by fastforce
  obtain v where v': "others P (obs (w_store w)) v"
    "case q of Inl _ \<Rightarrow> obs (w_store w1) = v | Inr _ \<Rightarrow> call_ok (CDeleteSession (l_SessionID l)) v \<and>
       obs (w_store w1) = call_effect (CDeleteSession (l_SessionID l)) v"
    using onStore_call [OF w d] .
  have "w' = w1" "\<not> isl q" using run d M by (auto simp: Revoke_def outcome_def split: sum.splits)
  with v' have "obs (w_store w') = call_effect (CDeleteSession (l_SessionID l)) v" by (cases q) auto
  moreover have "no_orphans v"
    using others_keeps [OF v'(1), of no_orphans, OF v] vstep_no_orphans by blast
  ultimately have "no_orphans (obs (w_store w'))" "v_session (obs (w_store w')) (l_SessionID l) = None"
    using no_orphans_call [of "CDeleteSession (l_SessionID l)" v] by (auto simp: spec_delete_def)
  then show ?thesis by (simp add: no_orphans_gone)
qed

lemma stays_gone:
  assumes w: "sound_world invar obs P w" and M: "m_store M = I" and run: "run_live M op (w, l) = ((w', l'), e)"
    and v: "no_orphans (obs (w_store w))" "gone sid (obs (w_store w))"
    and P: "\<And>v c. P v c \<Longrightarrow> \<not> creates sid c"
  shows "no_orphans (obs (w_store w')) \<and> gone sid (obs (w_store w'))"
proof -
  obtain u where u: "others P (obs (w_store w)) u"
    and own: "obs (w_store w') = u \<or> (\<exists>c. own_call op l c \<and> call_ok c u \<and> obs (w_store w') = call_effect c u)"
    using run_live_behaved [OF w M run] unfolding well_behaved_def effect_of_def by blast
  note g = others_gone [OF u v P]
  have "\<not> creates sid c" if "own_call op l c" for c using that by (cases op) auto
  with own g have "no_orphans (obs (w_store w')) \<and> v_session (obs (w_store w')) sid = None"
    using no_orphans_call absent_call by (auto simp: gone_def)
  then show ?thesis by (simp add: no_orphans_gone)
qed

end

section \<open>Whole requests\<close>

text \<open>The manager operations of a request, and running a sequence of them; \<open>request_ok\<close> says that the id
  a new session draws is unused and that owner identifiers are positive.\<close>

datatype request =
    RBegin
  | RResolve string
  | RLive live_op Live
  | RRevokeOwner int64

fun serve :: "'st Manager \<Rightarrow> request \<Rightarrow> 'st world \<Rightarrow> 'st world" where
  "serve M RBegin w = fst (Begin M w)"
| "serve M (RResolve key) w = fst (Resolve M key w)"
| "serve M (RLive op l) w = fst (fst (run_live M op (w, l)))"
| "serve M (RRevokeOwner i) w = fst (RevokeOwner M i w)"

fun request_ok :: "('st \<Rightarrow> view) \<Rightarrow> (view \<Rightarrow> store_call \<Rightarrow> bool) \<Rightarrow> request \<Rightarrow> 'st world \<Rightarrow> bool" where
  "request_ok obs P RBegin w \<longleftrightarrow> v_session (obs (w_store w)) (RawURLEncode (take 32 (w_rng w))) = None \<and>
     (\<forall>v c. P v c \<longrightarrow> \<not> creates (RawURLEncode (take 32 (w_rng w))) c)"
| "request_ok obs P (RLive op l) w \<longleftrightarrow> (\<forall>i. owner_arg op = Some i \<longrightarrow> 0 < i)"
| "request_ok obs P _ w \<longleftrightarrow> True"

inductive served :: "'st Manager \<Rightarrow> ('st \<Rightarrow> view) \<Rightarrow> (view \<Rightarrow> store_call \<Rightarrow> bool) \<Rightarrow> 'st world \<Rightarrow> 'st world \<Rightarrow> bool"
  for M obs P where
  idle_world: "served M obs P w w"
| request: "served M obs P w w' \<Longrightarrow> request_ok obs P rq w' \<Longrightarrow> served M obs P w (serve M rq w')"

definition manager_inv :: "view \<Rightarrow> bool" where
  "manager_inv v \<longleftrightarrow> no_orphans v \<and> owner_index_ok v"

lemma managed_keeps: "manager_inv v \<Longrightarrow> managed c v \<Longrightarrow> vstep v c v' \<Longrightarrow> manager_inv v'"
  by (auto simp: manager_inv_def elim!: vstepE intro: no_orphans_call owner_index_call)

lemma own_call_managed: "own_call op l c \<Longrightarrow> \<forall>i. owner_arg op = Some i \<longrightarrow> 0 < i \<Longrightarrow> managed c v"
  by (cases op) auto

context store_contract
begin

lemma query_keeps:
  assumes "queries invar obs f Q" "sound_world invar obs P w" "onStore f w = (w', r)"
    and J: "J (obs (w_store w))" "\<And>v c v'. J v \<Longrightarrow> P v c \<Longrightarrow> vstep v c v' \<Longrightarrow> J v'"
  shows "sound_world invar obs P w' \<and> J (obs (w_store w'))"
  using onStore_queries [OF assms(1-3)] others_keeps [of P _ _ J] J by blast

lemma call_keeps:
  assumes "sound_world invar obs P w" "onStore (exec I t t' c) w = (w', r)"
    and J: "J (obs (w_store w))" "\<And>v c v'. J v \<Longrightarrow> P v c \<Longrightarrow> vstep v c v' \<Longrightarrow> J v'"
    and own: "\<And>v. J v \<Longrightarrow> call_ok c v \<Longrightarrow> J' (call_effect c v)" "\<And>v. J v \<Longrightarrow> J' v"
  shows "sound_world invar obs P w' \<and> J' (obs (w_store w'))"
proof -
  obtain v where v: "sound_world invar obs P w'" "others P (obs (w_store w)) v"
    "case r of Inl _ \<Rightarrow> obs (w_store w') = v | Inr _ \<Rightarrow> call_ok c v \<and> obs (w_store w') = call_effect c v"
    using onStore_call [OF assms(1,2)] .
  have "J v" by (rule others_keeps [OF v(2), of J, OF J])
  with v(1,3) own show ?thesis by (cases r) auto
qed

lemma call_managed:
  assumes "sound_world invar obs P w" "onStore (exec I t t' c) w = (w', r)" "manager_inv (obs (w_store w))"
    and P: "\<And>v c. P v c \<Longrightarrow> managed c v" and c: "\<And>v. managed c v"
  shows "sound_world invar obs P w' \<and> manager_inv (obs (w_store w'))"
proof (rule call_keeps [where J = manager_inv and J' = manager_inv, OF assms(1-3)])
  show "manager_inv v'" if "manager_inv v" "P v c" "vstep v c v'" for v c v'
    using managed_keeps [OF that(1) P [OF that(2)] that(3)] .
  show "manager_inv (call_effect c v)" if "manager_inv v" "call_ok c v" for v
    using managed_keeps [OF that(1) c] that(2) by (blast intro: vstep.effective)
qed

lemma query_managed:
  assumes "queries invar obs f Q" "sound_world invar obs P w" "onStore f w = (w', r)" "manager_inv (obs (w_store w))"
    and P: "\<And>v c. P v c \<Longrightarrow> managed c v"
  shows "sound_world invar obs P w' \<and> manager_inv (obs (w_store w'))"
proof (rule query_keeps [where J = manager_inv, OF assms(1-4)])
  show "manager_inv v'" if "manager_inv v" "P v c" "vstep v c v'" for v c v'
    using managed_keeps [OF that(1) P [OF that(2)] that(3)] .
qed

lemma Begin_keeps:
  assumes w: "sound_world invar obs P w" "manager_inv (obs (w_store w))" and M: "m_store M = I"
    and P: "\<And>v c. P v c \<Longrightarrow> managed c v" and ok: "request_ok obs P RBegin w" and run: "Begin M w = (w', r)"
  shows "sound_world invar obs P w' \<and> manager_inv (obs (w_store w'))"
proof -
  define now w0 where "now = w_clock w (w_ticks w)" and "w0 = w\<lparr>w_ticks := Suc (w_ticks w)\<rparr>"
  have c: "clockNow w = (w0, now)" by (simp add: clockNow_def w0_def now_def)
  show ?thesis
  proof (cases "length (w_rng w) < 64")
    case True
    then have "w_store w' = w_store w" "w_env w' = w_env w"
      using run c by (auto simp: Begin_def newID_def w0_def split: if_splits)
    with w show ?thesis by (simp add: sound_world_def)
  next
    case False
    define sid key where "sid = RawURLEncode (take 32 (w_rng w))" and "key = RawURLEncode (take 32 (drop 32 (w_rng w)))"
    define w1 where "w1 = w0\<lparr>w_rng := drop 32 (drop 32 (w_rng w))\<rparr>"
    define row where "row = \<lparr>s_ID = sid, s_Creation = now, s_LastAccess = now, s_InactiveTimeout = seconds_of (Inactive (m_cfg M)),
      s_FinalTimeout = seconds_of (Final (m_cfg M)), s_OwnerID = 0, s_LastRotation = now, s_Labels = []\<rparr>"
    define t where "t = ttl_of row now"
    have w1: "sound_world invar obs P w1" "obs (w_store w1) = obs (w_store w)" using w by (simp_all add: w1_def w0_def sound_world_def)
    obtain w2 r2 where p2: "onStore (exec I t t (CPutSession row)) w1 = (w2, r2)" by fastforce
    have w2: "sound_world invar obs P w2 \<and> manager_inv (obs (w_store w2))"
    proof (rule call_keeps [OF w1(1) p2, where J = "\<lambda>v. manager_inv v \<and> v_session v sid = None"])
      show "manager_inv (obs (w_store w1)) \<and> v_session (obs (w_store w1)) sid = None" using w(2) ok w1(2) by (simp add: sid_def)
      show "manager_inv v' \<and> v_session v' sid = None"
        if "manager_inv v \<and> v_session v sid = None" "P v c" "vstep v c v'" for v c v'
      proof -
        have "\<not> creates sid c" using ok that(2) by (simp add: sid_def)
        then show ?thesis using that managed_keeps [of v c v'] P by (auto elim!: vstepE intro: absent_call)
      qed
      show "manager_inv (call_effect (CPutSession row) v)" if "manager_inv v \<and> v_session v sid = None" for v
        using that managed_keeps [of v "CPutSession row"] vstep.effective [of "CPutSession row" v] by (simp add: row_def)
    qed blast
    obtain w3 r3 where p3: "onStore (exec I t t (CPutKey key sid)) w2 = (w3, r3)" by fastforce
    have w3: "sound_world invar obs P w3 \<and> manager_inv (obs (w_store w3))"
      using call_managed [OF conjunct1 [OF w2] p3 conjunct2 [OF w2]] P by auto
    define wd where "wd = w0\<lparr>w_rng := drop 32 (w_rng w)\<rparr>"
    have n: "newID w0 = (wd, Inr sid)" "newID wd = (w1, Inr key)"
      using False by (simp_all add: newID_def w0_def wd_def w1_def sid_def key_def)
    have "w' = (if isl r2 then w2 else w3)"
      using run p2 p3 unfolding Begin_def c Let_def prod.case n andThen_simps M row_def [symmetric] t_def [symmetric] exec.simps
      by (cases r2; cases r3) auto
    with w2 w3 show ?thesis by simp
  qed
qed

lemma resolve_live_keeps:
  assumes w: "sound_world invar obs P w" "manager_inv (obs (w_store w))" and M: "m_store M = I"
    and P: "\<And>v c. P v c \<Longrightarrow> managed c v" and run: "resolve_live M key sid s now w = (w', r)"
  shows "sound_world invar obs P w' \<and> manager_inv (obs (w_store w'))"
proof -
  define lr where "lr = (if 0 < RotateInterval (m_cfg M) \<and> s_LastRotation s = 0 then now else s_LastRotation s)"
  define t where "t = ttl_of (s\<lparr>s_LastRotation := lr, s_LastAccess := now\<rparr>) now"
  have sess: "(if 0 < RotateInterval (m_cfg M) \<and> s_LastRotation s = 0 then s\<lparr>s_LastRotation := now\<rparr> else s)\<lparr>s_LastAccess := now\<rparr>
      = s\<lparr>s_LastRotation := lr, s_LastAccess := now\<rparr>" by (simp add: lr_def)
  obtain w1 q1 where p1: "onStore (exec I t t (CTouchSession sid key now lr)) w = (w1, q1)" by fastforce
  have w1: "sound_world invar obs P w1 \<and> manager_inv (obs (w_store w1))"
    by (rule call_managed [OF w(1) p1 w(2)]) (simp_all add: P)
  obtain w2 q2 where p2: "onStore (GetCookies I sid) w1 = (w2, q2)" by fastforce
  have w2: "sound_world invar obs P w2 \<and> manager_inv (obs (w_store w2))"
    by (rule query_managed [OF get_cookies conjunct1 [OF w1] p2 conjunct2 [OF w1]]) (rule P)
  obtain w3 q3 where p3: "onStore (CookieSHAs I sid) w2 = (w3, q3)" by fastforce
  have w3: "sound_world invar obs P w3 \<and> manager_inv (obs (w_store w3))"
    by (rule query_managed [OF get_shas conjunct1 [OF w2] p3 conjunct2 [OF w2]]) (rule P)
  have "w' = (if isl q1 then w1 else if isl q2 then w2 else w3)"
    using run p1 p2 p3 M unfolding resolve_live_def Let_def sess
    by (auto simp: andThen_def t_def split: sum.splits)
  with w1 w2 w3 show ?thesis by auto
qed

lemma Resolve_keeps:
  assumes w: "sound_world invar obs P w" "manager_inv (obs (w_store w))" and M: "m_store M = I"
    and P: "\<And>v c. P v c \<Longrightarrow> managed c v" and run: "Resolve M key w = (w', r)"
  shows "sound_world invar obs P w' \<and> manager_inv (obs (w_store w'))"
proof -
  obtain w1 q1 where k: "onStore (GetKey I key) w = (w1, q1)" by fastforce
  have w1: "sound_world invar obs P w1 \<and> manager_inv (obs (w_store w1))"
    by (rule query_managed [OF get_key w(1) k w(2)]) (rule P)
  show ?thesis
  proof (cases q1)
    case (Inl e)
    with run k M w1 show ?thesis by (auto simp: Resolve_def)
  next
    case q1: (Inr sid)
    obtain w2 q2 where g: "onStore (GetSession I sid) w1 = (w2, q2)" by fastforce
    have w2: "sound_world invar obs P w2 \<and> manager_inv (obs (w_store w2))"
      by (rule query_managed [OF get_session conjunct1 [OF w1] g conjunct2 [OF w1]]) (rule P)
    show ?thesis
    proof (cases q2)
      case (Inl e)
      with run k g M q1 w2 show ?thesis by (auto simp: Resolve_def)
    next
      case q2: (Inr s)
      obtain w3 now where c: "clockNow w2 = (w3, now)" by fastforce
      have w3: "sound_world invar obs P w3" "manager_inv (obs (w_store w3))" using w2 clock_sound [OF c] by simp_all
      show ?thesis
      proof (cases "expired s now")
        case True
        obtain w4 q4 where d: "onStore (exec I 0 0 (CDeleteSession sid)) w3 = (w4, q4)" by fastforce
        have "sound_world invar obs P w4 \<and> manager_inv (obs (w_store w4))"
          by (rule call_managed [OF w3(1) d w3(2)]) (simp_all add: P)
        with run k g M q1 q2 c d True show ?thesis by (auto simp: Resolve_def)
      next
        case False
        with run k g M q1 q2 c have "resolve_live M key sid s now w3 = (w', r)" by (simp add: Resolve_def)
        from resolve_live_keeps [OF w3 M P this] show ?thesis .
      qed
    qed
  qed
qed

lemma revoke_loop_keeps:
  assumes P: "\<And>v c. P v c \<Longrightarrow> managed c v"
  shows "sound_world invar obs P w \<Longrightarrow> manager_inv (obs (w_store w)) \<Longrightarrow> revoke_loop I i sids e w = (w', e') \<Longrightarrow>
    sound_world invar obs P w' \<and> manager_inv (obs (w_store w'))"
proof (induction sids arbitrary: e w)
  case (Cons sid sids)
  obtain w1 q where d: "onStore (DeleteSessionByOwner I i sid) w = (w1, q)" by fastforce
  then have d': "onStore (exec I 0 0 (CDeleteByOwner i sid)) w = (w1, case q of Inl x \<Rightarrow> Inl x | Inr _ \<Rightarrow> Inr ())"
    by (auto simp: onStore_def andThen_def split: prod.splits sum.splits)
  have w1: "sound_world invar obs P w1 \<and> manager_inv (obs (w_store w1))"
    by (rule call_managed [OF Cons.prems(1) d' Cons.prems(2)]) (simp_all add: P)
  show ?case
    using Cons.prems(3) d Cons.IH [OF conjunct1 [OF w1] conjunct2 [OF w1]] by (cases q) auto
qed simp

lemma RevokeOwner_keeps:
  assumes w: "sound_world invar obs P w" "manager_inv (obs (w_store w))" and M: "m_store M = I"
    and P: "\<And>v c. P v c \<Longrightarrow> managed c v" and run: "RevokeOwner M i w = (w', r)"
  shows "sound_world invar obs P w' \<and> manager_inv (obs (w_store w'))"
proof -
  obtain w1 q where g: "onStore (OwnerSessions I i) w = (w1, q)" by fastforce
  have w1: "sound_world invar obs P w1 \<and> manager_inv (obs (w_store w1))"
    by (rule query_managed [OF owner_sessions w(1) g w(2)]) (rule P)
  show ?thesis
  proof (cases q)
    case (Inl e)
    with run g M w1 show ?thesis by (auto simp: RevokeOwner_def)
  next
    case (Inr sids)
    obtain w2 e where l: "revoke_loop I i sids None w1 = (w2, e)" by fastforce
    with run g M Inr have "w' = w2" by (auto simp: RevokeOwner_def split: option.splits)
    with revoke_loop_keeps [OF P conjunct1 [OF w1] conjunct2 [OF w1] l] show ?thesis by blast
  qed
qed

lemma run_live_keeps:
  assumes w: "sound_world invar obs P w" "manager_inv (obs (w_store w))" and M: "m_store M = I"
    and P: "\<And>v c. P v c \<Longrightarrow> managed c v" and op: "\<forall>i. owner_arg op = Some i \<longrightarrow> 0 < i"
    and run: "run_live M op (w, l) = ((w', l'), e)"
  shows "sound_world invar obs P w' \<and> manager_inv (obs (w_store w'))"
proof -
  from run_live_behaved [OF w(1) M run] obtain u where w': "sound_world invar obs P w'" and u: "others P (obs (w_store w)) u"
    and own: "obs (w_store w') = u \<or> (\<exists>c. own_call op l c \<and> call_ok c u \<and> obs (w_store w') = call_effect c u)"
    unfolding well_behaved_def effect_of_def by blast
  have "manager_inv u"
    by (rule others_keeps [OF u, of manager_inv, OF w(2)]) (blast intro: managed_keeps P)
  then have "manager_inv (obs (w_store w'))"
    using own own_call_managed [OF _ op] managed_keeps vstep.effective by metis
  with w' show ?thesis by blast
qed

lemma served_keeps:
  assumes "served M obs P w w'" and w: "sound_world invar obs P w" "manager_inv (obs (w_store w))"
    and M: "m_store M = I" and P: "\<And>v c. P v c \<Longrightarrow> managed c v"
  shows "sound_world invar obs P w' \<and> manager_inv (obs (w_store w'))"
  using assms(1) w
proof (induction rule: served.induct)
  case (request w w' rq)
  then have w': "sound_world invar obs P w'" "manager_inv (obs (w_store w'))" by blast+
  show ?case
  proof (cases rq)
    case RBegin
    with request.hyps(2) Begin_keeps [OF w' M P] show ?thesis by (metis prod.collapse serve.simps(1))
  next
    case (RResolve key)
    with Resolve_keeps [OF w' M P] show ?thesis by (metis prod.collapse serve.simps(2))
  next
    case (RLive op l)
    obtain w2 l2 e where r: "run_live M op (w', l) = ((w2, l2), e)" by (metis surj_pair)
    from RLive request.hyps(2) have "\<forall>i. owner_arg op = Some i \<longrightarrow> 0 < i" by simp
    from run_live_keeps [OF w' M P this r] RLive r show ?thesis by simp
  next
    case (RRevokeOwner i)
    with RevokeOwner_keeps [OF w' M P] show ?thesis by (metis prod.collapse serve.simps(4))
  qed
qed blast

end

end
