(* ===== verification/Manager_Exact.thy ===== *)
theory Manager_Exact
  imports Manager_Laws
begin

text \<open>
  The session manager without interference, over a store that only fails for the documented reasons:
  what each operation returns and does on every branch, as functions of the observable state.
\<close>

section \<open>Specifications on the observable state\<close>

definition apply_spec :: "Config \<Rightarrow> int64 option \<Rightarrow> string list option \<Rightarrow> bool \<Rightarrow> bool \<Rightarrow> CookieMut list \<Rightarrow> int64 \<Rightarrow> string
    \<Rightarrow> view \<Rightarrow> Live \<Rightarrow> view \<times> Live \<times> (error + unit)" where
  "apply_spec cfg ownerID labels force periodic cookies now rng v l =
     (case v_session v (l_SessionID l) of
        None \<Rightarrow> (v, l, Inl ErrNotFound)
      | Some s \<Rightarrow>
          let c0 = controls0 cfg l s ownerID labels force periodic cookies now;
              key = (if c_Rotate c0 then RawURLEncode (take 32 rng) else l_KeyID l);
              c = controls1 c0 now key
          in if idle c0 then (v, settle ownerID labels l, Inr ())
             else if c_Rotate c0 \<and> length rng < 32 then (v, l, Inl ErrRandom)
             else if v_key v (l_KeyID l) \<noteq> Some (l_SessionID l) \<or> c_Rotate c0 \<and> v_key v key \<noteq> None
                  then (v, l, Inl ErrConflict)
             else (spec_controls (l_SessionID l) c s v,
                   take_key c (fold cache_cookie (c_Cookies c) (settle ownerID labels l)), Inr ()))"

definition new_row :: "Config \<Rightarrow> string \<Rightarrow> int64 \<Rightarrow> Session" where
  "new_row cfg sid now = \<lparr>s_ID = sid, s_Creation = now, s_LastAccess = now,
     s_InactiveTimeout = seconds_of (Inactive cfg), s_FinalTimeout = seconds_of (Final cfg),
     s_OwnerID = 0, s_LastRotation = now, s_Labels = []\<rparr>"

definition begin_spec :: "Config \<Rightarrow> int64 \<Rightarrow> string \<Rightarrow> view \<Rightarrow> view \<times> (error + Live)" where
  "begin_spec cfg now rng v =
     (if length rng < 64 then (v, Inl ErrRandom)
      else let sid = RawURLEncode (take 32 rng); key = RawURLEncode (take 32 (drop 32 rng))
           in (v\<lparr>v_session := (v_session v)(sid \<mapsto> new_row cfg sid now), v_key := (v_key v)(key \<mapsto> sid)\<rparr>,
               Inr \<lparr>l_KeyID = key, l_SessionID = sid, l_OwnerID = 0, l_Cookies = [], l_Labels = [],
                    l_shas = [], l_newKey = key, l_rewrite = True, l_rotateDue = False\<rparr>))"

definition resolve_spec :: "Config \<Rightarrow> string \<Rightarrow> int64 \<Rightarrow> view \<Rightarrow> view \<times> (string \<times> Session \<times> bool) option" where
  "resolve_spec cfg key now v =
     (case v_key v key of
        None \<Rightarrow> (v, None)
      | Some sid \<Rightarrow>
          (case v_session v sid of
             None \<Rightarrow> (v, None)
           | Some s \<Rightarrow>
               if expired s now then (spec_delete sid v, None)
               else let start = (0 < RotateInterval cfg \<and> s_LastRotation s = 0);
                        lr = (if start then now else s_LastRotation s);
                        due = (0 < RotateInterval cfg \<and> \<not> start
                               \<and> seconds_of (RotateInterval cfg) \<le> i64 (now - s_LastRotation s))
                    in (v\<lparr>v_session := (v_session v)(sid \<mapsto> spec_touch now lr s)\<rparr>, Some (sid, s, due))))"

text \<open>The handle \<open>Resolve\<close> returns shows the persisted row and caches.\<close>

definition shows_session :: "string \<Rightarrow> view \<Rightarrow> string \<times> Session \<times> bool \<Rightarrow> Live \<Rightarrow> bool" where
  "shows_session key v = (\<lambda>(sid, s, due) l.
     l_KeyID l = key \<and> l_SessionID l = sid \<and> l_OwnerID l = s_OwnerID s \<and> l_Labels l = Fields (s_Labels s) \<and>
     mget (l_Cookies l) = v_cookie v sid \<and> mget (l_shas l) = v_sha v sid \<and>
     \<not> l_rewrite l \<and> l_rotateDue l = due)"

section \<open>Calls without interference\<close>

definition moves :: "('st \<Rightarrow> bool) \<Rightarrow> ('st \<Rightarrow> view) \<Rightarrow> 'st world \<Rightarrow> 'st world \<Rightarrow> view \<Rightarrow> bool" where
  "moves invar obs w w' v \<longleftrightarrow> invar (w_store w') \<and> obs (w_store w') = v \<and> quiet w' \<and>
     w_rng w' = w_rng w \<and> w_clock w' = w_clock w \<and> w_ticks w' = w_ticks w"

lemma onStore_quiet:
  assumes "quiet w" "f (w_store w) = (st', r)"
  shows "onStore f w = (w\<lparr>w_store := st', w_calls := Suc (w_calls w)\<rparr>, r)"
  using assms by (simp add: onStore_def quiet_def)

lemma quiet_updates [simp]:
  "quiet (w\<lparr>w_store := st, w_calls := n\<rparr>) = quiet w" "quiet (w\<lparr>w_ticks := k\<rparr>) = quiet w" "quiet (w\<lparr>w_rng := s\<rparr>) = quiet w"
  by (simp_all add: quiet_def)

lemma quiet_moves:
  assumes "quiet w" "f (w_store w) = (st', r)" "invar st'" "obs st' = v"
  shows "\<exists>w'. moves invar obs w w' v \<and> onStore f w = (w', r)"
  using assms onStore_quiet [where f = f, OF assms(1,2)] by (auto simp: moves_def)

context exact_store
begin

lemma quiet_call:
  assumes "quiet w" "invar (w_store w)"
  obtains w' where "moves invar obs w w' (if call_ok c (obs (w_store w)) then call_effect c (obs (w_store w)) else obs (w_store w))"
    and "onStore (exec I t t' c) w = (w', if call_ok c (obs (w_store w)) then Inr () else Inl (call_error c (obs (w_store w))))"
proof -
  obtain st' where st: "invar st'"
    "exec I t t' c (w_store w) = (st', if call_ok c (obs (w_store w)) then Inr () else Inl (call_error c (obs (w_store w))))"
    "obs st' = (if call_ok c (obs (w_store w)) then call_effect c (obs (w_store w)) else obs (w_store w))"
    using call_total [OF assms(2)] .
  show ?thesis using quiet_moves [where f = "exec I t t' c" and invar = invar and obs = obs, OF assms(1) st(2,1,3)] that by blast
qed

lemma quiet_session:
  assumes "quiet w" "invar (w_store w)"
  obtains w' where "moves invar obs w w' (obs (w_store w))"
    and "onStore (GetSession I sid) w = (w', case v_session (obs (w_store w)) sid of None \<Rightarrow> Inl ErrNotFound | Some s \<Rightarrow> Inr s)"
proof -
  obtain st' where st: "invar st'" "obs st' = obs (w_store w)"
    "GetSession I sid (w_store w) = (st', case v_session (obs (w_store w)) sid of None \<Rightarrow> Inl ErrNotFound | Some s \<Rightarrow> Inr s)"
    using session_value [OF assms(2)] .
  show ?thesis using quiet_moves [where f = "GetSession I sid" and invar = invar and obs = obs, OF assms(1) st(3,1,2)] that by blast
qed

lemma quiet_key:
  assumes "quiet w" "invar (w_store w)"
  obtains w' where "moves invar obs w w' (obs (w_store w))"
    and "onStore (GetKey I k) w = (w', case v_key (obs (w_store w)) k of None \<Rightarrow> Inl ErrNotFound | Some s \<Rightarrow> Inr s)"
proof -
  obtain st' where st: "invar st'" "obs st' = obs (w_store w)"
    "GetKey I k (w_store w) = (st', case v_key (obs (w_store w)) k of None \<Rightarrow> Inl ErrNotFound | Some s \<Rightarrow> Inr s)"
    using key_value [OF assms(2)] .
  show ?thesis using quiet_moves [where f = "GetKey I k" and invar = invar and obs = obs, OF assms(1) st(3,1,2)] that by blast
qed

lemma quiet_cookies:
  assumes "quiet w" "invar (w_store w)"
  obtains w' m where "moves invar obs w w' (obs (w_store w))"
    and "onStore (GetCookies I sid) w = (w', Inr m)" and "mget m = v_cookie (obs (w_store w)) sid"
proof -
  obtain st' r where e: "GetCookies I sid (w_store w) = (st', r)" by fastforce
  note q = query_cookies [OF assms(2) e]
  obtain m where m: "r = Inr m" using cookies_total [OF assms(2)] e by (cases r) auto
  show ?thesis using quiet_moves [where f = "GetCookies I sid" and invar = invar and obs = obs, OF assms(1) e [unfolded m]] q m that by blast
qed

lemma quiet_shas:
  assumes "quiet w" "invar (w_store w)"
  obtains w' m where "moves invar obs w w' (obs (w_store w))"
    and "onStore (CookieSHAs I sid) w = (w', Inr m)" and "mget m = v_sha (obs (w_store w)) sid"
proof -
  obtain st' r where e: "CookieSHAs I sid (w_store w) = (st', r)" by fastforce
  note q = query_shas [OF assms(2) e]
  obtain m where m: "r = Inr m" using shas_total [OF assms(2)] e by (cases r) auto
  show ?thesis using quiet_moves [where f = "CookieSHAs I sid" and invar = invar and obs = obs, OF assms(1) e [unfolded m]] q m that by blast
qed

lemma quiet_owner:
  assumes "quiet w" "invar (w_store w)"
  obtains w' sids where "moves invar obs w w' (obs (w_store w))"
    and "onStore (OwnerSessions I i) w = (w', Inr sids)" and "set sids = v_owner (obs (w_store w)) i"
proof -
  obtain st' r where e: "OwnerSessions I i (w_store w) = (st', r)" by fastforce
  note q = query_owner [OF assms(2) e]
  obtain m where m: "r = Inr m" using owner_total [OF assms(2)] e by (cases r) auto
  show ?thesis using quiet_moves [where f = "OwnerSessions I i" and invar = invar and obs = obs, OF assms(1) e [unfolded m]] q m that by blast
qed

lemma moves_trans: "moves invar obs w w' v \<Longrightarrow> moves invar obs w' w'' v' \<Longrightarrow> moves invar obs w w'' v'"
  by (simp add: moves_def)

lemma commitControls_exact:
  assumes "quiet w" "invar (w_store w)" "m_store M = I" "v_session (obs (w_store w)) (l_SessionID l) = Some s"
    and c0: "c0 = controls0 (m_cfg M) l s i ls f p cs now" "\<not> idle c0"
  shows "\<exists>w' l' r. commitControls M i ls s c0 now (w, l) = ((w', l'), r) \<and> invar (w_store w') \<and> quiet w' \<and>
    (obs (w_store w'), l', r) = apply_spec (m_cfg M) i ls f p cs now (w_rng w) (obs (w_store w)) l"
proof (cases "c_Rotate c0 \<and> length (w_rng w) < 32")
  case True
  with assms show ?thesis by (auto simp: commitControls_def newID_def apply_spec_def Let_def)
next
  case enough: False
  define key where "key = (if c_Rotate c0 then RawURLEncode (take 32 (w_rng w)) else l_KeyID l)"
  define c where "c = controls1 c0 now key"
  define w1 where "w1 = (if c_Rotate c0 then w\<lparr>w_rng := drop 32 (w_rng w)\<rparr> else w)"
  have k: "(if c_Rotate c0 then newID w else (w, Inr (l_KeyID l))) = (w1, Inr key)"
    and w1: "w_store w1 = w_store w" "quiet w1"
    using enough assms(1) by (auto simp: newID_def key_def w1_def)
  define t where "t = ttl_of (s\<lparr>s_LastAccess := max (s_LastAccess s) (c_LastAccess c)\<rparr>) now"
  define ok where "ok \<longleftrightarrow> call_ok (CApplyControls (l_SessionID l) c) (obs (w_store w))"
  obtain w2 where m: "moves invar obs w1 w2 (if ok then call_effect (CApplyControls (l_SessionID l) c) (obs (w_store w)) else obs (w_store w))"
    and a: "onStore (exec I t (i64 (s_FinalTimeout s * Second)) (CApplyControls (l_SessionID l) c)) w1 =
      (w2, if ok then Inr () else Inl (call_error (CApplyControls (l_SessionID l) c) (obs (w_store w))))"
    using quiet_call [of w1, OF w1(2)] assms(2) w1(1) unfolding ok_def by metis
  have run: "commitControls M i ls s c0 now (w, l) = (if ok
      then ((w2, take_key c (fold cache_cookie (c_Cookies c) (settle i ls l))), Inr ())
      else ((w2, l), Inl (call_error (CApplyControls (l_SessionID l) c) (obs (w_store w)))))"
    using k a assms(3) by (simp add: commitControls_def c_def t_def Let_def)
  have ok: "ok \<longleftrightarrow> \<not> (v_key (obs (w_store w)) (l_KeyID l) \<noteq> Some (l_SessionID l) \<or>
      c_Rotate c0 \<and> v_key (obs (w_store w)) key \<noteq> None)"
    using assms(4) by (auto simp: ok_def c_def c0(1))
  have "call_error (CApplyControls (l_SessionID l) c) (obs (w_store w)) = ErrConflict"
    using assms(4) by (simp add: call_error_def)
  moreover have "apply_spec (m_cfg M) i ls f p cs now (w_rng w) (obs (w_store w)) l =
      (if ok then (spec_controls (l_SessionID l) c s (obs (w_store w)),
                   take_key c (fold cache_cookie (c_Cookies c) (settle i ls l)), Inr ())
       else (obs (w_store w), l, Inl ErrConflict))"
    unfolding apply_spec_def assms(4) option.case Let_def c0(1) [symmetric] key_def [symmetric] c_def [symmetric] ok
    using c0(2) enough by auto
  ultimately show ?thesis using m run assms(4) by (auto simp: moves_def)
qed

lemma applyControls_exact:
  assumes "quiet w" "invar (w_store w)" "m_store M = I"
  shows "\<exists>w' l' r. applyControls M i ls f p cs (w, l) = ((w', l'), r) \<and> invar (w_store w') \<and> quiet w' \<and>
    (obs (w_store w'), l', r) = apply_spec (m_cfg M) i ls f p cs (w_clock w (w_ticks w)) (w_rng w) (obs (w_store w)) l"
proof -
  define now w0 where "now = w_clock w (w_ticks w)" and "w0 = w\<lparr>w_ticks := Suc (w_ticks w)\<rparr>"
  have w0: "quiet w0" "invar (w_store w0)" "obs (w_store w0) = obs (w_store w)" "w_rng w0 = w_rng w"
    using assms by (simp_all add: w0_def)
  obtain w1 where m: "moves invar obs w0 w1 (obs (w_store w))"
    and g: "onStore (GetSession I (l_SessionID l)) w0 =
      (w1, case v_session (obs (w_store w)) (l_SessionID l) of None \<Rightarrow> Inl ErrNotFound | Some s \<Rightarrow> Inr s)"
    using quiet_session [OF w0(1,2), of "l_SessionID l"] unfolding w0(3) .
  have w1: "quiet w1" "invar (w_store w1)" "obs (w_store w1) = obs (w_store w)" "w_rng w1 = w_rng w"
    using m w0(4) by (simp_all add: moves_def)
  have c: "clockNow w = (w0, now)" by (simp add: clockNow_def w0_def now_def)
  show ?thesis
  proof (cases "v_session (obs (w_store w)) (l_SessionID l)")
    case None
    with g c assms(3) w1 show ?thesis by (simp add: applyControls_def apply_spec_def)
  next
    case (Some s)
    define c0 where "c0 = controls0 (m_cfg M) l s i ls f p cs now"
    show ?thesis
    proof (cases "idle c0")
      case True
      with g c assms(3) w1 Some show ?thesis
        by (simp add: applyControls_def apply_spec_def c0_def Let_def now_def)
    next
      case False
      with g c assms(3) Some have "applyControls M i ls f p cs (w, l) = commitControls M i ls s c0 now (w1, l)"
        by (simp add: applyControls_def c0_def)
      with commitControls_exact [OF w1(1,2) assms(3) _ c0_def False] Some w1 now_def show ?thesis by simp
    qed
  qed
qed

lemma Begin_exact:
  assumes "quiet w" "invar (w_store w)" "m_store M = I"
  shows "\<exists>w' r. Begin M w = (w', r) \<and> invar (w_store w') \<and> quiet w' \<and> w_clock w' = w_clock w \<and>
    w_ticks w' = Suc (w_ticks w) \<and> w_rng w' = drop 64 (w_rng w) \<and>
    (obs (w_store w'), r) = begin_spec (m_cfg M) (w_clock w (w_ticks w)) (w_rng w) (obs (w_store w))"
proof -
  define now w0 where "now = w_clock w (w_ticks w)" and "w0 = w\<lparr>w_ticks := Suc (w_ticks w)\<rparr>"
  have c: "clockNow w = (w0, now)" by (simp add: clockNow_def w0_def now_def)
  show ?thesis
  proof (cases "length (w_rng w) < 64")
    case True
    then show ?thesis using assms c
      by (cases "length (w_rng w) < 32") (auto simp: Begin_def newID_def begin_spec_def w0_def)
  next
    case False
    define sid key where "sid = RawURLEncode (take 32 (w_rng w))" and "key = RawURLEncode (take 32 (drop 32 (w_rng w)))"
    define w1 where "w1 = w0\<lparr>w_rng := drop 32 (drop 32 (w_rng w))\<rparr>"
    define row t where "row = new_row (m_cfg M) sid now" and "t = ttl_of row now"
    have w1: "quiet w1" "invar (w_store w1)" "obs (w_store w1) = obs (w_store w)" using assms by (simp_all add: w1_def w0_def)
    obtain w2 where m2: "moves invar obs w1 w2 (call_effect (CPutSession row) (obs (w_store w)))"
      and p2: "onStore (exec I t t (CPutSession row)) w1 = (w2, Inr ())"
      using quiet_call [OF w1(1,2), of "CPutSession row"] w1(3) by auto
    have w2: "quiet w2" "invar (w_store w2)" "obs (w_store w2) = call_effect (CPutSession row) (obs (w_store w))"
      using m2 by (simp_all add: moves_def)
    obtain w3 where m3: "moves invar obs w2 w3 (call_effect (CPutKey key sid) (obs (w_store w2)))"
      and p3: "onStore (exec I t t (CPutKey key sid)) w2 = (w3, Inr ())"
      using quiet_call [OF w2(1,2), of "CPutKey key sid"] w2(3) by (auto simp: row_def new_row_def)
    have run: "Begin M w = (w3, Inr \<lparr>l_KeyID = key, l_SessionID = sid, l_OwnerID = 0, l_Cookies = [], l_Labels = [],
         l_shas = [], l_newKey = key, l_rewrite = True, l_rotateDue = False\<rparr>)"
      using p2 p3 c False assms(3)
      by (simp add: Begin_def newID_def w0_def w1_def row_def new_row_def t_def sid_def key_def Let_def)
    show ?thesis using m2 m3 False assms
      by (simp add: run moves_def begin_spec_def Let_def sid_def key_def row_def now_def new_row_def w1_def w0_def)
  qed
qed

lemma resolve_live_exact:
  assumes "quiet w" "invar (w_store w)" "m_store M = I" "v_key (obs (w_store w)) key = Some sid"
    and s: "v_session (obs (w_store w)) sid = Some s" "\<not> expired s now"
  shows "\<exists>w' l d. resolve_live M key sid s now w = (w', Inr (Some l)) \<and> invar (w_store w') \<and> quiet w' \<and>
    resolve_spec (m_cfg M) key now (obs (w_store w)) = (obs (w_store w'), Some d) \<and>
    shows_session key (obs (w_store w)) d l"
proof -
  define lr where "lr = (if 0 < RotateInterval (m_cfg M) \<and> s_LastRotation s = 0 then now else s_LastRotation s)"
  define due where "due = (0 < RotateInterval (m_cfg M) \<and> s_LastRotation s \<noteq> 0
    \<and> seconds_of (RotateInterval (m_cfg M)) \<le> i64 (now - s_LastRotation s))"
  define t where "t = ttl_of (s\<lparr>s_LastRotation := lr, s_LastAccess := now\<rparr>) now"
  obtain w1 where m1: "moves invar obs w w1 (call_effect (CTouchSession sid key now lr) (obs (w_store w)))"
    and p1: "onStore (exec I t t (CTouchSession sid key now lr)) w = (w1, Inr ())"
    using quiet_call [OF assms(1,2), of "CTouchSession sid key now lr"] assms(4) s(1) by auto
  have w1: "quiet w1" "invar (w_store w1)" using m1 by (simp_all add: moves_def)
  obtain w2 ck where m2: "moves invar obs w1 w2 (obs (w_store w1))" and p2: "onStore (GetCookies I sid) w1 = (w2, Inr ck)"
    and ck: "mget ck = v_cookie (obs (w_store w1)) sid" using quiet_cookies [OF w1] .
  have w2: "quiet w2" "invar (w_store w2)" using m2 by (simp_all add: moves_def)
  obtain w3 sh where m3: "moves invar obs w2 w3 (obs (w_store w2))" and p3: "onStore (CookieSHAs I sid) w2 = (w3, Inr sh)"
    and sh: "mget sh = v_sha (obs (w_store w2)) sid" using quiet_shas [OF w2] .
  have sess: "(if 0 < RotateInterval (m_cfg M) \<and> s_LastRotation s = 0 then s\<lparr>s_LastRotation := now\<rparr> else s)\<lparr>s_LastAccess := now\<rparr>
      = s\<lparr>s_LastRotation := lr, s_LastAccess := now\<rparr>" by (simp add: lr_def)
  have run: "resolve_live M key sid s now w = (w3, Inr (Some \<lparr>l_KeyID = key, l_SessionID = sid, l_OwnerID = s_OwnerID s,
      l_Cookies = ck, l_Labels = Fields (s_Labels s), l_shas = sh, l_newKey = [], l_rewrite = False, l_rotateDue = due\<rparr>))"
    unfolding resolve_live_def Let_def sess using p1 p2 p3 assms(3) by (simp add: t_def due_def)
  have spec: "resolve_spec (m_cfg M) key now (obs (w_store w)) = (obs (w_store w3), Some (sid, s, due))"
    using assms(4) s m1 m2 m3 by (auto simp: resolve_spec_def moves_def lr_def due_def Let_def)
  show ?thesis
    unfolding run using spec m1 m2 m3 ck sh by (auto simp: shows_session_def moves_def)
qed

lemma Resolve_exact:
  assumes "quiet w" "invar (w_store w)" "m_store M = I"
  shows "\<exists>w' r. Resolve M key w = (w', Inr r) \<and> invar (w_store w') \<and> quiet w' \<and>
    (case resolve_spec (m_cfg M) key (w_clock w (w_ticks w)) (obs (w_store w)) of
       (v', None) \<Rightarrow> obs (w_store w') = v' \<and> r = None
     | (v', Some d) \<Rightarrow> obs (w_store w') = v' \<and> (\<exists>l. r = Some l \<and> shows_session key (obs (w_store w)) d l))"
proof -
  define now where "now = w_clock w (w_ticks w)"
  obtain w1 where m1: "moves invar obs w w1 (obs (w_store w))"
    and k: "onStore (GetKey I key) w = (w1, case v_key (obs (w_store w)) key of None \<Rightarrow> Inl ErrNotFound | Some s \<Rightarrow> Inr s)"
    using quiet_key [OF assms(1,2)] .
  show ?thesis
  proof (cases "v_key (obs (w_store w)) key")
    case None
    with k m1 assms(3) show ?thesis by (auto simp: Resolve_def resolve_spec_def moves_def)
  next
    case key: (Some sid)
    have w1: "quiet w1" "invar (w_store w1)" "obs (w_store w1) = obs (w_store w)" using m1 by (simp_all add: moves_def)
    obtain w2 where m2: "moves invar obs w1 w2 (obs (w_store w))"
      and g: "onStore (GetSession I sid) w1 = (w2, case v_session (obs (w_store w)) sid of None \<Rightarrow> Inl ErrNotFound | Some s \<Rightarrow> Inr s)"
      using quiet_session [OF w1(1,2), of sid] unfolding w1(3) .
    show ?thesis
    proof (cases "v_session (obs (w_store w)) sid")
      case None
      with key k g m2 assms(3) show ?thesis by (auto simp: Resolve_def resolve_spec_def moves_def)
    next
      case (Some s)
      define w3 where "w3 = w2\<lparr>w_ticks := Suc (w_ticks w2)\<rparr>"
      have w3: "quiet w3" "invar (w_store w3)" "obs (w_store w3) = obs (w_store w)" using m2 by (simp_all add: moves_def w3_def)
      have c: "clockNow w2 = (w3, now)" using m1 m2 by (simp add: clockNow_def w3_def now_def moves_def)
      show ?thesis
      proof (cases "expired s now")
        case True
        obtain w4 where "moves invar obs w3 w4 (spec_delete sid (obs (w_store w)))"
          and "onStore (exec I 0 0 (CDeleteSession sid)) w3 = (w4, Inr ())"
          using quiet_call [OF w3(1,2), of "CDeleteSession sid"] w3(3) by auto
        with True key Some k g c assms(3) show ?thesis
          by (simp add: Resolve_def resolve_spec_def moves_def now_def [symmetric])
      next
        case False
        from resolve_live_exact [OF w3(1,2) assms(3) _ _ False, unfolded w3(3), OF key Some] obtain w4 l d
          where "resolve_live M key sid s now w3 = (w4, Inr (Some l))" "invar (w_store w4)" "quiet w4"
            "resolve_spec (m_cfg M) key now (obs (w_store w)) = (obs (w_store w4), Some d)"
            "shows_session key (obs (w_store w)) d l" by blast
        with False key Some k g c assms(3) show ?thesis by (simp add: Resolve_def now_def [symmetric])
      qed
    qed
  qed
qed

lemma quiet_by_owner:
  assumes "quiet w" "invar (w_store w)"
  obtains w' b where "moves invar obs w w' (call_effect (CDeleteByOwner i sid) (obs (w_store w)))"
    and "onStore (DeleteSessionByOwner I i sid) w = (w', Inr b)"
proof -
  obtain st' r where e: "DeleteSessionByOwner I i sid (w_store w) = (st', r)" by fastforce
  obtain st'' where st: "invar st''" "exec I 0 0 (CDeleteByOwner i sid) (w_store w) = (st'', Inr ())"
    "obs st'' = call_effect (CDeleteByOwner i sid) (obs (w_store w))"
    using call_total [OF assms(2), of 0 0 "CDeleteByOwner i sid"] by auto
  from e st(2) obtain b where "r = Inr b" "st'' = st'" by (cases r) auto
  with quiet_moves [where f = "DeleteSessionByOwner I i sid" and invar = invar and obs = obs, OF assms(1) e] st that
  show ?thesis by blast
qed

lemma revoke_loop_exact:
  "quiet w \<Longrightarrow> invar (w_store w) \<Longrightarrow> \<exists>w'. revoke_loop I i sids None w = (w', None) \<and> invar (w_store w') \<and> quiet w' \<and>
     obs (w_store w') = fold (\<lambda>sid. call_effect (CDeleteByOwner i sid)) sids (obs (w_store w))"
proof (induction sids arbitrary: w)
  case (Cons sid sids)
  obtain w1 b where m: "moves invar obs w w1 (call_effect (CDeleteByOwner i sid) (obs (w_store w)))"
    and d: "onStore (DeleteSessionByOwner I i sid) w = (w1, Inr b)"
    using quiet_by_owner [OF Cons.prems] .
  have w1: "quiet w1" "invar (w_store w1)" "obs (w_store w1) = call_effect (CDeleteByOwner i sid) (obs (w_store w))"
    using m by (simp_all add: moves_def)
  from Cons.IH [OF w1(1,2)] d show ?case by (simp add: w1(3) del: call_effect.simps)
qed simp

lemma RevokeOwner_exact:
  assumes "quiet w" "invar (w_store w)" "m_store M = I"
  obtains w' sids where "RevokeOwner M i w = (w', Inr ())" "invar (w_store w')" "quiet w'"
    and "set sids = v_owner (obs (w_store w)) i"
    and "obs (w_store w') = fold (\<lambda>sid. call_effect (CDeleteByOwner i sid)) sids (obs (w_store w))"
proof -
  obtain w1 sids where m: "moves invar obs w w1 (obs (w_store w))" and g: "onStore (OwnerSessions I i) w = (w1, Inr sids)"
    and sids: "set sids = v_owner (obs (w_store w)) i" using quiet_owner [OF assms(1,2)] .
  have w1: "quiet w1" "invar (w_store w1)" "obs (w_store w1) = obs (w_store w)" using m by (simp_all add: moves_def)
  from revoke_loop_exact [OF w1(1,2), of i sids] obtain w2 where "revoke_loop I i sids None w1 = (w2, None)"
    "invar (w_store w2)" "quiet w2"
    "obs (w_store w2) = fold (\<lambda>sid. call_effect (CDeleteByOwner i sid)) sids (obs (w_store w))"
    unfolding w1(3) by blast
  with g assms(3) sids that show ?thesis by (simp add: RevokeOwner_def)
qed

end

text \<open>Deleting the listed sessions of an owner removes exactly the listed ones it still owns.\<close>

lemma delete_by_owner_view:
  fixes v :: view and i :: int64 and sid :: string
  defines "v' \<equiv> call_effect (CDeleteByOwner i sid) v"
  shows "v_session v' x = (if x = sid \<and> owner_of v x = Some i then None else v_session v x)"
    and "v_key v' k = (if v_key v k = Some sid \<and> owner_of v sid = Some i then None else v_key v k)"
    and "owner_of v' x = (if x = sid \<and> owner_of v x = Some i then None else owner_of v x)"
    and "x \<noteq> sid \<or> owner_of v x \<noteq> Some i \<Longrightarrow> v_cookie v' x = v_cookie v x \<and> v_sha v' x = v_sha v x"
  by (cases "v_session v sid"; auto simp: v'_def owner_of_def spec_delete_def Let_def)+

lemma delete_by_owner_fold:
  fixes v :: view
  shows "v_session (fold (\<lambda>sid. call_effect (CDeleteByOwner i sid)) sids v) x =
      (if x \<in> set sids \<and> owner_of v x = Some i then None else v_session v x)"
    and "(\<And>y. v_key v k = Some y \<Longrightarrow> y \<in> set sids \<Longrightarrow> owner_of v y \<noteq> Some i) \<Longrightarrow>
      v_key (fold (\<lambda>sid. call_effect (CDeleteByOwner i sid)) sids v) k = v_key v k"
    and "x \<notin> set sids \<or> owner_of v x \<noteq> Some i \<Longrightarrow>
      v_cookie (fold (\<lambda>sid. call_effect (CDeleteByOwner i sid)) sids v) x = v_cookie v x \<and>
      v_sha (fold (\<lambda>sid. call_effect (CDeleteByOwner i sid)) sids v) x = v_sha v x"
proof (induction sids arbitrary: v)
  case (Cons sid sids)
  note view = delete_by_owner_view [where i = i and sid = sid]
  { case 1 then show ?case by (auto simp: Cons.IH(1) view(1,3) simp del: call_effect.simps) }
  { case 2
    have "v_key (fold (\<lambda>sid. call_effect (CDeleteByOwner i sid)) sids (call_effect (CDeleteByOwner i sid) v)) k =
        v_key (call_effect (CDeleteByOwner i sid) v) k"
      by (rule Cons.IH(2)) (use 2 in \<open>auto simp: view(2,3) simp del: call_effect.simps split: if_splits\<close>)
    then show ?case using 2 by (auto simp: view(2) simp del: call_effect.simps) }
  { case 3
    have "x \<notin> set sids \<or> owner_of (call_effect (CDeleteByOwner i sid) v) x \<noteq> Some i"
      using 3 by (auto simp: view(3) simp del: call_effect.simps split: if_splits)
    moreover have "x \<noteq> sid \<or> owner_of v x \<noteq> Some i" using 3 by auto
    ultimately show ?case using Cons.IH(3) view(4) by (simp del: call_effect.simps) }
qed auto

lemma delete_by_owner_no_orphans:
  "no_orphans v \<Longrightarrow> no_orphans (fold (\<lambda>sid. call_effect (CDeleteByOwner i sid)) sids v)"
  by (induction sids arbitrary: v) (simp_all add: no_orphans_call del: call_effect.simps)

context exact_store
begin

lemma RevokeOwner_gone:
  assumes "quiet w" "invar (w_store w)" "m_store M = I"
    and inv: "no_orphans (obs (w_store w))" "owner_index_ok (obs (w_store w))" and "0 < i"
  obtains w' sids where "RevokeOwner M i w = (w', Inr ())"
    and "obs (w_store w') = fold (\<lambda>sid. call_effect (CDeleteByOwner i sid)) sids (obs (w_store w))"
    and "\<And>sid. sid \<in> set sids \<longleftrightarrow> owner_of (obs (w_store w)) sid = Some i"
    and "\<And>sid. owner_of (obs (w_store w)) sid = Some i \<Longrightarrow> gone sid (obs (w_store w'))"
proof -
  obtain w' sids where run: "RevokeOwner M i w = (w', Inr ())" and sids: "set sids = v_owner (obs (w_store w)) i"
    and v': "obs (w_store w') = fold (\<lambda>sid. call_effect (CDeleteByOwner i sid)) sids (obs (w_store w))"
    using RevokeOwner_exact [OF assms(1-3)] .
  have listed: "sid \<in> set sids \<longleftrightarrow> owner_of (obs (w_store w)) sid = Some i" for sid
    using inv(2) assms(6) unfolding sids owner_index_ok_def by blast
  have "no_orphans (obs (w_store w'))" unfolding v' by (rule delete_by_owner_no_orphans [OF inv(1)])
  then have "gone sid (obs (w_store w'))" if "owner_of (obs (w_store w)) sid = Some i" for sid
    using that listed [of sid] delete_by_owner_fold(1) [of i sids "obs (w_store w)" sid, folded v'] by (intro no_orphans_gone) simp_all
  with run v' listed that show ?thesis by blast
qed

end

end
