(* ===== verification/Request_Handler.thy ===== *)
theory Request_Handler
  imports Response_Interceptor Manager_Exact
begin

text \<open>
  The request path of the Caddy handler (\<open>session_store.go\<close>): \<open>ServeHTTP\<close> removes spoofed control
  headers, resolves the session, enforces the authorization policy, rewrites the upstream cookies, runs
  the downstream handler on the interceptor and commits its response. The downstream handler is any
  function from the request it is given to the actions it takes on the response writer and the way it
  ends, so a statement about all of them covers handlers that react to the results of their writes.
\<close>

section \<open>Requests and the downstream handler\<close>

record Request =
  rq_Header :: Header
  rq_Trailer :: "Header option"
  rq_hasBody :: bool
  rq_scrubs :: "string list option" \<comment> \<open>names removed by the \<open>trailerScrubbingBody\<close> around the body\<close>
  rq_Path :: string
  rq_RawQuery :: string

record trailerScrubbingBody =
  ts_trailer :: Header
  ts_names :: "string list"

definition scrub :: "trailerScrubbingBody \<Rightarrow> trailerScrubbingBody" where
  "scrub b = b\<lparr>ts_trailer := fold hDel (ts_names b) (ts_trailer b)\<rparr>"

text \<open>A read of the wrapped body may add trailers (\<open>arrive\<close>) before the scrubbing; so may closing it.\<close>

definition scrubbing_Read :: "(Header \<Rightarrow> Header) \<Rightarrow> trailerScrubbingBody \<Rightarrow> trailerScrubbingBody" where
  "scrubbing_Read arrive b = scrub (b\<lparr>ts_trailer := arrive (ts_trailer b)\<rparr>)"

definition scrubbing_Close :: "(Header \<Rightarrow> Header) \<Rightarrow> trailerScrubbingBody \<Rightarrow> trailerScrubbingBody" where
  "scrubbing_Close arrive b = scrub (b\<lparr>ts_trailer := arrive (ts_trailer b)\<rparr>)"

datatype action =
    EditHeader "Header \<Rightarrow> Header"
  | DoWriteHeader int
  | DoWrite string
  | DoFlush
  | DoHijack

datatype ending = Returns "string option" | Panics

type_synonym downstream = "Request \<Rightarrow> action list \<times> ending"

fun act :: "'st Handler \<Rightarrow> action \<Rightarrow> io \<Rightarrow> io option" where
  "act h (EditHeader f) (e, cl, ic) = Some (e, cl, ic\<lparr>ic_header := f (ic_header ic)\<rparr>)"
| "act h (DoWriteHeader status) (e, cl, ic) =
     (case ic_WriteHeader status (e, ic) of None \<Rightarrow> None | Some (e', ic') \<Rightarrow> Some (e', cl, ic'))"
| "act h (DoWrite p) s = Some (fst (ic_Write p s))"
| "act h DoFlush s = Some (fst (FlushError h s))"
| "act h DoHijack s = Some (fst (Hijack h s))"

text \<open>The state reached, and whether a \<open>WriteHeader\<close> panicked there.\<close>

fun acts :: "'st Handler \<Rightarrow> action list \<Rightarrow> io \<Rightarrow> io \<times> bool" where
  "acts h [] s = (s, False)"
| "acts h (a # as) s = (case act h a s of None \<Rightarrow> (s, True) | Some s' \<Rightarrow> acts h as s')"

section \<open>The request path\<close>

definition request_names :: "'st Handler \<Rightarrow> string list" where
  "request_names h = [h_IdentityHeader h, h_rotateHeaderName h, h_revokeHeaderName h, h_labelsHeaderName h]"

definition strip_request :: "'st Handler \<Rightarrow> Request \<Rightarrow> Request" where
  "strip_request h r =
     (let names = request_names h; trailer = map_option (fold hDel names) (rq_Trailer r)
      in r\<lparr>rq_Header := fold hDel names (rq_Header r), rq_Trailer := trailer,
           rq_scrubs := (if rq_hasBody r \<and> trailer \<noteq> None then Some names else rq_scrubs r)\<rparr>)"

definition kept_cookies :: "'st Handler \<Rightarrow> Header \<Rightarrow> (string \<times> string) list" where
  "kept_cookies h hdr = filter (\<lambda>(name, _). name \<noteq> h_CookieName h \<and> Decide (h_filter h) name \<noteq> Store) (readCookies hdr)"

definition pair_text :: "string \<times> string \<Rightarrow> string" where
  "pair_text = (\<lambda>(name, val). name @ ''='' @ val)"

definition prepareUpstreamCookies :: "'st Handler \<Rightarrow> (string, string) gomap \<Rightarrow> Request \<Rightarrow> Request" where
  "prepareUpstreamCookies h cached r =
     (let kept = map pair_text (kept_cookies h (rq_Header r) @ cached)
      in if kept = [] then r\<lparr>rq_Header := hDel ''Cookie'' (rq_Header r)\<rparr>
         else r\<lparr>rq_Header := hSet ''Cookie'' (Join kept ''; '') (rq_Header r)\<rparr>)"

text \<open>\<open>url.QueryEscape\<close>.\<close>

definition hex_digit :: "int \<Rightarrow> char" where
  "hex_digit n = char_of (if n < 10 then 48 + n else 55 + n)"

definition escape_byte :: "char \<Rightarrow> string" where
  "escape_byte c = (let n = ord c in
     if (48 \<le> n \<and> n \<le> 57) \<or> (65 \<le> n \<and> n \<le> 90) \<or> (97 \<le> n \<and> n \<le> 122) \<or> n \<in> {45, 46, 95, 126} then [c]
     else if n = 32 then ''+'' else [CHR 0x25, hex_digit (n div 16), hex_digit (n mod 16)])"

definition QueryEscape :: "string \<Rightarrow> string" where
  "QueryEscape s = concat (map escape_byte s)"

definition denyAuthz :: "Authz \<Rightarrow> Request \<Rightarrow> string \<Rightarrow> client \<Rightarrow> client" where
  "denyAuthz a r required cl =
     (let endpoint = Endpoint a required
      in if Contains (hGet (rq_Header r) ''Accept'') ''text/html''
         then let rd = (if rq_RawQuery r = [] then rq_Path r else rq_Path r @ ''?'' @ rq_RawQuery r);
                  sep = (if Contains endpoint ''?'' then ''&'' else ''?'')
           in client_WriteHeader 302
                (cl\<lparr>cl_header := hSet ''Location'' (endpoint @ sep @ RedirectParam a @ ''='' @ QueryEscape rd) (cl_header cl)\<rparr>)
         else client_WriteHeader 401 (cl\<lparr>cl_header := hSet ''X-Auth-Endpoint'' endpoint (cl_header cl)\<rparr>))"

text \<open>The label the policy asks for and the session does not have.\<close>

definition denied :: "'st Handler \<Rightarrow> Request \<Rightarrow> Live option \<Rightarrow> (Authz \<times> string) option" where
  "denied h r live =
     (case h_authz h of
        None \<Rightarrow> None
      | Some a \<Rightarrow>
          let required = Required a (rq_Path r)
          in if required = Anonymous then None
             else case live of
               None \<Rightarrow> Some (a, required)
             | Some l \<Rightarrow> if HasLabel l required then None else Some (a, required))"

section \<open>\<open>ServeHTTP\<close>\<close>

datatype outcome =
    Done
  | BadGateway error
  | NextError string
  | FlushFailed stage_error
  | Panicked

definition new_interceptor :: "bool \<Rightarrow> Live option \<Rightarrow> bool \<Rightarrow> error option \<Rightarrow> Header \<Rightarrow> interceptor" where
  "new_interceptor extended live had rerr hdr =
     \<lparr>ic_live = live, ic_extended = extended, ic_once = False, ic_failed = False, ic_wroteHeader = False,
      ic_status = 0, ic_body = new_body, ic_header = hdr, ic_informational = [], ic_hijacked = False,
      ic_storeErr = None, ic_revokeRequested = False, ic_hadProxyCookie = had, ic_resolveErr = rerr,
      ic_writeErr = None, ic_metadataBytes = 0, ic_finalMetadataReserved = False, ic_terminal = False\<rparr>"

text \<open>Giving up on a response: the staged body and the backend's metadata are dropped.\<close>

definition drop_response :: "'st Handler \<Rightarrow> io \<Rightarrow> io" where
  "drop_response h = (\<lambda>(e, cl, ic).
     case body_Reset (e, ic_body ic) of (e', b') \<Rightarrow>
       (e', cl\<lparr>cl_header := clearHeaders (cl_header cl)\<rparr>, discardBackendMetadata h (ic\<lparr>ic_body := b'\<rparr>)))"

definition bad_gateway :: "'st Handler \<Rightarrow> io \<Rightarrow> io" where
  "bad_gateway h s = (case drop_response h s of (e, cl, ic) \<Rightarrow> (e, client_WriteHeader 502 cl, ic))"

definition commit_response :: "'st Handler \<Rightarrow> io \<Rightarrow> io \<times> outcome" where
  "commit_response h = (\<lambda>(e, cl, ic).
     let cl1 = commitInformational h ic cl;
         cl2 = cl1\<lparr>cl_header := copyHeaders (cl_header cl1) (ic_header ic)\<rparr>
     in if \<not> ic_wroteHeader ic then ((e, cl2, ic), Done)
        else let cl3 = client_WriteHeader (if ic_status ic = 0 then 200 else ic_status ic) cl2
          in if b_size (ic_body ic) \<le> 0 then ((e, cl3, ic), Done)
             else case body_FlushTo (e, ic_body ic) of
               ((e', b'), sent, r) \<Rightarrow>
                 ((e', cl3\<lparr>cl_calls := cl_calls cl3 @ [WBody sent]\<rparr>, ic\<lparr>ic_body := b'\<rparr>),
                  case r of None \<Rightarrow> Done | Some err \<Rightarrow> FlushFailed err))"

text \<open>Everything after the downstream handler has returned.\<close>

definition finish_response :: "'st Handler \<Rightarrow> string option \<Rightarrow> 'st world \<Rightarrow> io \<Rightarrow> 'st world \<times> io \<times> outcome" where
  "finish_response h err w = (\<lambda>(e, cl, ic).
     if ic_writeErr ic \<noteq> None then (w, bad_gateway h (e, cl, ic), Done)
     else case err of
       Some msg \<Rightarrow> (w, drop_response h (e, cl, ic), NextError msg)
     | None \<Rightarrow>
         (case reserveFinalMetadata h (e, ic) of
            ((e1, ic1), Some we) \<Rightarrow> (w, bad_gateway h (e1, cl, ic1\<lparr>ic_writeErr := Some we\<rparr>), Done)
          | ((e1, ic1), None) \<Rightarrow>
              if ic_terminal ic1 then (w, (e1, cl, ic1), Done)
              else case body_Validate (e1, ic_body ic1) of
                ((e2, b2), Some _) \<Rightarrow> (w, bad_gateway h (e2, cl, ic1\<lparr>ic_body := b2\<rparr>), Done)
              | ((e2, b2), None) \<Rightarrow>
                  (case ensureProcessed h (w, ic1\<lparr>ic_body := b2\<rparr>) of
                     (w', ic2) \<Rightarrow>
                       if ic_failed ic2
                       then (w', bad_gateway h (e2, cl, ic2), Done)
                       else (w', commit_response h (e2, cl, ic2)))))"

definition close_body :: "io \<Rightarrow> io" where
  "close_body = (\<lambda>(e, cl, ic). case body_Close (e, ic_body ic) of ((e', b'), _) \<Rightarrow> (e', cl, ic\<lparr>ic_body := b'\<rparr>))"

definition forward :: "'st Handler \<Rightarrow> downstream \<Rightarrow> bool \<Rightarrow> Request \<Rightarrow> Live option \<Rightarrow> bool \<Rightarrow> error option
    \<Rightarrow> 'st world \<Rightarrow> stage_env \<times> client \<Rightarrow> 'st world \<times> io \<times> outcome" where
  "forward h next extended r live had rerr w = (\<lambda>(e, cl).
     let (as, ending) = next (prepareUpstreamCookies h (case live of None \<Rightarrow> [] | Some l \<Rightarrow> l_Cookies l) r);
         (s, panicked) = acts h as (e, cl, new_interceptor extended live had rerr (cl_header cl));
         (w', s', out) = (if panicked then (w, s, Panicked)
           else case ending of Panics \<Rightarrow> (w, s, Panicked) | Returns err \<Rightarrow> finish_response h err w s)
     in (w', close_body s', out))"

text \<open>The session lookup: whether a proxy cookie was presented, and what resolving it gave.\<close>

definition lookup_session :: "'st Handler \<Rightarrow> Request \<Rightarrow> 'st world \<Rightarrow> 'st world \<times> bool \<times> (error + Live option)" where
  "lookup_session h r w =
     (case requestCookie (h_CookieName h) (rq_Header r) of
        None \<Rightarrow> (w, False, Inr None)
      | Some v \<Rightarrow> (case Resolve (h_manager h) v w of (w', res) \<Rightarrow> (w', True, res)))"

definition ServeHTTP :: "'st Handler \<Rightarrow> downstream \<Rightarrow> bool \<Rightarrow> Request \<Rightarrow> 'st world \<Rightarrow> stage_env \<times> client
    \<Rightarrow> 'st world \<times> (stage_env \<times> client) \<times> outcome" where
  "ServeHTTP h next extended r w ec =
     (let r = strip_request h r; (w1, had, res) = lookup_session h r w
      in case (res, h_OnStoreError h = ''fail_closed'') of
           (Inl err, True) \<Rightarrow> (w1, ec, BadGateway err)
         | _ \<Rightarrow>
             let live = (case res of Inl _ \<Rightarrow> None | Inr l \<Rightarrow> l);
                 rerr = (case res of Inl err \<Rightarrow> Some err | Inr _ \<Rightarrow> None)
             in case denied h r live of
                  Some (a, required) \<Rightarrow> (w1, (fst ec, denyAuthz a r required (snd ec)), Done)
                | None \<Rightarrow>
                    (case forward h next extended r live had rerr w1 ec of
                       (w2, (e, cl, ic), out) \<Rightarrow> (w2, (e, cl), out)))"

end
