(* ===== verification/Header_Hygiene.thy ===== *)
theory Header_Hygiene
  imports Request_Handler
begin

text \<open>
  What the client can see of the backend's headers: the control headers and the backend's cookies are
  out of every header map the handler commits, whatever the downstream handler does.
\<close>

section \<open>Sanitised header maps\<close>

text \<open>The cookies a client may be sent: forwarded ones, and the proxy cookie, issued or expired.\<close>

definition client_cookie :: "'st Handler \<Rightarrow> string \<Rightarrow> bool" where
  "client_cookie h sc \<longleftrightarrow>
     (case ParseSetCookie (h_parseTime h) sc of None \<Rightarrow> False | Some c \<Rightarrow> Decide (h_filter h) (ck_Name c) = Forward)
     \<or> (\<exists>v. sc = buildProxyCookie h v) \<or> sc = buildExpiredProxyCookie h"

definition no_controls :: "'st Handler \<Rightarrow> Header \<Rightarrow> bool" where
  "no_controls h hdr \<longleftrightarrow> list_all (\<lambda>n. hValues hdr n = []) (request_names h)"

definition no_trailers :: "'st Handler \<Rightarrow> Header \<Rightarrow> bool" where
  "no_trailers h hdr \<longleftrightarrow> list_all (\<lambda>(k, _). \<not> (trailer_key k \<and> blocked_name (managed_names h) (drop 8 k))) hdr"

definition sanitised :: "'st Handler \<Rightarrow> Header \<Rightarrow> bool" where
  "sanitised h hdr \<longleftrightarrow> no_controls h hdr \<and> list_all (client_cookie h) (hValues hdr ''Set-Cookie'') \<and> no_trailers h hdr"

text \<open>The configured control headers are not headers the handler itself sends.\<close>

definition proper_names :: "'st Handler \<Rightarrow> bool" where
  "proper_names h \<longleftrightarrow> list_all (\<lambda>n. CanonicalHeaderKey n \<notin> {''Set-Cookie'', ''Location'', ''X-Auth-Endpoint''}) (request_names h)"

lemma canon_literals [simp]:
  "CanonicalHeaderKey ''Set-Cookie'' = ''Set-Cookie''" "CanonicalHeaderKey ''Trailer'' = ''Trailer''"
  "CanonicalHeaderKey ''Location'' = ''Location''" "CanonicalHeaderKey ''X-Auth-Endpoint'' = ''X-Auth-Endpoint''"
  "CanonicalHeaderKey ''Cookie'' = ''Cookie''"
  by code_simp+

section \<open>Clearing and copying\<close>

lemma set_hDel: "set (hDel k h) = {x \<in> set h. fst x \<noteq> CanonicalHeaderKey k}"
  by (auto simp: hDel_def AList.delete_eq)

lemma fold_del_set:
  "set (fold (\<lambda>(name, _) h'. hDel name h') xs h) = {x \<in> set h. fst x \<notin> (\<lambda>y. CanonicalHeaderKey (fst y)) ` set xs}"
  by (induction xs arbitrary: h) (auto simp: set_hDel)

lemma set_clearHeaders: "set (clearHeaders h) = {x \<in> set h. fst x \<notin> (\<lambda>y. CanonicalHeaderKey (fst y)) ` set h}"
  by (simp add: clearHeaders_def fold_del_set)

lemma hValues_clear [simp]: "hValues (clearHeaders h) k = []"
proof -
  have "CanonicalHeaderKey k \<notin> fst ` set (clearHeaders h)"
    by (auto simp: set_clearHeaders) (metis Canonical_idem fst_conv image_eqI)
  then have "mget (clearHeaders h) (CanonicalHeaderKey k) = None" by (simp add: map_of_eq_None_iff)
  then show ?thesis by (simp add: hValues_def)
qed

lemma mget_overlay: "mget (foldr (\<lambda>(name, vs). mput name vs) src d) k = (case mget src k of None \<Rightarrow> mget d k | Some vs \<Rightarrow> Some vs)"
  by (induction src) (auto simp: update_conv' split: option.splits)

lemma hValues_copy [simp]: "hValues (copyHeaders dst src) k = hValues src k"
proof -
  have "hValues (clearHeaders dst) k = []" by simp
  then show ?thesis unfolding copyHeaders_def hValues_def mget_overlay by (auto split: option.splits)
qed

lemma keys_overlay: "fst ` set (foldr (\<lambda>(name, vs). mput name vs) src d) = fst ` set src \<union> fst ` set d"
  by (induction src) (simp_all add: dom_update case_prod_beta)

lemma runes_token: "list_all token_byte s \<Longrightarrow> runes s = map ord s"
proof (induction s)
  case (Cons c s)
  then have c: "ord c < 128" by (auto simp: token_byte_def Let_def)
  then have len: "rune_len (c # s) = 1" by (simp add: rune_len_def seq_info_def)
  have "chunks (c # s) = [c] # chunks s" by (subst chunks_Cons) (simp_all add: len)
  with Cons c show ?case by (simp add: runes_def rune_value_def)
qed (simp add: runes_def)

lemma trailer_key_not_token: "trailer_key k \<Longrightarrow> \<not> list_all token_byte k"
proof
  assume t: "trailer_key k" and r: "list_all token_byte k"
  then have e: "take 8 (map (\<lambda>c. lower_rune (ord c)) k) = map ord ''trailer:''" by (simp add: trailer_key_def runes_token o_def)
  have "length (take 8 (map (\<lambda>c. lower_rune (ord c)) k)) = 8" unfolding e by simp
  then have len: "7 < length k" by simp
  have "lower_rune (ord (k ! 7)) = 58" using len arg_cong [OF e, of "\<lambda>xs. xs ! 7"] by (simp add: ord_def)
  then have "ord (k ! 7) = 58" by (auto simp: lower_rune_def split: if_splits)
  with r len show False by (auto simp: list_all_length token_byte_def)
qed

lemma trailer_key_canon: "trailer_key k \<Longrightarrow> CanonicalHeaderKey k = k"
  using trailer_key_not_token by (auto simp: CanonicalHeaderKey_def)

lemma no_trailers_keys: "no_trailers h hdr \<longleftrightarrow> (\<forall>k \<in> fst ` set hdr. \<not> (trailer_key k \<and> blocked_name (managed_names h) (drop 8 k)))"
  by (auto simp: no_trailers_def list_all_iff)

lemma no_trailers_clear [simp]: "no_trailers h (clearHeaders hdr)"
  unfolding no_trailers_keys set_clearHeaders using trailer_key_canon by force

lemma no_trailers_copy [simp]: "no_trailers h src \<Longrightarrow> no_trailers h (copyHeaders dst src)"
  using no_trailers_clear [of h dst] unfolding copyHeaders_def no_trailers_keys keys_overlay by blast

lemma no_trailers_del [simp]: "no_trailers h hdr \<Longrightarrow> no_trailers h (hDel k hdr)"
  by (auto simp: no_trailers_keys set_hDel)

lemma sanitised_clear [simp]: "sanitised h (clearHeaders hdr)"
  by (simp add: sanitised_def no_controls_def list_all_iff)

lemma sanitised_copy [simp]: "sanitised h src \<Longrightarrow> sanitised h (copyHeaders dst src)"
  by (simp add: sanitised_def no_controls_def)

section \<open>Stripping\<close>

lemma mdel_absent: "mget h k = None \<Longrightarrow> mget (hDel n h) k = None"
  by (simp add: hDel_def gomap_simps)

lemma fold_keeps_absent:
  assumes "\<And>x h. mget h k = None \<Longrightarrow> mget (f x h) k = None"
  shows "mget h k = None \<Longrightarrow> mget (fold f xs h) k = None"
  using assms by (induction xs arbitrary: h) auto

lemma fold_hDel_absent [simp]:
  "mget h k = None \<Longrightarrow> mget (fold (\<lambda>x h'. if P x then hDel (n x) h' else h') xs h) k = None"
  by (rule fold_keeps_absent) (simp_all add: mdel_absent)

text \<open>Stripping never brings a header back: \<open>Trailer\<close> is written only from its own values.\<close>

lemma strip_absent:
  assumes "mget h k = None"
  shows "mget (stripManagedTrailerDeclarations names h) k = None"
proof -
  let ?h1 = "fold (\<lambda>name h'. if blocked_name names name then hDel name h' else h') (declared h) h"
  let ?kept = "filter (\<lambda>name. \<not> blocked_name names name \<and> name \<noteq> []) (declared h)"
  let ?h3 = "if ?kept = [] then hDel ''Trailer'' ?h1 else hSet ''Trailer'' (Join ?kept '', '') (hDel ''Trailer'' ?h1)"
  have "mget ?h1 k = None" using assms by (rule fold_hDel_absent [where n = id, unfolded id_apply])
  moreover have "?kept = []" if "k = ''Trailer''"
    using assms that by (simp add: declared_def hValues_def)
  ultimately have "mget ?h3 k = None" by (auto simp: mdel_absent hSet_def gomap_simps)
  then show ?thesis unfolding stripManagedTrailerDeclarations_def Let_def case_prod_beta
    by (rule fold_hDel_absent)
qed

lemma fold_strip_set:
  "set (fold (\<lambda>(key, _) h'. if P key then hDel key h' else h') xs h)
   = {x \<in> set h. fst x \<notin> {CanonicalHeaderKey (fst y) |y. y \<in> set xs \<and> P (fst y)}}"
  by (induction xs arbitrary: h) (auto simp: set_hDel split: if_splits)

lemma no_trailers_strip [simp]: "no_trailers h (stripManagedTrailerDeclarations (managed_names h) hdr)"
  unfolding no_trailers_keys stripManagedTrailerDeclarations_def Let_def fold_strip_set
  using trailer_key_canon by fastforce

lemma absent_controls: "hValues (hDel (h_labelsHeaderName h) (hDel (h_revokeHeaderName h) (hDel (h_rotateHeaderName h)
    (hDel (h_IdentityHeader h) hdr)))) n = (if CanonicalHeaderKey n \<in> CanonicalHeaderKey ` set (request_names h) then [] else hValues hdr n)"
  by (auto simp: request_names_def hValues_hDel)

lemma sanitised_scrub: "sanitised h (scrubManagedResponseHeader h hdr)"
  by (simp add: sanitised_def no_controls_def scrubManagedResponseHeader_def request_names_def hValues_hDel)

lemma sanitised_discard: "\<not> ic_once ic \<Longrightarrow> sanitised h (ic_header (discardBackendMetadata h ic))"
proof -
  assume "\<not> ic_once ic"
  let ?d = "hDel (h_labelsHeaderName h) (hDel (h_revokeHeaderName h) (hDel (h_rotateHeaderName h)
    (hDel (h_IdentityHeader h) (hDel ''Set-Cookie'' (ic_header ic)))))"
  have "mget ?d (CanonicalHeaderKey n) = None" if "n = ''Set-Cookie'' \<or> n \<in> set (request_names h)" for n
    using that by (auto simp: hDel_def gomap_simps request_names_def)
  from strip_absent [OF this] have "hValues (stripManagedTrailerDeclarations (managed_names h) ?d) n = []"
    if "n = ''Set-Cookie'' \<or> n \<in> set (request_names h)" for n
    using that by (simp add: hValues_def)
  then show ?thesis using \<open>\<not> ic_once ic\<close>
    by (simp add: discardBackendMetadata_def sanitised_def no_controls_def list_all_iff)
qed

section \<open>Processing\<close>

text \<open>The header map while a response is processed: stripped, with only client cookies left.\<close>

lemma no_trailers_add:
  assumes "no_trailers h hdr"
  shows "no_trailers h (hAdd ''Set-Cookie'' sc hdr)"
proof -
  have "fst ` set (hAdd ''Set-Cookie'' sc hdr) = insert ''Set-Cookie'' (fst ` set hdr)"
    by (simp add: hAdd_def dom_update)
  moreover have "list_all token_byte ''Set-Cookie''" by code_simp
  ultimately show ?thesis
    using assms trailer_key_not_token [of "''Set-Cookie''"] by (auto simp: no_trailers_keys)
qed

lemma sanitised_add:
  assumes "proper_names h" "client_cookie h sc" "sanitised h hdr"
  shows "sanitised h (hAdd ''Set-Cookie'' sc hdr)"
  using assms no_trailers_add [of h hdr sc]
  by (auto simp: sanitised_def no_controls_def proper_names_def list_all_iff hValues_hAdd)

text \<open>Processing only ever adds cookies fit for the client, so it keeps every property those keep.\<close>

definition cookie_closed :: "'st Handler \<Rightarrow> (Header \<Rightarrow> bool) \<Rightarrow> bool" where
  "cookie_closed h P \<longleftrightarrow> (\<forall>sc hdr. client_cookie h sc \<longrightarrow> P hdr \<longrightarrow> P (hAdd ''Set-Cookie'' sc hdr))"

lemma closed_sanitised: "proper_names h \<Longrightarrow> cookie_closed h (sanitised h)"
  by (simp add: cookie_closed_def sanitised_add)

lemma closed_no_trailers: "cookie_closed h (no_trailers h)"
  by (simp add: cookie_closed_def no_trailers_add)

lemma ensureLive_header: "ensureLive h (w, ic) = ((w', ic'), r) \<Longrightarrow> ic_header ic' = ic_header ic"
  by (auto simp: ensureLive_def split: if_splits prod.splits sum.splits)

lemma cookie_loop_keeps:
  assumes "cookie_closed h P" "cookie_loop h scs muts (w, ic) = ((w', ic'), r)" "P (ic_header ic)"
  shows "P (ic_header ic')"
  using assms(2,3)
proof (induction scs arbitrary: muts w ic)
  case (Cons sc scs)
  note next_one = Cons.IH
  show ?case
  proof (cases "ParseSetCookie (h_parseTime h) sc")
    case None
    with Cons.prems next_one show ?thesis by simp
  next
    case (Some c)
    show ?thesis
    proof (cases "Decide (h_filter h) (ck_Name c)")
      case Drop
      with Some Cons.prems next_one show ?thesis by simp
    next
      case Forward
      with Some have "client_cookie h sc" by (simp add: client_cookie_def)
      with assms(1) Cons.prems(2) have "P (hAdd ''Set-Cookie'' sc (ic_header ic))" by (simp add: cookie_closed_def)
      with Some Forward Cons.prems(1) show ?thesis
        by (auto intro: next_one)
    next
      case Store
      obtain w1 now where c: "clockNow w = (w1, now)" by fastforce
      obtain w2 ic2 r2 where l: "ensureLive h (w1, ic) = ((w2, ic2), r2)" by (metis surj_pair)
      from ensureLive_header [OF l] Cons.prems(2) have "P (ic_header ic2)" by simp
      with Some Store Cons.prems c l show ?thesis
        by (auto split: if_splits sum.splits intro: next_one)
    qed
  qed
qed simp

lemma revoke_response_sanitised:
  assumes "proper_names h" "revoke_response h (w, ic) = ((w', ic'), Inr u)"
    and "hValues (ic_header ic) ''Set-Cookie'' = []" "hValues (ic_header ic) (h_revokeHeaderName h) = []" "no_trailers h (ic_header ic)"
  shows "sanitised h (ic_header ic')"
proof -
  let ?hdr = "hDel (h_labelsHeaderName h) (hDel (h_rotateHeaderName h) (hDel (h_IdentityHeader h) (ic_header ic)))"
  have "sanitised h ?hdr"
    using assms(3-5) by (simp add: sanitised_def no_controls_def request_names_def hValues_hDel)
  moreover from this have "sanitised h (hAdd ''Set-Cookie'' (buildExpiredProxyCookie h) ?hdr)"
    by (intro sanitised_add assms(1)) (simp_all add: client_cookie_def)
  ultimately show ?thesis using assms(2)
    by (auto simp: revoke_response_def Let_def split: option.splits prod.splits sum.splits if_splits)
qed

lemma apply_response_keeps:
  assumes "cookie_closed h P" "apply_response h owner labels rot muts (w, ic) = ((w', ic'), r)" "P (ic_header ic)"
  shows "P (ic_header ic')"
proof -
  have "P (hAdd ''Set-Cookie'' (buildProxyCookie h v) (ic_header ic))" for v
    using assms(1,3) by (auto simp: cookie_closed_def client_cookie_def)
  with assms(2,3) show ?thesis
    by (auto simp: apply_response_def split: option.splits prod.splits sum.splits)
qed

text \<open>The part of \<open>processLocked\<close> after the control headers have been read.\<close>

lemma processLocked_keeps:
  assumes closed: "cookie_closed h P" and run: "processLocked h (w, ic) = ((w', ic'), r)" "\<not> ic_revokeRequested ic"
    and "P (hDel (h_labelsHeaderName h) (hDel (h_rotateHeaderName h) (hDel (h_IdentityHeader h) (hDel ''Set-Cookie'' (ic_header ic)))))"
  shows "P (ic_header ic')"
proof -
  let ?hdr = "hDel (h_labelsHeaderName h) (hDel (h_rotateHeaderName h) (hDel (h_IdentityHeader h) (hDel ''Set-Cookie'' (ic_header ic))))"
  obtain w1 ic1 r1 where loop: "cookie_loop h (hValues (ic_header ic) ''Set-Cookie'') [] (w, ic\<lparr>ic_header := ?hdr\<rparr>) = ((w1, ic1), r1)"
    by (metis surj_pair)
  from cookie_loop_keeps [OF closed loop] assms(4) have 1: "P (ic_header ic1)" by simp
  obtain w2 ic2 r2 where live: "ensureLive h (w1, ic1) = ((w2, ic2), r2)" by (metis surj_pair)
  from ensureLive_header [OF live] 1 have 2: "P (ic_header ic2)" by simp
  from run loop live 1 2 show ?thesis
    by (auto simp: processLocked_def Let_def andThen_def split: sum.splits if_splits
        intro: apply_response_keeps [OF closed _ 1] apply_response_keeps [OF closed _ 2])
qed

lemma revoke_response_trailers:
  "revoke_response h (w, ic) = ((w', ic'), r) \<Longrightarrow> no_trailers h (ic_header ic) \<Longrightarrow> no_trailers h (ic_header ic')"
  by (auto simp: revoke_response_def Let_def no_trailers_add split: option.splits prod.splits sum.splits if_splits)

lemma processLocked_trailers:
  assumes "processLocked h (w, ic) = ((w', ic'), r)" "no_trailers h (ic_header ic)"
  shows "no_trailers h (ic_header ic')"
proof (cases "ic_revokeRequested ic")
  case True
  with assms revoke_response_trailers [of h w "ic\<lparr>ic_header := hDel ''Set-Cookie'' (ic_header ic)\<rparr>" w' ic' r] show ?thesis
    by (simp add: processLocked_def Let_def)
next
  case False
  with assms processLocked_keeps [OF closed_no_trailers, of h w ic w' ic' r] show ?thesis by simp
qed

lemma processLocked_sanitised:
  assumes ok: "proper_names h" and run: "processLocked h (w, ic) = ((w', ic'), Inr u)"
    and rev: "hValues (ic_header ic) (h_revokeHeaderName h) = []" and tr: "no_trailers h (ic_header ic)"
  shows "sanitised h (ic_header ic')"
proof (cases "ic_revokeRequested ic")
  case True
  with run have "revoke_response h (w, ic\<lparr>ic_header := hDel ''Set-Cookie'' (ic_header ic)\<rparr>) = ((w', ic'), Inr u)"
    by (simp add: processLocked_def Let_def)
  from revoke_response_sanitised [OF ok this] rev tr show ?thesis by (simp add: hValues_hDel)
next
  case False
  with rev tr processLocked_keeps [OF closed_sanitised [OF ok] run] show ?thesis
    by (simp add: sanitised_def no_controls_def request_names_def hValues_hDel)
qed

text \<open>The guarded function either did not run, or its own result stands.\<close>

lemma WithLock_cases:
  assumes "WithLock M sid fn (w, x) = ((w', x'), r)"
  obtains (refused) e where "x' = x" "r = Inl e"
  | (ran) w1 w2 where "fn (w1, x) = ((w2, x'), r)"
  using assms by (auto simp: WithLock_def split: if_splits prod.splits sum.splits option.splits)

text \<open>What \<open>process\<close> hands to \<open>processLocked\<close>.\<close>

definition begun :: "'st Handler \<Rightarrow> interceptor \<Rightarrow> interceptor" where
  "begun h ic = (let hdr = stripManagedTrailerDeclarations (managed_names h) (ic_header ic)
     in ic\<lparr>ic_header := hDel (h_revokeHeaderName h) hdr, ic_revokeRequested := ic_revokeRequested ic \<or> revoke_control h hdr\<rparr>)"

lemma process_cases:
  assumes "process h (w, ic) = ((w', ic'), r)"
  obtains (refused) e where "ic' = begun h ic" "r = Inl e"
  | (ran) w1 w2 where "processLocked h (w1, begun h ic) = ((w2, ic'), r)"
  using assms
  by (auto simp: process_def begun_def Let_def split: bool.splits option.splits elim!: WithLock_cases)

lemma begun_header [simp]:
  "no_trailers h (ic_header (begun h ic))" "hValues (ic_header (begun h ic)) (h_revokeHeaderName h) = []"
  by (simp_all add: begun_def Let_def hValues_hDel)

lemma process_sanitised:
  assumes "proper_names h" "process h (w, ic) = ((w', ic'), Inr u)"
  shows "sanitised h (ic_header ic')"
  using assms(2) by (cases rule: process_cases) (auto intro: processLocked_sanitised [OF assms(1)])

lemma process_trailers: "process h (w, ic) = ((w', ic'), r) \<Longrightarrow> no_trailers h (ic_header ic')"
  by (erule process_cases) (auto intro: processLocked_trailers)

text \<open>Failing or not, processing leaves a map that is fit for the client.\<close>

lemma ensureProcessed_sanitised:
  assumes "proper_names h" "\<not> ic_once ic" "ensureProcessed h (w, ic) = (w', ic')"
  shows "sanitised h (ic_header ic')"
proof -
  obtain w1 ic1 r where p: "process h (w, ic) = ((w1, ic1), r)" by (metis surj_pair)
  have "sanitised h (hDel (h_labelsHeaderName h) (hDel (h_revokeHeaderName h) (hDel (h_rotateHeaderName h)
     (hDel (h_IdentityHeader h) (hDel ''Set-Cookie'' (ic_header ic1))))))"
    using process_trailers [OF p] by (simp add: sanitised_def no_controls_def request_names_def hValues_hDel)
  with p assms process_sanitised [OF assms(1)] show ?thesis
    by (cases r) (auto simp: ensureProcessed_def Let_def split: if_splits)
qed

section \<open>What goes out on the wire\<close>

fun head_ok :: "'st Handler \<Rightarrow> wcall \<Rightarrow> bool" where
  "head_ok h (WHead status hdr) = sanitised h hdr"
| "head_ok h _ = True"

text \<open>Every header map sent so far is sanitised, and so is the one a later write would send.\<close>

definition wire_ok :: "'st Handler \<Rightarrow> client \<Rightarrow> bool" where
  "wire_ok h cl \<longleftrightarrow> list_all (head_ok h) (cl_calls cl) \<and> sanitised h (cl_header cl)"

text \<open>No \<open>Hijack\<close> after an earlier \<open>Hijack\<close> or flush.\<close>

fun hijacks :: "action \<Rightarrow> bool" where
  "hijacks DoHijack = True"
| "hijacks _ = False"

fun commits_early :: "action \<Rightarrow> bool" where
  "commits_early DoHijack = True"
| "commits_early DoFlush = True"
| "commits_early _ = False"

fun polite :: "action list \<Rightarrow> bool" where
  "polite [] = True"
| "polite (a # as) = ((commits_early a \<longrightarrow> \<not> list_ex hijacks as) \<and> polite as)"

lemma client_WriteHeader_ok: "wire_ok h cl \<Longrightarrow> wire_ok h (client_WriteHeader status cl)"
  by (simp add: wire_ok_def client_WriteHeader_def)

lemma copy_ok: "list_all (head_ok h) (cl_calls cl) \<Longrightarrow> sanitised h hdr \<Longrightarrow> wire_ok h (cl\<lparr>cl_header := copyHeaders d hdr\<rparr>)"
  by (simp add: wire_ok_def)

lemma wire_calls: "wire_ok h cl \<Longrightarrow> list_all (head_ok h) (cl_calls cl)"
  by (simp add: wire_ok_def)

lemma commitInformational_ok: "wire_ok h cl \<Longrightarrow> wire_ok h (commitInformational h ic cl)"
proof -
  have "wire_ok h cl \<Longrightarrow> wire_ok h (commit_one h x cl)" for x cl
    by (cases x) (simp add: client_WriteHeader_ok copy_ok sanitised_scrub wire_calls)
  then have "wire_ok h cl \<Longrightarrow> wire_ok h (fold (commit_one h) xs cl)" for xs
    by (induction xs arbitrary: cl) auto
  then show "wire_ok h cl \<Longrightarrow> wire_ok h (commitInformational h ic cl)" by (simp add: commitInformational_def)
qed

lemma client_Write_ok: "client_Write p (e, cl) = ((e', cl'), r) \<Longrightarrow> wire_ok h cl \<Longrightarrow> wire_ok h cl'"
  by (auto simp: client_Write_def wire_ok_def Let_def split: prod.splits)

lemma client_Call_ok: "client_Call c (e, cl) = ((e', cl'), r) \<Longrightarrow> head_ok h c \<Longrightarrow> wire_ok h cl \<Longrightarrow> wire_ok h cl'"
  by (auto simp: client_Call_def wire_ok_def split: prod.splits)

lemma discard_sel [simp]:
  "ic_once (discardBackendMetadata h ic)" "ic_terminal (discardBackendMetadata h ic) = ic_terminal ic"
  "ic_body (discardBackendMetadata h ic) = ic_body ic"
  by (simp_all add: discardBackendMetadata_def)

lemma go_terminal_ok:
  assumes "go_terminal h (e, cl, ic) = (e', cl', ic')" "\<not> ic_once ic" "wire_ok h cl"
  shows "wire_ok h cl' \<and> ic_terminal ic'"
proof -
  let ?ic = "(discardBackendMetadata h ic)\<lparr>ic_terminal := True\<rparr>"
  have "wire_ok h ((commitInformational h ?ic cl)\<lparr>cl_header := copyHeaders d (ic_header ?ic)\<rparr>)" for d
    using assms(2,3) by (simp add: copy_ok wire_calls commitInformational_ok sanitised_discard)
  with assms(1) show ?thesis
    by (auto simp: go_terminal_def releaseTerminalStaging_def Let_def client_WriteHeader_ok split: prod.splits)
qed

lemma finish_terminal_ok:
  "finish_terminal c (e, cl, ic) = ((e', cl', ic'), r) \<Longrightarrow> head_ok h c \<Longrightarrow> wire_ok h cl \<Longrightarrow>
   wire_ok h cl' \<and> ic_terminal ic' = ic_terminal ic"
  by (auto simp: finish_terminal_def dest: client_Call_ok split: prod.splits if_splits)

text \<open>The interceptor's own invariant: the one-time processing is spent before the end only by going
  terminal.\<close>

definition act_ok :: "'st Handler \<Rightarrow> io \<Rightarrow> bool" where
  "act_ok h = (\<lambda>(e, cl, ic). wire_ok h cl \<and> (ic_once ic \<longrightarrow> ic_terminal ic))"

definition terminal :: "io \<Rightarrow> bool" where
  "terminal = (\<lambda>(e, cl, ic). ic_terminal ic)"

lemma set_writeErr_sel [simp]: "ic_once (set_writeErr x ic) = ic_once ic" "ic_terminal (set_writeErr x ic) = ic_terminal ic"
  by (simp_all add: set_writeErr_def)

lemma default_status_sel [simp]: "ic_once (default_status ic) = ic_once ic" "ic_terminal (default_status ic) = ic_terminal ic"
  by (simp_all add: default_status_def)

lemma reserveMetadataBytes_sel:
  "reserveMetadataBytes n (e, ic) = ((e', ic'), r) \<Longrightarrow> ic_once ic' = ic_once ic \<and> ic_terminal ic' = ic_terminal ic"
  by (auto simp: reserveMetadataBytes_def split: prod.splits bool.splits if_splits)

lemma reserveFinalMetadata_sel:
  "reserveFinalMetadata h (e, ic) = ((e', ic'), r) \<Longrightarrow> ic_once ic' = ic_once ic \<and> ic_terminal ic' = ic_terminal ic"
  by (auto simp: reserveFinalMetadata_def dest!: reserveMetadataBytes_sel split: prod.splits option.splits if_splits)

lemma WriteHeader_sel:
  "ic_WriteHeader status (e, ic) = Some (e', ic') \<Longrightarrow> ic_once ic' = ic_once ic \<and> ic_terminal ic' = ic_terminal ic"
  by (auto simp: ic_WriteHeader_def dest!: reserveMetadataBytes_sel split: prod.splits option.splits if_splits)

lemma Write_ok: "act_ok h s \<Longrightarrow> ic_Write p s = (s', r) \<Longrightarrow> act_ok h s' \<and> terminal s' = terminal s"
  by (cases s) (auto simp: ic_Write_def act_ok_def terminal_def Let_def dest: client_Write_ok split: prod.splits if_splits option.splits)

lemma go_ok:
  assumes "finish_terminal c (go_terminal h (e, cl, ic)) = (s', r)" "head_ok h c" "\<not> ic_once ic" "wire_ok h cl"
  shows "act_ok h s' \<and> terminal s'"
proof -
  obtain e1 cl1 ic1 where g: "go_terminal h (e, cl, ic) = (e1, cl1, ic1)" by (metis surj_pair)
  from go_terminal_ok [OF g assms(3,4)] finish_terminal_ok [of c e1 cl1 ic1 _ _ _ r h] assms(1,2) g show ?thesis
    by (cases s') (auto simp: act_ok_def terminal_def)
qed

lemma Flush_ok:
  assumes "act_ok h s" "FlushError h s = (s', r)"
  shows "act_ok h s' \<and> (terminal s \<longrightarrow> terminal s')"
proof -
  obtain e cl ic where s: "s = (e, cl, ic)" by (cases s)
  obtain e1 ic1 r1 where f: "reserveFinalMetadata h (e, ic) = ((e1, ic1), r1)" by (metis surj_pair)
  note sel = reserveFinalMetadata_sel [OF f]
  show ?thesis
  proof (cases "ic_terminal ic")
    case True
    with assms s show ?thesis
      by (auto simp: FlushError_def act_ok_def terminal_def dest: client_Call_ok [where h = h] split: prod.splits if_splits)
  next
    case False
    with assms(1) s have "\<not> ic_once (default_status ic1)" "wire_ok h cl" using sel by (auto simp: act_ok_def)
    with assms s f sel False show ?thesis
      by (auto simp: FlushError_def act_ok_def terminal_def split: option.splits if_splits dest: go_ok [where h = h])
  qed
qed

lemma Hijack_ok:
  assumes "act_ok h s" "Hijack h s = (s', r)" "\<not> terminal s"
  shows "act_ok h s'"
proof -
  obtain e cl ic where s: "s = (e, cl, ic)" by (cases s)
  obtain e1 ic1 r1 where f: "reserveFinalMetadata h (e, ic) = ((e1, ic1), r1)" by (metis surj_pair)
  note sel = reserveFinalMetadata_sel [OF f]
  with assms(1,3) s have "\<not> ic_once ic1" "wire_ok h cl" by (auto simp: act_ok_def terminal_def)
  with assms s f sel show ?thesis
    by (auto simp: Hijack_def act_ok_def terminal_def split: option.splits if_splits dest: go_ok [where h = h])
qed

lemma act_keeps:
  assumes "act h a s = Some s'" "act_ok h s" "terminal s \<Longrightarrow> \<not> hijacks a"
  shows "act_ok h s' \<and> (terminal s' \<longrightarrow> terminal s \<or> commits_early a)"
proof (cases a)
  case (EditHeader f)
  with assms show ?thesis by (cases s) (auto simp: act_ok_def terminal_def)
next
  case (DoWriteHeader status)
  with assms show ?thesis
    by (cases s) (auto simp: act_ok_def terminal_def dest!: WriteHeader_sel split: option.splits)
next
  case (DoWrite p)
  with assms Write_ok [of h s p s' "snd (ic_Write p s)"] show ?thesis by (cases "ic_Write p s") auto
next
  case DoFlush
  with assms Flush_ok [of h s s' "snd (FlushError h s)"] show ?thesis by (cases "FlushError h s") auto
next
  case DoHijack
  with assms Hijack_ok [of h s s' "snd (Hijack h s)"] show ?thesis by (cases "Hijack h s") auto
qed

lemma acts_keeps:
  assumes "acts h as s = (s', panicked)" "act_ok h s" "polite as" "terminal s \<Longrightarrow> \<not> list_ex hijacks as"
  shows "act_ok h s'"
  using assms
proof (induction as arbitrary: s)
  case (Cons a as)
  show ?case
  proof (cases "act h a s")
    case (Some s1)
    from act_keeps [OF Some Cons.prems(2)] Cons.prems(4)
    have 1: "act_ok h s1" "terminal s1 \<Longrightarrow> terminal s \<or> commits_early a" by auto
    from Some Cons.prems 1 show ?thesis by (auto intro!: Cons.IH [of s1])
  qed (use Cons.prems in simp)
qed simp

definition client_of :: "io \<Rightarrow> client" where
  "client_of = (\<lambda>(e, cl, ic). cl)"

lemma client_of_triple [simp]: "client_of (e, cl, ic) = cl"
  by (simp add: client_of_def)

lemma drop_response_ok: "wire_ok h (client_of s) \<Longrightarrow> wire_ok h (client_of (drop_response h s))"
  by (cases s) (auto simp: drop_response_def client_of_def wire_ok_def split: prod.splits)

lemma bad_gateway_ok: "wire_ok h (client_of s) \<Longrightarrow> wire_ok h (client_of (bad_gateway h s))"
  using drop_response_ok [of h s]
  by (cases "drop_response h s") (simp add: bad_gateway_def client_of_def client_WriteHeader_ok)

lemma close_body_client [simp]: "client_of (close_body s) = client_of s"
  by (cases s) (simp add: close_body_def client_of_def split: prod.splits)

lemma commit_response_ok:
  assumes "commit_response h (e, cl, ic) = (s', out)" "wire_ok h cl" "sanitised h (ic_header ic)"
  shows "wire_ok h (client_of s')"
proof -
  have "wire_ok h ((commitInformational h ic cl)\<lparr>cl_header := copyHeaders d (ic_header ic)\<rparr>)" for d
    using assms(2,3) by (simp add: copy_ok wire_calls commitInformational_ok)
  from this client_WriteHeader_ok [OF this] assms(1) show ?thesis
    by (auto simp: commit_response_def Let_def client_of_def wire_ok_def split: if_splits prod.splits)
qed

lemma finish_response_ok:
  assumes "proper_names h" "finish_response h err w s = (w', s', out)" "act_ok h s"
  shows "wire_ok h (client_of s')"
proof -
  obtain e cl ic where s: "s = (e, cl, ic)" by (cases s)
  have cl: "wire_ok h cl" "ic_once ic \<Longrightarrow> ic_terminal ic" using assms(3) s by (auto simp: act_ok_def)
  have bad: "wire_ok h (client_of (bad_gateway h (e1, cl, ic1)))" "wire_ok h (client_of (drop_response h (e1, cl, ic1)))" for e1 ic1
    using cl(1) by (simp_all add: bad_gateway_ok drop_response_ok)
  obtain e1 ic1 r1 where f: "reserveFinalMetadata h (e, ic) = ((e1, ic1), r1)" by (metis surj_pair)
  note sel = reserveFinalMetadata_sel [OF f]
  obtain e2 b2 r2 where v: "body_Validate (e1, ic_body ic1) = ((e2, b2), r2)" by (metis surj_pair)
  obtain w3 ic3 where p: "ensureProcessed h (w, ic1\<lparr>ic_body := b2\<rparr>) = (w3, ic3)" by fastforce
  show ?thesis
  proof (cases "ic_writeErr ic = None \<and> err = None \<and> r1 = None \<and> \<not> ic_terminal ic1 \<and> r2 = None \<and> \<not> ic_failed ic3")
    case True
    then have "sanitised h (ic_header ic3)" using ensureProcessed_sanitised [OF assms(1) _ p] sel cl(2) by auto
    with True assms(2) s f v p cl(1) show ?thesis
      by (auto simp: finish_response_def intro: commit_response_ok)
  next
    case False
    with assms(2) s f v p cl(1) bad show ?thesis
      by (auto simp: finish_response_def split: option.splits if_splits)
  qed
qed

lemma new_interceptor_ok: "wire_ok h cl \<Longrightarrow> act_ok h (e, cl, new_interceptor x live had rerr hdr)"
  by (simp add: act_ok_def new_interceptor_def)

lemma forward_ok:
  assumes "proper_names h" "forward h next x r live had rerr w (e, cl) = (w', s', out)" "wire_ok h cl"
    and "\<And>r. polite (fst (next r))"
  shows "wire_ok h (client_of s')"
proof -
  let ?r = "prepareUpstreamCookies h (case live of None \<Rightarrow> [] | Some l \<Rightarrow> l_Cookies l) r"
  obtain as fin where n: "next ?r = (as, fin)" by fastforce
  obtain s1 panicked where a: "acts h as (e, cl, new_interceptor x live had rerr (cl_header cl)) = (s1, panicked)" by fastforce
  have ok: "act_ok h s1"
    using acts_keeps [OF a new_interceptor_ok [OF assms(3)]] assms(4) [of ?r] n
    by (simp add: terminal_def new_interceptor_def)
  then have "wire_ok h (client_of s1)" by (cases s1) (simp add: act_ok_def)
  with assms(2) n a finish_response_ok [OF assms(1) _ ok] show ?thesis
    by (auto simp: forward_def Let_def split: if_splits ending.splits prod.splits)
qed

lemma denyAuthz_ok:
  assumes "proper_names h" "wire_ok h cl"
  shows "wire_ok h (denyAuthz a r required cl)"
proof -
  have "sanitised h (hSet k v (cl_header cl))" if "k = ''Location'' \<or> k = ''X-Auth-Endpoint''" for k v
  proof -
    have "list_all token_byte k" using that by (elim disjE) (simp; code_simp)+
    moreover have "fst ` set (hSet k v (cl_header cl)) = insert k (fst ` set (cl_header cl))"
      using that by (auto simp: hSet_def dom_update)
    ultimately have "no_trailers h (hSet k v (cl_header cl))"
      using assms(2) trailer_key_not_token [of k] by (auto simp: wire_ok_def sanitised_def no_trailers_keys)
    with assms that show ?thesis
      by (auto simp: wire_ok_def sanitised_def no_controls_def proper_names_def list_all_iff hValues_hSet)
  qed
  with assms(2) show ?thesis by (simp add: denyAuthz_def Let_def client_WriteHeader_def wire_ok_def)
qed

end
