(* ===== verification/Upstream_Request.thy ===== *)
theory Upstream_Request
  imports Request_Handler
begin

text \<open>
  What the backend is given: the request without control headers and trailers, and with a \<open>Cookie\<close> line
  that a server parses into the client's unmanaged cookies and the cached ones and nothing else.
\<close>

section \<open>Splitting and trimming\<close>

lemma TrimString_Cons: "ascii_space c \<Longrightarrow> TrimString (c # s) = TrimString s"
  by (simp add: TrimString_def)

lemma TrimString_snoc: "ascii_space c \<Longrightarrow> TrimString (s @ [c]) = TrimString s"
proof (cases "list_all ascii_space s")
  case True
  moreover assume "ascii_space c"
  ultimately have "dropWhile ascii_space (s @ [c]) = []" "dropWhile ascii_space s = []" by (auto simp: list_all_iff)
  then show ?thesis by (simp only: TrimString_def)
next
  case False
  moreover assume "ascii_space c"
  ultimately show ?thesis by (auto simp: TrimString_def list_all_iff dropWhile_append)
qed

lemma Split_snoc: "c \<noteq> d \<Longrightarrow> Split (s @ [d]) c = butlast (Split s c) @ [last (Split s c) @ [d]]"
  by (induction s) (auto split: list.splits simp: Split_nonempty)

lemma trim_split_left: "\<not> ascii_space c \<Longrightarrow> map TrimString (Split (dropWhile ascii_space s) c) = map TrimString (Split s c)"
  by (induction s) (auto split: list.splits simp: TrimString_Cons Split_nonempty)

lemma trim_split_right:
  "\<not> ascii_space c \<Longrightarrow> map TrimString (Split (rev (dropWhile ascii_space (rev s))) c) = map TrimString (Split s c)"
proof (induction s rule: rev_induct)
  case (snoc d s)
  show ?case
  proof (cases "ascii_space d")
    case True
    with snoc have "d \<noteq> c" by auto
    then have "map TrimString (Split (s @ [d]) c) = map TrimString (butlast (Split s c) @ [last (Split s c)])"
      using True by (simp add: Split_snoc TrimString_snoc)
    with snoc True show ?thesis by (simp add: Split_nonempty)
  qed simp
qed simp

lemma trim_split: "\<not> ascii_space c \<Longrightarrow> map TrimString (Split (TrimString s) c) = map TrimString (Split s c)"
  unfolding TrimString_def [of s] by (simp only: trim_split_right trim_split_left not_False_eq_True)

lemma cookie_line_parts:
  "\<forall>x \<in> set xs. CHR '';'' \<notin> set x \<Longrightarrow> map TrimString (Split (Join xs ''; '') (CHR '';'')) = (if xs = [] then [[]] else map TrimString xs)"
proof (induction xs rule: induct_list012)
  case (3 x y zs)
  have "Split (CHR '' '' # Join (y # zs) ''; '') (CHR '';'') = (CHR '' '' # hd (Split (Join (y # zs) ''; '') (CHR '';''))) # tl (Split (Join (y # zs) ''; '') (CHR '';''))"
    by (cases "Split (Join (y # zs) ''; '') (CHR '';'')") (auto simp: Split_nonempty)
  moreover have "ascii_space (CHR '' '')" by (simp add: ascii_space_def ord_def)
  ultimately have "map TrimString (Split (CHR '' '' # Join (y # zs) ''; '') (CHR '';'')) = map TrimString (Split (Join (y # zs) ''; '') (CHR '';''))"
    by (cases "Split (Join (y # zs) ''; '') (CHR '';'')") (auto simp: Split_nonempty TrimString_Cons)
  with 3 show ?case by (simp add: Split_append Split_single)
qed (simp_all add: Split_single TrimString_def)

section \<open>Cookie lines\<close>

definition plain_pair :: "string \<times> string \<Rightarrow> bool" where
  "plain_pair = (\<lambda>(name, val). isToken name \<and> list_all value_byte val)"

lemma cookie_part_plain: "cookie_part part = Some p \<Longrightarrow> plain_pair p"
  by (auto simp: cookie_part_def plain_pair_def parseCookieValue_def Let_def split: if_splits prod.splits)

lemma token_chars: "token_byte c \<Longrightarrow> \<not> ascii_space c \<and> c \<noteq> CHR ''='' \<and> c \<noteq> CHR '';''"
  by (auto simp: token_byte_def ascii_space_def Let_def ord_def)

lemma value_chars: "value_byte c \<Longrightarrow> c \<noteq> CHR '';''"
  by (simp add: value_byte_def)

lemma plain_text: "plain_pair p \<Longrightarrow> CHR '';'' \<notin> set (pair_text p)"
  by (auto simp: plain_pair_def pair_text_def isToken_def list_all_iff dest: token_chars value_chars split: prod.splits)

lemma set_map_filter: "y \<in> set (List.map_filter f xs) \<longleftrightarrow> (\<exists>x \<in> set xs. f x = Some y)"
  by (force simp: List.map_filter_def)

lemma readCookies_plain: "p \<in> set (readCookies hdr) \<Longrightarrow> plain_pair p"
  by (auto simp: readCookies_def Let_def set_map_filter split: if_splits option.splits dest: cookie_part_plain)

lemma trim_pair:
  assumes "isToken name"
  shows "\<exists>v. TrimString (pair_text (name, val)) = name @ CHR ''='' # v"
proof -
  obtain c s where n: "name = c # s" using assms by (cases name) (auto simp: isToken_def)
  have "\<not> ascii_space c" using assms n token_chars by (auto simp: isToken_def)
  moreover have "\<not> ascii_space (CHR ''='')" by (simp add: ascii_space_def ord_def)
  ultimately have "TrimString (pair_text (name, val)) = name @ CHR ''='' # rev (dropWhile ascii_space (rev val))"
    by (simp add: TrimString_def pair_text_def n dropWhile_append)
  then show ?thesis ..
qed

lemma cookie_part_pair:
  assumes "isToken name" "TrimString part = TrimString (pair_text (name, val))" "cookie_part part = Some (n, v)"
  shows "n = name"
proof -
  obtain u where u: "TrimString part = name @ CHR ''='' # u" using trim_pair [OF assms(1)] assms(2) by metis
  have no: "CHR ''='' \<notin> set name" using assms(1) token_chars by (auto simp: isToken_def list_all_iff)
  then have "Cut (TrimString part) (CHR ''='') = (name, u, True)" unfolding u Cut_def by (auto simp: takeWhile_append)
  moreover have "\<forall>c \<in> set name. \<not> ascii_space c" using assms(1) token_chars by (auto simp: isToken_def list_all_iff)
  then have "dropWhile ascii_space name = name" "dropWhile ascii_space (rev name) = rev name"
    by (auto simp: dropWhile_eq_self_iff hd_rev)
  then have "TrimString name = name" by (simp add: TrimString_def)
  ultimately show ?thesis using assms(3) by (auto simp: cookie_part_def Let_def split: if_splits)
qed

text \<open>A line printed from plain pairs is parsed into cookies of those names only.\<close>

lemma parse_names:
  assumes "\<forall>p \<in> set ps. plain_pair p" "(n, v) \<in> set (readCookies (hSet ''Cookie'' (Join (map pair_text ps) ''; '') hdr))"
  shows "n \<in> fst ` set ps"
proof -
  let ?line = "Join (map pair_text ps) ''; ''"
  have c: "CanonicalHeaderKey ''Cookie'' = ''Cookie''" by code_simp
  obtain part where part: "part \<in> set (Split (TrimString ?line) (CHR '';''))" "cookie_part part = Some (n, v)"
    using assms(2) by (auto simp: readCookies_def hSet_def c gomap_simps Let_def set_map_filter split: if_splits)
  have semi: "\<not> ascii_space (CHR '';'')" by (simp add: ascii_space_def ord_def)
  have "\<forall>x \<in> set (map pair_text ps). CHR '';'' \<notin> set x" using assms(1) plain_text by simp
  note parts = cookie_line_parts [OF this]
  have "TrimString part \<in> TrimString ` set (Split (TrimString ?line) (CHR '';''))" using part(1) by (rule imageI)
  then have "TrimString part \<in> set (if map pair_text ps = [] then [[]] else map TrimString (map pair_text ps))"
    by (simp only: set_map [symmetric] trim_split [OF semi] parts)
  moreover have "TrimString part \<noteq> []" using part(2) by (auto simp: cookie_part_def Let_def split: if_splits)
  ultimately have "TrimString part \<in> set (map TrimString (map pair_text ps))" by (cases "ps = []") simp_all
  then obtain p where p: "p \<in> set ps" "TrimString part = TrimString (pair_text p)" by auto
  have "isToken (fst p)" using assms(1) p(1) by (cases p) (auto simp: plain_pair_def)
  with cookie_part_pair [of "fst p" part "snd p" n v] part(2) p have "n = fst p" by simp
  with p(1) show ?thesis by simp
qed

section \<open>The request handed on\<close>

lemma hValues_fold_del: "hValues (fold hDel ns h) k = (if CanonicalHeaderKey k \<in> CanonicalHeaderKey ` set ns then [] else hValues h k)"
  by (induction ns arbitrary: h) (auto simp: hValues_hDel)

lemma scrubbed: "n \<in> set (ts_names b) \<Longrightarrow> hValues (ts_trailer (scrub b)) n = [] \<and> ts_names (scrub b) = ts_names b"
  by (simp add: scrub_def hValues_fold_del)

end
