(* ===== verification/Manager_Properties.thy ===== *)
theory Manager_Properties
  imports Manager_Exact
begin

text \<open>
  Correctness of the session manager over the in-memory store: identifiers, labels, time limits,
  fixation defence, compare-and-swap of handles, revocation, locking, and the invariants that every
  interleaving of requests keeps.
\<close>

section \<open>Labels\<close>

lemma dedupe_set: "set (dedupe seen ls) = TrimSpace ` set ls - {[]} - set seen"
proof (induction seen ls rule: dedupe.induct)
  case (2 seen l ls)
  then show ?case by (auto simp: Let_def)
qed simp

lemma dedupe_distinct: "distinct (dedupe seen ls)"
  by (induction seen ls rule: dedupe.induct) (auto simp: Let_def dedupe_set)

lemma sort_distinct_eq: "distinct xs \<Longrightarrow> sort xs = sorted_list_of_set (set xs)" for xs :: "string list"
  by (simp add: sorted_list_of_set_sort_remdups distinct_remdups_id)

lemma normalizeLabels_eq:
  "normalizeLabels ls = Join (sorted_list_of_set (TrimSpace ` set ls - {[]})) '' ''"
  by (simp add: normalizeLabels_def sort_distinct_eq dedupe_distinct dedupe_set)

lemma TrimSpace_image: "\<forall>l \<in> set ls. no_rune IsSpace l \<Longrightarrow> TrimSpace ` set ls = set ls"
  by (simp add: TrimSpace_id)

lemma Fields_normalizeLabels:
  assumes "\<forall>l \<in> set ls. no_rune IsSpace l"
  shows "Fields (normalizeLabels ls) = sorted_list_of_set (set ls - {[]})"
  unfolding normalizeLabels_eq TrimSpace_image [OF assms] using assms by (intro Fields_Join) auto

text \<open>
  C18. Labels have one canonical stored form. For labels without white space, the stored string reads
  back as the sorted list of the non-empty labels without duplicates, normalizing it again changes
  nothing, and two label lists are stored alike exactly when they hold the same non-empty labels.
\<close>

theorem normalizeLabels_canonical:
  assumes "\<forall>l \<in> set ls. no_rune IsSpace l" and "\<forall>l \<in> set ls'. no_rune IsSpace l"
  shows "Fields (normalizeLabels ls) = sorted_list_of_set (set ls - {[]}) \<and>
    normalizeLabels (Fields (normalizeLabels ls)) = normalizeLabels ls \<and>
    (normalizeLabels ls = normalizeLabels ls' \<longleftrightarrow> set ls - {[]} = set ls' - {[]})"
proof (intro conjI iffI)
  note f = Fields_normalizeLabels [OF assms(1)] Fields_normalizeLabels [OF assms(2)]
  show "Fields (normalizeLabels ls) = sorted_list_of_set (set ls - {[]})" by (rule f(1))
  have "\<forall>l \<in> set (Fields (normalizeLabels ls)). no_rune IsSpace l" using assms(1) by (simp add: f)
  then have "normalizeLabels (Fields (normalizeLabels ls)) = Join (sorted_list_of_set (set (Fields (normalizeLabels ls)) - {[]})) '' ''"
    by (subst normalizeLabels_eq) (simp only: TrimSpace_image)
  also have "\<dots> = normalizeLabels ls" unfolding f by (simp add: normalizeLabels_eq TrimSpace_image [OF assms(1)])
  finally show "normalizeLabels (Fields (normalizeLabels ls)) = normalizeLabels ls" .
  show "set ls - {[]} = set ls' - {[]}" if "normalizeLabels ls = normalizeLabels ls'"
  proof -
    have "set (Fields (normalizeLabels ls)) = set (Fields (normalizeLabels ls'))" by (simp only: that)
    then show ?thesis unfolding f by simp
  qed
  show "normalizeLabels ls = normalizeLabels ls'" if "set ls - {[]} = set ls' - {[]}"
    using that TrimSpace_image [OF assms(1)] TrimSpace_image [OF assms(2)] by (simp add: normalizeLabels_eq)
qed

theorem normalizeLabels_canonical_witness:
  "(normalizeLabels [''user'', ''adm'', [], ''user''] = normalizeLabels [''adm'', ''user''] \<longleftrightarrow>
     set [''user'', ''adm'', [], ''user''] - {[]} = set [''adm'', ''user''] - {[]}) \<and>
   normalizeLabels [''user'', ''adm'', [], ''user''] = ''adm user''"
proof -
  have "no_rune IsSpace ''user''" "no_rune IsSpace ''adm''" "no_rune IsSpace []" by code_simp+
  moreover have "normalizeLabels [''user'', ''adm'', [], ''user''] = ''adm user''" by code_simp
  ultimately show ?thesis
    using normalizeLabels_canonical [of "[''user'', ''adm'', [], ''user'']" "[''adm'', ''user'']"] by simp
qed

section \<open>Identifiers\<close>

text \<open>
  C19. Identifiers are 43 characters of the URL-safe alphabet, 32 fresh bytes each, and different
  bytes give different identifiers; the reader running dry is an error, never a short identifier.
\<close>

theorem newID_spec:
  "(length (w_rng w) < 32 \<longrightarrow> snd (newID w) = Inl ErrRandom) \<and>
   (32 \<le> length (w_rng w) \<longrightarrow> (\<exists>x. newID w = (w\<lparr>w_rng := drop 32 (w_rng w)\<rparr>, Inr x) \<and>
      length x = 43 \<and> set x \<subseteq> set b64_alphabet)) \<and>
   (32 \<le> length (w_rng w) \<and> 32 \<le> length (w_rng w') \<and> snd (newID w) = snd (newID w') \<longrightarrow>
      take 32 (w_rng w) = take 32 (w_rng w'))"
proof (intro conjI impI)
  show "32 \<le> length (w_rng w) \<Longrightarrow> \<exists>x. newID w = (w\<lparr>w_rng := drop 32 (w_rng w)\<rparr>, Inr x) \<and>
      length x = 43 \<and> set x \<subseteq> set b64_alphabet"
    by (simp add: newID_def length_RawURLEncode RawURLEncode_alphabet)
  show "32 \<le> length (w_rng w) \<and> 32 \<le> length (w_rng w') \<and> snd (newID w) = snd (newID w') \<Longrightarrow>
      take 32 (w_rng w) = take 32 (w_rng w')"
    by (rule RawURLEncode_inj) (auto simp: newID_def split: if_splits)
qed (simp add: newID_def)

definition demo_world :: "string \<Rightarrow> 'st \<Rightarrow> 'st world" where
  "demo_world rng st = \<lparr>w_store = st, w_rng = rng, w_clock = (\<lambda>_. 1000), w_ticks = 0, w_env = (\<lambda>_ s. s), w_calls = 0\<rparr>"

theorem newID_spec_witness:
  "\<exists>x. newID (demo_world (replicate 40 (CHR ''a'')) NewMemory) =
       (demo_world (replicate 8 (CHR ''a'')) NewMemory, Inr x) \<and> length x = 43"
proof -
  have "drop 32 (replicate 40 (CHR ''a'')) = replicate 8 (CHR ''a'')" by simp
  then show ?thesis
    using newID_spec [of "demo_world (replicate 40 (CHR ''a'')) NewMemory" "demo_world [] NewMemory"]
    by (auto simp: demo_world_def)
qed

section \<open>Time limits\<close>

lemma i64_small: "- (2 ^ 62) \<le> x \<Longrightarrow> x \<le> 2 ^ 62 \<Longrightarrow> i64 x = x"
  by (rule i64_id) (simp add: is_i64_def)

text \<open>
  C17. The time to live handed to the store is positive for every session that is not expired, never
  longer than the inactivity limit, and never reaches past the absolute deadline; this holds for
  every limit a Go duration can hold, without overflow.
\<close>

theorem ttl_bounds:
  assumes live: "\<not> expired s now"
    and limits: "0 \<le> s_InactiveTimeout s" "s_InactiveTimeout s \<le> 9223372036"
      "0 \<le> s_FinalTimeout s" "s_FinalTimeout s \<le> 9223372036"
    and times: "0 \<le> s_Creation s" "s_Creation s \<le> now" "0 \<le> s_LastAccess s" "s_LastAccess s \<le> now" "now \<le> 2 ^ 61"
  shows "0 < ttl_of s now \<and> ttl_of s now \<le> s_InactiveTimeout s * Second \<and>
    now * Second + ttl_of s now \<le> (s_Creation s + s_FinalTimeout s) * Second"
proof -
  have sum: "i64 (s_Creation s + s_FinalTimeout s) = s_Creation s + s_FinalTimeout s"
    using limits times by (intro i64_small) simp_all
  have diff: "i64 (now - s_LastAccess s) = now - s_LastAccess s" using times by (intro i64_small) simp_all
  define rest where "rest = s_Creation s + s_FinalTimeout s - now"
  have rest: "0 < rest" "rest \<le> 9223372036"
    using live limits times by (simp_all add: expired_def sum diff rest_def)
  have r1: "i64 (s_Creation s + s_FinalTimeout s - now) = rest" using rest unfolding rest_def by (intro i64_small) simp_all
  have r2: "i64 (rest * Second) = rest * Second" "i64 (s_InactiveTimeout s * Second) = s_InactiveTimeout s * Second"
    using rest limits by (simp_all add: i64_id is_i64_def Second_def)
  have ttl: "ttl_of s now = min (rest * Second) (s_InactiveTimeout s * Second)"
    by (auto simp: ttl_of_def sum r1 r2 Let_def)
  have "0 < s_InactiveTimeout s" using live times by (auto simp: expired_def diff)
  with rest have "0 < ttl_of s now" by (simp add: ttl Second_def)
  moreover have "now * Second + rest * Second = (s_Creation s + s_FinalTimeout s) * Second"
    by (simp add: rest_def algebra_simps)
  ultimately show ?thesis unfolding ttl by linarith
qed

definition demo_row :: Session where
  "demo_row = \<lparr>s_ID = ''s'', s_Creation = 900, s_LastAccess = 990, s_InactiveTimeout = 60, s_FinalTimeout = 120,
     s_OwnerID = 7, s_LastRotation = 900, s_Labels = ''user''\<rparr>"

theorem ttl_bounds_witness: "0 < ttl_of demo_row 1000 \<and> 1000 * Second + ttl_of demo_row 1000 \<le> 1020 * Second"
proof -
  have "\<not> expired demo_row 1000" by code_simp
  then show ?thesis using ttl_bounds [of demo_row 1000] by (simp add: demo_row_def)
qed

section \<open>Rotation on privilege changes\<close>

abbreviation "mem_world P w \<equiv> sound_world mem_ok mem_view P w"
abbreviation "mv w \<equiv> mem_view (w_store w)"

lemma commits_rotated:
  assumes "commits i ls c0 now key l v v' l'" "c_Rotate c0" "c_OldKeyID c0 = l_KeyID l"
  shows "v_key v' (l_KeyID l) = None \<and> v_key v' (l_KeyID l') = Some (l_SessionID l) \<and>
    l_KeyID l' \<noteq> l_KeyID l \<and> NewProxyCookie l' = Some (l_KeyID l')"
proof -
  have ok: "v_session v (l_SessionID l) \<noteq> None" "v_key v (l_KeyID l) = Some (l_SessionID l)" "v_key v key = None"
    using assms by (auto simp: commits_def Let_def)
  from ok(1) obtain s where s: "v_session v (l_SessionID l) = Some s" by blast
  have "key \<noteq> l_KeyID l" using ok by auto
  moreover have "l_KeyID l' = key" "l_newKey l' = key" "l_rewrite l'"
    using assms by (simp_all add: commits_def Let_def take_key_def)
  moreover have "v_key v' = (v_key v)(key \<mapsto> l_SessionID l, l_KeyID l := None)"
    using assms s by (simp add: commits_def Let_def spec_controls_def)
  ultimately show ?thesis by (simp add: NewProxyCookie_def)
qed

text \<open>
  C7. Fixation defence. Whenever a response changes the privileges of a session (a new owner with
  rotation on login, a new label set) or asks for a rotation, and the update succeeds, the key the
  client came with is dead, the handle carries a different key that leads to the session, and that
  key is due to be sent to the client. This holds whatever other requests did meanwhile.
\<close>

theorem privilege_change_rotates:
  assumes w: "mem_world P w" and M: "m_store M = MemoryStore" and fresh: "\<not> l_rewrite l"
    and run: "applyControls M ownerID labels force periodic cookies (w, l) = ((w', l'), Inr ())"
    and change: "\<forall>v s. others P (mv w) v \<longrightarrow> v_session v (l_SessionID l) = Some s \<longrightarrow>
      force \<or> (RotateOnLogin (m_cfg M) \<and> (\<exists>i. ownerID = Some i \<and> i \<noteq> s_OwnerID s)) \<or>
      (\<exists>ls. labels = Some ls \<and> normalizeLabels ls \<noteq> s_Labels s)"
  shows "v_key (mv w') (l_KeyID l) = None \<and> v_key (mv w') (l_KeyID l') = Some (l_SessionID l) \<and>
    l_KeyID l' \<noteq> l_KeyID l \<and> NewProxyCookie l' = Some (l_KeyID l')"
proof -
  define now where "now = w_clock w (w_ticks w)"
  from mem.applyControls_outcome [OF w M run, folded now_def] obtain s c0 v0 where
    v0: "others P (mv w) v0" "v_session v0 (l_SessionID l) = Some s"
    and c0: "c0 = controls0 (m_cfg M) l s ownerID labels force periodic cookies now"
    and cases: "if idle c0 then mv w' = v0 \<and> l' = settle ownerID labels l
      else \<exists>key v. others P v0 v \<and> commits ownerID labels c0 now key l v (mv w') l'"
    by auto
  from change v0 fresh have rot: "c_Rotate c0" unfolding c0 controls0_rotate by blast
  then have "\<not> idle c0" by (simp add: idle_def)
  with cases obtain key v where "commits ownerID labels c0 now key l v (mv w') l'" by auto
  from commits_rotated [OF this rot] show ?thesis by (simp add: c0)
qed

definition demo_manager :: "Memory Manager" where
  "demo_manager = \<lparr>m_store = MemoryStore, m_cfg = \<lparr>Inactive = 60 * Second, Final = 120 * Second, Synchronize = True,
     RotateOnLogin = True, RotateInterval = 0\<rparr>\<rparr>"

definition demo_memory :: Memory where
  "demo_memory = exec_all MemoryStore 0 0 [CPutSession (demo_row\<lparr>s_OwnerID := 0\<rparr>), CPutKey ''k0'' ''s''] NewMemory"

definition demo_live :: Live where
  "demo_live = \<lparr>l_KeyID = ''k0'', l_SessionID = ''s'', l_OwnerID = 0, l_Cookies = [], l_Labels = [''user''], l_shas = [],
     l_newKey = [], l_rewrite = False, l_rotateDue = False\<rparr>"

abbreviation "no_others \<equiv> (\<lambda>(v :: view) (c :: store_call). False)"

lemma no_others_eq [simp]: "others no_others v v' \<longleftrightarrow> v' = v"
  unfolding others_def by (auto elim: rtranclp.cases)

lemma demo_world_sel [simp]: "w_store (demo_world rng st) = st" "w_env (demo_world rng st) = (\<lambda>_ s. s)"
  by (simp_all add: demo_world_def)

lemma demo_memory_ok: "mem_ok demo_memory"
  unfolding demo_memory_def by (rule mem_reachable)

lemma demo_world_sound: "mem_ok m \<Longrightarrow> mem_world P (demo_world rng m)"
  by (rule quiet_sound) (simp_all add: quiet_def)

lemma demo_rows: "v_session (mem_view demo_memory) ''s'' = Some (demo_row\<lparr>s_OwnerID := 0\<rparr>)"
  by (simp add: demo_memory_def demo_row_def store_defs NewMemory_def)

lemmas demo_defs = applyControls_def commitControls_def clockNow_def onStore_def newID_def Let_def
  controls0_def controls1_def idle_def demo_world_def demo_manager_def demo_memory_def demo_live_def demo_row_def
  NewMemory_def store_defs

theorem privilege_change_rotates_witness:
  "let ((w', l'), r) = applyControls demo_manager (Some 7) None False True []
      (demo_world (replicate 32 (CHR ''a'')) demo_memory, demo_live)
   in r = Inr () \<and> v_key (mv w') ''k0'' = None \<and> v_key (mv w') (l_KeyID l') = Some ''s'' \<and>
      NewProxyCookie l' = Some (l_KeyID l')"
proof -
  let ?w = "demo_world (replicate 32 (CHR ''a'')) demo_memory"
  let ?run = "applyControls demo_manager (Some 7) None False True [] (?w, demo_live)"
  obtain w' l' r where run: "?run = ((w', l'), r)" by (metis surj_pair)
  have "RawURLEncode (replicate 32 (CHR ''a'')) \<noteq> ''k0''"
    using length_RawURLEncode [of "replicate 32 (CHR ''a'')"] by auto
  then have "snd ?run = Inr ()" by (simp add: demo_defs)
  with run have r: "r = Inr ()" by simp
  show ?thesis
    using privilege_change_rotates [OF demo_world_sound [OF demo_memory_ok, of no_others] _ _ run [unfolded r]] run r
    by (simp add: demo_manager_def demo_live_def demo_rows del: mem_view_sel)
qed



section \<open>Exact behaviour\<close>



text \<open>
  C12. Resolving a key without interference. An unknown key and a key without a session give no handle
  and change nothing; an expired session is deleted with its whole cascade and gives no handle;
  otherwise the handle shows the persisted owner, labels and caches, and only the access time (and a
  missing rotation time) of that row moved.
\<close>

theorem Resolve_refines:
  assumes "quiet w" "mem_ok (w_store w)" "m_store M = MemoryStore"
  shows "\<exists>w' r. Resolve M key w = (w', Inr r) \<and> mem_ok (w_store w') \<and>
    (case resolve_spec (m_cfg M) key (w_clock w (w_ticks w)) (mv w) of
       (v', None) \<Rightarrow> mv w' = v' \<and> r = None
     | (v', Some d) \<Rightarrow> mv w' = v' \<and> (\<exists>l. r = Some l \<and> shows_session key (mv w) d l))"
  using mem.Resolve_exact [OF assms, of key] by auto

theorem Resolve_refines_witness:
  "\<exists>w' l. Resolve demo_manager ''k0'' (demo_world [] demo_memory) = (w', Inr (Some l)) \<and> l_Labels l = [''user'']"
proof -
  have k: "v_key (mem_view demo_memory) ''k0'' = Some ''s''" by (simp add: demo_memory_def demo_row_def store_defs NewMemory_def)
  have e: "\<not> expired (demo_row\<lparr>s_OwnerID := 0\<rparr>) 1000" "Fields ''user'' = [''user'']" by code_simp+
  have c: "w_clock (demo_world [] demo_memory) (w_ticks (demo_world [] demo_memory)) = 1000" by (simp add: demo_world_def)
  have "\<exists>v d. resolve_spec (m_cfg demo_manager) ''k0'' 1000 (mem_view demo_memory) = (v, Some (''s'', demo_row\<lparr>s_OwnerID := 0\<rparr>, d))"
    using e(1) by (simp add: resolve_spec_def k demo_rows Let_def del: mem_view_sel)
  then obtain v d where "resolve_spec (m_cfg demo_manager) ''k0'' 1000 (mem_view demo_memory) = (v, Some (''s'', demo_row\<lparr>s_OwnerID := 0\<rparr>, d))"
    by blast
  then show ?thesis
    using Resolve_refines [of "demo_world [] demo_memory" demo_manager "''k0''", unfolded c] demo_memory_ok e(2)
    by (auto simp: demo_manager_def quiet_def shows_session_def demo_row_def simp del: mem_view_sel)
qed

text \<open>
  C13. Begin and Resolve fit together. A session begun from enough random bytes, under an unused id,
  is found again by the key handed to the client at any later time before its inactivity and final
  limits: the handle names the new session, is anonymous, has no labels and no cookies.
\<close>

theorem begin_resolve:
  assumes "quiet w" "mem_ok (w_store w)" "no_orphans (mv w)" "m_store M = MemoryStore" "64 \<le> length (w_rng w)"
    and unused: "v_session (mv w) (RawURLEncode (take 32 (w_rng w))) = None"
    and time: "w_clock w (w_ticks w) = now" "w_clock w (Suc (w_ticks w)) = later" "0 \<le> now" "now \<le> later" "later \<le> 2 ^ 61"
    and limits: "later < now + seconds_of (Inactive (m_cfg M))" "later < now + seconds_of (Final (m_cfg M))"
      "seconds_of (Final (m_cfg M)) \<le> 9223372036"
    and run: "Begin M w = (w', Inr l)"
  shows "\<exists>w'' l'. Resolve M (l_KeyID l) w' = (w'', Inr (Some l')) \<and> l_SessionID l' = l_SessionID l \<and>
    l_OwnerID l' = 0 \<and> l_Labels l' = [] \<and> mget (l_Cookies l') = Map.empty \<and> NewProxyCookie l = Some (l_KeyID l)"
proof -
  define sid key where "sid = RawURLEncode (take 32 (w_rng w))" and "key = RawURLEncode (take 32 (drop 32 (w_rng w)))"
  from mem.Begin_exact [OF assms(1,2,4)] run have w': "mem_ok (w_store w')" "quiet w'" "w_clock w' (w_ticks w') = later"
    and v': "mv w' = (mv w)\<lparr>v_session := (v_session (mv w))(sid \<mapsto> new_row (m_cfg M) sid now), v_key := (v_key (mv w))(key \<mapsto> sid)\<rparr>"
    and l: "l_KeyID l = key" "l_SessionID l = sid" "l_rewrite l" "l_newKey l = key"
    using assms(5) time by (auto simp: begin_spec_def sid_def key_def Let_def simp del: mem_view_sel)
  have k: "v_key (mv w') key = Some sid" and row: "v_session (mv w') sid = Some (new_row (m_cfg M) sid now)"
    unfolding v' by simp_all
  have "i64 (later - now) = later - now" using time by (intro i64_small) simp_all
  moreover have "i64 (now + seconds_of (Final (m_cfg M))) = now + seconds_of (Final (m_cfg M))"
    using time limits by (intro i64_small) simp_all
  ultimately have live: "\<not> expired (new_row (m_cfg M) sid now) later" using limits by (simp add: expired_def new_row_def)
  have "gone sid (mv w)" using assms(3) unused unfolding sid_def by (rule no_orphans_gone)
  then have empty: "v_cookie (mv w') sid = Map.empty" unfolding v' by (simp add: gone_def del: mem_view_sel)
  have "\<exists>v d. resolve_spec (m_cfg M) key later (mv w') = (v, Some (sid, new_row (m_cfg M) sid now, d))"
    using live by (simp add: resolve_spec_def k row Let_def del: mem_view_sel)
  then obtain v d where spec: "resolve_spec (m_cfg M) key later (mv w') = (v, Some (sid, new_row (m_cfg M) sid now, d))" by blast
  have "Fields [] = []" by (simp add: Fields_def FieldsFunc_def)
  with mem.Resolve_exact [OF w'(2,1) assms(4), of key, unfolded w'(3)] spec empty l show ?thesis
    by (auto simp: shows_session_def new_row_def NewProxyCookie_def simp del: mem_view_sel)
qed

lemma empty_view_session: "v_session empty_view sid = None"
  by (simp add: empty_view_def)

theorem begin_resolve_witness:
  "\<exists>w' l w'' l'. Begin demo_manager (demo_world (replicate 64 (CHR ''a'')) NewMemory) = (w', Inr l) \<and>
     Resolve demo_manager (l_KeyID l) w' = (w'', Inr (Some l')) \<and> l_SessionID l' = l_SessionID l"
proof -
  let ?w = "demo_world (replicate 64 (CHR ''a'')) NewMemory"
  have M: "m_store demo_manager = MemoryStore" and q: "quiet ?w" by (simp_all add: demo_manager_def quiet_def)
  have lim: "seconds_of (Inactive (m_cfg demo_manager)) = 60" "seconds_of (Final (m_cfg demo_manager)) = 120"
    by (simp_all add: demo_manager_def seconds_of_def Second_def)
  from mem.Begin_exact [OF q _ M] mem_ok_New obtain w' l where run: "Begin demo_manager ?w = (w', Inr l)"
    by (auto simp: begin_spec_def demo_world_def Let_def)
  have "\<exists>w'' l'. Resolve demo_manager (l_KeyID l) w' = (w'', Inr (Some l')) \<and> l_SessionID l' = l_SessionID l \<and>
    l_OwnerID l' = 0 \<and> l_Labels l' = [] \<and> mget (l_Cookies l') = Map.empty \<and> NewProxyCookie l = Some (l_KeyID l)"
    by (rule begin_resolve [OF q _ _ M _ _ refl refl _ _ _ _ _ _ run])
      (simp_all add: lim demo_world_def mem_ok_New mem_view_New empty_view_no_orphans empty_view_session del: mem_view_sel)
  with run show ?thesis by blast
qed

section \<open>Revocation\<close>



text \<open>
  C15. Logout everywhere is complete and touches nobody else. With an exact owner index, revoking an
  owner removes every session bound to that owner with its whole cascade, and leaves every other
  session, its keys and its cached cookies as they were.
\<close>

theorem RevokeOwner_complete:
  assumes "quiet w" "mem_ok (w_store w)" "m_store M = MemoryStore"
    and inv: "no_orphans (mv w)" "owner_index_ok (mv w)" and "0 < ownerID"
  shows "\<exists>w'. RevokeOwner M ownerID w = (w', Inr ()) \<and>
    (\<forall>sid. owner_of (mv w) sid = Some ownerID \<longrightarrow> gone sid (mv w')) \<and>
    (\<forall>sid. owner_of (mv w) sid \<noteq> Some ownerID \<longrightarrow>
       v_session (mv w') sid = v_session (mv w) sid \<and> v_cookie (mv w') sid = v_cookie (mv w) sid \<and>
       (\<forall>k. v_key (mv w) k = Some sid \<longrightarrow> v_key (mv w') k = Some sid))"
proof -
  obtain w' sids where run: "RevokeOwner M ownerID w = (w', Inr ())"
    and v': "mv w' = fold (\<lambda>sid. call_effect (CDeleteByOwner ownerID sid)) sids (mv w)"
    and listed: "\<And>sid. sid \<in> set sids \<longleftrightarrow> owner_of (mv w) sid = Some ownerID"
    and gone: "\<And>sid. owner_of (mv w) sid = Some ownerID \<Longrightarrow> gone sid (mv w')"
    using mem.RevokeOwner_gone [OF assms(1-3) inv assms(6)] by blast
  note view = delete_by_owner_fold [where i = ownerID and sids = sids and v = "mv w", folded v', unfolded listed]
  have "v_key (mv w') k = Some sid" if "owner_of (mv w) sid \<noteq> Some ownerID" "v_key (mv w) k = Some sid" for sid k
    using that view(2) [of k] by (simp del: mem_view_sel)
  then show ?thesis using run gone view(1,3) by (simp del: mem_view_sel)
qed

lemma owner_index_decidable:
  assumes "\<And>sid. owner_of v sid = (if sid = a then Some i else None)" "0 < i" "\<And>o'. v_owner v o' = (if o' = i then {a} else {})"
  shows "owner_index_ok v"
  using assms unfolding owner_index_ok_def by auto

lemma inner_Nil: "inner [] k = []"
  by (simp add: inner_def)

definition owned_memory :: Memory where
  "owned_memory = exec_all MemoryStore 0 0 [CPutSession (demo_row\<lparr>s_OwnerID := 0\<rparr>), CPutKey ''k0'' ''s'', CReassignOwner demo_row] NewMemory"

lemma owned_memory_owner: "owner_of (mem_view owned_memory) sid = (if sid = ''s'' then Some 7 else None)"
  by (simp add: owned_memory_def owner_of_def demo_row_def NewMemory_def store_defs Let_def)

lemma owned_memory_ok: "mem_ok owned_memory" "no_orphans (mem_view owned_memory)" "owner_index_ok (mem_view owned_memory)"
proof -
  have "v_owner (mem_view owned_memory) o' = (if o' = 7 then {''s''} else {})" for o'
    by (simp add: owned_memory_def demo_row_def NewMemory_def store_defs Let_def gomap_simps inner_Nil mkeys_def)
  then show "owner_index_ok (mem_view owned_memory)"
    by (intro owner_index_decidable [of _ "''s''" 7]) (simp_all add: owned_memory_owner del: mem_view_sel)
  show "mem_ok owned_memory" "no_orphans (mem_view owned_memory)" unfolding owned_memory_def by (rule mem_reachable)+
qed

theorem RevokeOwner_complete_witness:
  "\<exists>w'. RevokeOwner demo_manager 7 (demo_world [] owned_memory) = (w', Inr ()) \<and> gone ''s'' (mv w')"
proof -
  show ?thesis
    using owned_memory_ok RevokeOwner_complete [of "demo_world [] owned_memory" demo_manager 7] owned_memory_owner [of "''s''"]
    by (auto simp: quiet_def demo_manager_def simp del: mem_view_sel)
qed

section \<open>Per-session locking\<close>

text \<open>
  C16. With synchronization on, the guarded work runs only under the session's lock, while any second
  attempt on the same session is refused with \<open>ErrLockContended\<close> and runs nothing; when the work
  returns, with or without an error, the lock is released and nothing else changes.
\<close>

theorem WithLock_exclusive:
  assumes M: "m_store M = MemoryStore" "Synchronize (m_cfg M)" and w: "quiet w" "mem_ok (w_store w)"
  shows "(sid \<in> v_lock (mv w) \<longrightarrow>
      (\<exists>w'. WithLock M sid fn (w, x) = ((w', x), Inl ErrLockContended) \<and> mv w' = mv w)) \<and>
    (sid \<notin> v_lock (mv w) \<longrightarrow>
      (\<exists>w1. mv w1 = (mv w)\<lparr>v_lock := insert sid (v_lock (mv w))\<rparr> \<and> quiet w1 \<and> mem_ok (w_store w1) \<and>
         (\<forall>w2 x' r. fn (w1, x) = ((w2, x'), r) \<and> quiet w2 \<longrightarrow>
            (\<exists>w3. WithLock M sid fn (w, x) = ((w3, x'), r) \<and> mv w3 = (mv w2)\<lparr>v_lock := v_lock (mv w2) - {sid}\<rparr>))))"
proof (intro conjI impI)
  assume "sid \<in> v_lock (mv w)"
  then have "mem_Lock sid (5 * Second) (w_store w) = (w_store w, Inr None)" by (simp add: mem_Lock_def mkeys_iff)
  then show "\<exists>w'. WithLock M sid fn (w, x) = ((w', x), Inl ErrLockContended) \<and> mv w' = mv w"
    using M w by (simp add: WithLock_def onStore_def quiet_def MemoryStore_def)
next
  assume free: "sid \<notin> v_lock (mv w)"
  define w1 where "w1 = w\<lparr>w_store := (w_store w)\<lparr>m_locks := mput sid () (m_locks (w_store w))\<rparr>, w_calls := Suc (w_calls w)\<rparr>"
  define unlock :: "(Memory, unit) op" where "unlock = (\<lambda>m. (m\<lparr>m_locks := mdel sid (m_locks m)\<rparr>, Inr ()))"
  have lock: "onStore (Lock (m_store M) sid (5 * Second)) w = (w1, Inr (Some unlock))"
    using free M w by (simp add: onStore_def quiet_def MemoryStore_def mem_Lock_def mkeys_iff w1_def unlock_def)
  have "\<exists>w3. WithLock M sid fn (w, x) = ((w3, x'), r) \<and> mv w3 = (mv w2)\<lparr>v_lock := v_lock (mv w2) - {sid}\<rparr>"
    if "fn (w1, x) = ((w2, x'), r) \<and> quiet w2" for w2 x' r
    using that lock M(2) by (simp add: WithLock_def onStore_def quiet_def unlock_def mem_locks gomap_simps)
  moreover have "mv w1 = (mv w)\<lparr>v_lock := insert sid (v_lock (mv w))\<rparr>" "quiet w1" "mem_ok (w_store w1)"
    using w by (simp_all add: w1_def mem_locks gomap_simps quiet_def)
  ultimately show "\<exists>w1. mv w1 = (mv w)\<lparr>v_lock := insert sid (v_lock (mv w))\<rparr> \<and> quiet w1 \<and> mem_ok (w_store w1) \<and>
      (\<forall>w2 x' r. fn (w1, x) = ((w2, x'), r) \<and> quiet w2 \<longrightarrow>
         (\<exists>w3. WithLock M sid fn (w, x) = ((w3, x'), r) \<and> mv w3 = (mv w2)\<lparr>v_lock := v_lock (mv w2) - {sid}\<rparr>))" by blast
qed

theorem WithLock_exclusive_witness:
  "\<exists>w3. WithLock demo_manager ''s'' (\<lambda>s. (s, Inl ErrConflict)) (demo_world [] demo_memory, demo_live) = ((w3, demo_live), Inl ErrConflict) \<and>
     v_lock (mv w3) = {}"
proof -
  have "''s'' \<notin> v_lock (mv (demo_world [] demo_memory))" and no: "v_lock (mem_view demo_memory) = {}"
    by (simp_all add: demo_memory_def NewMemory_def store_defs demo_row_def)
  then show ?thesis
    using WithLock_exclusive [of demo_manager "demo_world [] demo_memory" "''s''" "\<lambda>s. (s, Inl ErrConflict)" demo_live] demo_memory_ok
    by (auto simp: demo_manager_def quiet_def simp del: mem_view_sel)
qed

section \<open>Invariants of any history\<close>

text \<open>
  C8. Any history of manager operations, interleaved call by call with those of other requests, keeps
  the store consistent: keys lead to existing sessions, cached cookies belong to existing sessions
  and have their hashes, and a session is listed under an owner exactly when its row names that
  owner, with nothing ever listed under the anonymous owner.
\<close>

theorem history_consistent:
  assumes "served M mem_view P w w'" "mem_world P w" "m_store M = MemoryStore"
    and "no_orphans (mv w)" "owner_index_ok (mv w)" and "\<forall>v c. P v c \<longrightarrow> managed c v"
  shows "no_orphans (mv w') \<and> owner_index_ok (mv w') \<and> v_owner (mv w') 0 = {}"
proof -
  have "manager_inv (mv w')"
    using mem.served_keeps [OF assms(1,2) _ assms(3)] assms(4-6) by (auto simp: manager_inv_def simp del: mem_view_sel)
  then show ?thesis using owner_index_elsewhere(2) by (auto simp: manager_inv_def simp del: mem_view_sel)
qed

definition busy_world :: "Memory world" where
  "busy_world = \<lparr>w_store = NewMemory, w_rng = replicate 96 (CHR ''b''), w_clock = (\<lambda>n. 1000 + int n), w_ticks = 0,
     w_env = (\<lambda>n m. if n = 2 then exec_all MemoryStore 0 0 [CDeleteSession ''x'', CPutKey ''k9'' ''x''] m else m), w_calls = 0\<rparr>"

definition harmless :: "view \<Rightarrow> store_call \<Rightarrow> bool" where
  "harmless v c \<longleftrightarrow> c = CDeleteSession ''x'' \<or> c = CPutKey ''k9'' ''x''"

lemma exec_all_others:
  assumes "mem_ok m" "\<forall>c \<in> set cs. \<forall>v. P v c"
  shows "mem_ok (exec_all MemoryStore t t' cs m) \<and> others P (mem_view m) (mem_view (exec_all MemoryStore t t' cs m))"
  using assms
proof (induction cs arbitrary: m)
  case (Cons c cs)
  obtain m' r where e: "exec MemoryStore t t' c m = (m', r)" by fastforce
  note st = mem.exec_vstep [OF Cons.prems(1) e]
  have "others P (mem_view m) (mem_view m')"
    using st Cons.prems(2) unfolding others_def by (auto intro!: r_into_rtranclp)
  with Cons.IH [of m'] st Cons.prems(2) e show ?case by (auto intro: others_trans)
qed simp

theorem history_consistent_witness:
  "owner_index_ok (mv (serve demo_manager (RResolve ''nokey'') (serve demo_manager RBegin busy_world)))"
proof -
  let ?w = busy_world
  have w: "mem_world harmless ?w"
    using exec_all_others [of _ "[CDeleteSession ''x'', CPutKey ''k9'' ''x'']" harmless 0 0]
    by (auto simp: sound_world_def busy_world_def harmless_def mem_ok_New)
  have "request_ok mem_view harmless RBegin ?w"
    by (auto simp: busy_world_def mem_view_New empty_view_session harmless_def simp del: mem_view_sel)
  then have "served demo_manager mem_view harmless ?w (serve demo_manager RBegin ?w)"
    by (rule served.request [OF served.idle_world])
  then have "served demo_manager mem_view harmless ?w (serve demo_manager (RResolve ''nokey'') (serve demo_manager RBegin ?w))"
    by (rule served.request) simp
  moreover have "no_orphans (mv ?w)" "owner_index_ok (mv ?w)"
    by (simp_all add: busy_world_def mem_view_New empty_view_no_orphans del: mem_view_sel)
      (simp add: owner_index_ok_def owner_of_def empty_view_def)
  ultimately show ?thesis
    using history_consistent [OF _ w, of demo_manager] by (auto simp: harmless_def demo_manager_def simp del: mem_view_sel serve.simps)
qed

end
