(* ===== verification/Handler_Properties.thy ===== *)
theory Handler_Properties
  imports Header_Hygiene Upstream_Request Manager_Properties
begin

text \<open>
  Correctness of the handler: nothing the backend meant for the proxy reaches the client, protected
  paths are closed without the label, a failing backend changes no session, a logout is never
  reported as done when it failed, and staging gives back all it reserved.
\<close>

section \<open>What processing leaves alone\<close>

definition same_staging :: "interceptor \<Rightarrow> interceptor \<Rightarrow> bool" where
  "same_staging ic ic' \<longleftrightarrow> ic_body ic' = ic_body ic \<and> ic_status ic' = ic_status ic \<and> ic_wroteHeader ic' = ic_wroteHeader ic \<and>
     ic_informational ic' = ic_informational ic \<and> ic_revokeRequested ic' = ic_revokeRequested ic"

lemma same_staging_refl [simp]: "same_staging ic ic"
  by (simp add: same_staging_def)

lemma ensureLive_staging: "ensureLive h (w, ic) = ((w', ic'), r) \<Longrightarrow> same_staging ic ic'"
  by (auto simp: ensureLive_def same_staging_def split: if_splits prod.splits sum.splits)

lemma cookie_loop_staging: "cookie_loop h scs muts (w, ic) = ((w', ic'), r) \<Longrightarrow> same_staging ic ic'"
proof (induction scs arbitrary: muts w ic)
  case (Cons sc scs)
  show ?case
  proof (cases "ParseSetCookie (h_parseTime h) sc")
    case None
    with Cons show ?thesis by simp
  next
    case (Some c)
    obtain w1 now where c: "clockNow w = (w1, now)" by fastforce
    obtain w2 ic2 r2 where l: "ensureLive h (w1, ic) = ((w2, ic2), r2)" by (metis surj_pair)
    note live = ensureLive_staging [OF l]
    show ?thesis
    proof (cases "Decide (h_filter h) (ck_Name c)")
      case Drop
      with Some Cons show ?thesis by simp
    next
      case Forward
      with Some Cons.prems have "same_staging (ic\<lparr>ic_header := hAdd ''Set-Cookie'' sc (ic_header ic)\<rparr>) ic'"
        by (auto intro: Cons.IH)
      then show ?thesis by (simp add: same_staging_def)
    next
      case Store
      with Some Cons.prems c l live show ?thesis
        by (auto split: if_splits sum.splits dest!: Cons.IH simp: same_staging_def)
    qed
  qed
qed simp

lemma processLocked_staging:
  assumes "processLocked h (w, ic) = ((w', ic'), r)"
  shows "same_staging ic ic'"
proof (cases "ic_revokeRequested ic")
  case True
  with assms show ?thesis
    by (auto simp: processLocked_def revoke_response_def Let_def same_staging_def split: option.splits prod.splits sum.splits if_splits)
next
  case False
  let ?hdr = "hDel (h_labelsHeaderName h) (hDel (h_rotateHeaderName h) (hDel (h_IdentityHeader h) (hDel ''Set-Cookie'' (ic_header ic))))"
  obtain w1 ic1 r1 where loop: "cookie_loop h (hValues (ic_header ic) ''Set-Cookie'') [] (w, ic\<lparr>ic_header := ?hdr\<rparr>) = ((w1, ic1), r1)"
    by (metis surj_pair)
  from cookie_loop_staging [OF loop] have 1: "same_staging ic ic1" by (simp add: same_staging_def)
  obtain w2 ic2 r2 where live: "ensureLive h (w1, ic1) = ((w2, ic2), r2)" by (metis surj_pair)
  from ensureLive_staging [OF live] 1 have 2: "same_staging ic ic2" by (simp add: same_staging_def)
  have a: "apply_response h owner labels rot muts (wa, ica) = ((wb, icb), q) \<Longrightarrow> same_staging ic ica \<Longrightarrow> same_staging ic icb"
    for owner labels rot muts wa ica wb icb q
    by (auto simp: apply_response_def same_staging_def split: option.splits prod.splits sum.splits)
  from assms False loop live 1 2 show ?thesis
    by (auto simp: processLocked_def Let_def andThen_def split: sum.splits if_splits dest: a)
qed

lemma process_staging:
  "process h (w, ic) = ((w', ic'), r) \<Longrightarrow> same_staging (begun h ic) ic'"
  by (erule process_cases) (auto intro: processLocked_staging)

lemma begun_sel [simp]:
  "ic_body (begun h ic) = ic_body ic" "ic_live (begun h ic) = ic_live ic"
  "ic_revokeRequested (begun h ic) = (ic_revokeRequested ic \<or> revoke_control h (stripManagedTrailerDeclarations (managed_names h) (ic_header ic)))"
  by (simp_all add: begun_def Let_def)

lemma ensureProcessed_body: "ensureProcessed h (w, ic) = (w', ic') \<Longrightarrow> ic_body ic' = ic_body ic"
  using process_staging [of h w ic]
  by (auto simp: ensureProcessed_def same_staging_def Let_def split: if_splits prod.splits sum.splits)

section \<open>Nothing leaks to the client\<close>

definition demo_handler :: "Memory Handler" where
  "demo_handler = \<lparr>h_CookieName = ''sid'', h_CookiePath = [], h_SameSite = ''lax'', h_Insecure = False,
     h_IdentityHeader = ''X-Identity'', h_OnStoreError = ''fail_open'', h_filter = New_filter [''theme''] [''auth''],
     h_manager = demo_manager, h_rotateHeaderName = ''X-Rotate'', h_rotateEnabled = True,
     h_revokeHeaderName = ''X-Revoke'', h_revokeEnabled = True, h_labelsHeaderName = ''X-Labels'',
     h_authz = Some readme_policy, h_parseTime = (\<lambda>_. None)\<rparr>"

definition demo_client :: client where
  "demo_client = \<lparr>cl_header = [], cl_calls = [], cl_hijacker = True\<rparr>"

definition demo_request :: Request where
  "demo_request = \<lparr>rq_Header = [], rq_Trailer = None, rq_hasBody = False, rq_scrubs = None, rq_Path = ''/auth/x'', rq_RawQuery = []\<rparr>"

lemma demo_wire: "proper_names demo_handler" "wire_ok h demo_client"
proof -
  show "proper_names demo_handler" by code_simp
  show "wire_ok h demo_client"
    by (simp add: wire_ok_def demo_client_def sanitised_def no_controls_def no_trailers_def hValues_def list_all_iff)
qed

lemma demo_lookup:
  "lookup_session demo_handler (strip_request demo_handler (demo_request\<lparr>rq_Path := p\<rparr>)) w = (w, False, Inr None)"
  "lookup_session demo_handler (strip_request demo_handler demo_request) w = (w, False, Inr None)"
proof -
  have "rq_Header (strip_request demo_handler (demo_request\<lparr>rq_Path := p\<rparr>)) = []" "rq_Header (strip_request demo_handler demo_request) = []"
    by (simp_all add: strip_request_def Let_def demo_request_def request_names_def hDel_def)
  moreover have "requestCookie (h_CookieName demo_handler) [] = None" by code_simp
  ultimately show "lookup_session demo_handler (strip_request demo_handler (demo_request\<lparr>rq_Path := p\<rparr>)) w = (w, False, Inr None)"
    "lookup_session demo_handler (strip_request demo_handler demo_request) w = (w, False, Inr None)"
    by (simp_all add: lookup_session_def)
qed



section \<open>Protected paths\<close>

text \<open>
  C2. A path whose policy demands a label is closed to every request whose session does not hold it,
  whether the session is missing, lacks the label, or could not be looked up, and also under
  \<open>fail_open\<close>. The answer does not depend on the downstream handler, which is never called: it is one
  header, a redirect to the label's endpoint for browsers and a 401 otherwise, or the store error
  under \<open>fail_closed\<close>.
\<close>

theorem authz_gate:
  assumes "h_authz h = Some a" "Required a (rq_Path r) \<noteq> Anonymous"
    and "lookup_session h (strip_request h r) w = (w1, had, res)"
    and "\<forall>l. res = Inr (Some l) \<longrightarrow> \<not> HasLabel l (Required a (rq_Path r))"
  shows "\<exists>hdr. ServeHTTP h next x r w (e, cl) =
     (if isl res \<and> h_OnStoreError h = ''fail_closed'' then (w1, (e, cl), BadGateway (projl res))
      else (w1, (e, cl\<lparr>cl_header := hdr, cl_calls := cl_calls cl @
        [WHead (if Contains (hGet (fold hDel (request_names h) (rq_Header r)) ''Accept'') ''text/html'' then 302 else 401) hdr]\<rparr>), Done))"
proof -
  have path: "rq_Path (strip_request h r) = rq_Path r"
    "rq_Header (strip_request h r) = fold hDel (request_names h) (rq_Header r)" by (simp_all add: strip_request_def Let_def)
  have d: "denied h (strip_request h r) live = Some (a, Required a (rq_Path r))"
    if "live = (case res of Inl _ \<Rightarrow> None | Inr l \<Rightarrow> l)" for live
    using assms(1,2,4) that path by (auto simp: denied_def Let_def split: sum.splits option.splits)
  have deny: "\<exists>hdr. denyAuthz a (strip_request h r) req cl = cl\<lparr>cl_header := hdr, cl_calls := cl_calls cl @
      [WHead (if Contains (hGet (fold hDel (request_names h) (rq_Header r)) ''Accept'') ''text/html'' then 302 else 401) hdr]\<rparr>" for req
    by (auto simp: denyAuthz_def Let_def client_WriteHeader_def path)
  then obtain hdr where hdr: "denyAuthz a (strip_request h r) (Required a (rq_Path r)) cl = cl\<lparr>cl_header := hdr, cl_calls := cl_calls cl @
      [WHead (if Contains (hGet (fold hDel (request_names h) (rq_Header r)) ''Accept'') ''text/html'' then 302 else 401) hdr]\<rparr>" by blast
  have "ServeHTTP h next x r w (e, cl) =
     (if isl res \<and> h_OnStoreError h = ''fail_closed'' then (w1, (e, cl), BadGateway (projl res))
      else (w1, (e, denyAuthz a (strip_request h r) (Required a (rq_Path r)) cl), Done))"
    using d [OF refl] assms(3) by (cases res) (simp_all add: ServeHTTP_def Let_def)
  with hdr show ?thesis by metis
qed

theorem authz_gate_witness:
  "\<exists>hdr. cl_calls (snd (fst (snd (ServeHTTP demo_handler (\<lambda>r. ([DoWriteHeader 200], Returns None)) False
     (demo_request\<lparr>rq_Path := ''/admin/users''\<rparr>) (demo_world [] NewMemory) (demo_env, demo_client))))) = [WHead 401 hdr]"
proof -
  have "\<not> Contains (hGet (fold hDel (request_names demo_handler) []) ''Accept'') ''text/html''"
    by (simp add: request_names_def hDel_def hGet_def hValues_def HasPrefix_def)
  moreover have "''adm'' \<noteq> Anonymous" by (simp add: Anonymous_def)
  ultimately show ?thesis
    using authz_gate [of demo_handler readme_policy "demo_request\<lparr>rq_Path := ''/admin/users''\<rparr>" "demo_world [] NewMemory",
        OF _ _ demo_lookup(1), of "\<lambda>r. ([DoWriteHeader 200], Returns None)" False demo_env demo_client]
    by (auto simp: demo_handler_def readme_values demo_request_def demo_client_def)
qed

section \<open>A failing backend changes nothing\<close>

text \<open>The world the downstream handler meets is the one the lookup left.\<close>

lemma forward_world:
  assumes "\<forall>q. snd (next q) \<noteq> Returns None"
  shows "fst (forward h next x r live had rerr w ec) = w"
proof -
  let ?r = "prepareUpstreamCookies h (case live of None \<Rightarrow> [] | Some l \<Rightarrow> l_Cookies l) r"
  obtain as fin where n: "next ?r = (as, fin)" by fastforce
  with assms have "fin \<noteq> Returns None" by (metis snd_conv)
  with n show ?thesis
    by (cases ec) (auto simp: forward_def Let_def finish_response_def split: ending.splits option.splits prod.splits)
qed

text \<open>
  C4. When the downstream handler returns an error or panics, the response it staged changes no session:
  the store, the random reader and the clock are exactly as the session lookup left them.
\<close>

theorem backend_failure_no_mutation:
  assumes "\<forall>q. snd (next q) \<noteq> Returns None"
  shows "fst (ServeHTTP h next x r w ec) = fst (lookup_session h (strip_request h r) w)"
proof -
  obtain w1 had res where l: "lookup_session h (strip_request h r) w = (w1, had, res)" by (metis surj_pair)
  have "fst (case forward h next x q live had rerr w1 ec of (w2, (e, cl, ic), out) \<Rightarrow> (w2, (e, cl), out)) = w1" for q live rerr
    using forward_world [OF assms, of h x q live had rerr w1 ec] by (auto split: prod.splits)
  with l show ?thesis
    by (auto simp: ServeHTTP_def Let_def split: sum.splits bool.splits option.splits prod.splits)
qed

theorem backend_failure_no_mutation_witness:
  "w_store (fst (ServeHTTP demo_handler (\<lambda>r. ([EditHeader (hSet ''X-Identity'' ''7''), DoWriteHeader 200], Returns (Some ''boom'')))
     False demo_request (demo_world [] NewMemory) (demo_env, demo_client))) = NewMemory"
proof -
  show ?thesis by (subst backend_failure_no_mutation) (simp_all add: demo_lookup demo_world_def)
qed

section \<open>Logout\<close>

context store_contract
begin

text \<open>Work under the lock: what holds after the guarded work and survives interference still holds after
  the unlock.\<close>

lemma WithLock_establishes:
  assumes w: "sound_world invar obs P w" and M: "m_store M = I" and J: "J (obs (w_store w))"
    and run: "WithLock M sid fn (w, x) = ((w', x'), Inr u)"
    and work: "\<And>w1 w2. sound_world invar obs P w1 \<Longrightarrow> J (obs (w_store w1)) \<Longrightarrow> fn (w1, x) = ((w2, x'), Inr u) \<Longrightarrow>
      sound_world invar obs P w2 \<and> K (obs (w_store w2))"
    and stable: "\<And>v v'. J v \<Longrightarrow> others P v v' \<Longrightarrow> J v'" "\<And>v v'. K v \<Longrightarrow> others P v v' \<Longrightarrow> K v'"
    and locks: "\<And>v l. J v \<Longrightarrow> J (v\<lparr>v_lock := l\<rparr>)" "\<And>v l. K v \<Longrightarrow> K (v\<lparr>v_lock := l\<rparr>)"
  shows "K (obs (w_store w'))"
proof (cases "Synchronize (m_cfg M)")
  case False
  with run work [OF w J] show ?thesis by (simp add: WithLock_def)
next
  case True
  obtain w1 q where l: "onStore (Lock I sid (5 * Second)) w = (w1, q)" by fastforce
  from run True M l obtain unlock where q: "q = Inr (Some unlock)"
    by (auto simp: WithLock_def split: sum.splits option.splits)
  define st where "st = w_env w (w_calls w) (w_store w)"
  have st: "invar st" "others P (obs (w_store w)) (obs st)" using w by (auto simp: st_def sound_world_def)
  have L: "Lock I sid (5 * Second) st = (w_store w1, Inr (Some unlock))"
    using l q by (auto simp: onStore_def st_def split: prod.splits)
  note t = lock_taken [OF st(1) L]
  have w1: "sound_world invar obs P w1" using w t onStore_frame [OF l] by (simp add: sound_world_def)
  have "J (obs (w_store w1))" using t locks(1) [OF stable(1) [OF J st(2)]] by simp
  obtain w2 x2 r2 where f: "fn (w1, x) = ((w2, x2), r2)" by (metis surj_pair)
  with run True M l q have r: "x2 = x'" "r2 = Inr u" "w' = fst (onStore unlock w2)" by (auto simp: WithLock_def)
  with work [OF w1 \<open>J (obs (w_store w1))\<close>] f have 2: "sound_world invar obs P w2" "K (obs (w_store w2))" by auto
  define st2 where "st2 = w_env w2 (w_calls w2) (w_store w2)"
  have st2: "invar st2" "others P (obs (w_store w2)) (obs st2)" using 2(1) by (auto simp: st2_def sound_world_def)
  obtain st3 y where u: "unlock st2 = (st3, y)" by fastforce
  have "w_store w' = st3" using r(3) u by (simp add: onStore_def st2_def)
  with unlock [OF st(1) L st2(1) u] stable(2) [OF 2(2) st2(2)] locks(2) show ?thesis by auto
qed

lemma logout_gone:
  assumes w: "sound_world invar obs P w" and M: "m_store (h_manager h) = I" and v: "no_orphans (obs (w_store w))"
    and P: "\<And>v c. P v c \<Longrightarrow> \<not> creates (l_SessionID l) c"
    and run: "process h (w, ic) = ((w', ic'), Inr u)" and req: "ic_revokeRequested (begun h ic)" and live: "ic_live ic = Some l"
  shows "gone (l_SessionID l) (obs (w_store w'))"
proof -
  let ?K = "\<lambda>v. no_orphans v \<and> gone (l_SessionID l) v"
  have lock: "WithLock (h_manager h) (l_SessionID l) (processLocked h) (w, begun h ic) = ((w', ic'), Inr u)"
    using run req live by (auto simp: process_def begun_def Let_def split: bool.splits option.splits)
  have "?K (obs (w_store w'))"
  proof (rule WithLock_establishes [where J = no_orphans and K = ?K, OF w M v lock])
    fix w1 w2 assume 1: "sound_world invar obs P w1" "no_orphans (obs (w_store w1))" "processLocked h (w1, begun h ic) = ((w2, ic'), Inr u)"
    then obtain l2 where "Revoke (h_manager h) (w1, l) = ((w2, l2), Inr ())"
      using req live by (auto simp: processLocked_def revoke_response_def Let_def split: prod.splits sum.splits)
    then have r: "run_live (h_manager h) LRevoke (w1, l) = ((w2, l2), None)" by (simp add: outcome_def)
    show "sound_world invar obs P w2 \<and> ?K (obs (w_store w2))"
      using run_live_behaved [OF 1(1) M r] Revoke_gone [OF 1(1) M r 1(2)] by (simp add: well_behaved_def)
  next
    show "no_orphans v'" if "no_orphans v" "others P v v'" for v v'
      using others_keeps [OF that(2), of no_orphans, OF that(1)] vstep_no_orphans by blast
    show "?K v'" if "?K v" "others P v v'" for v v'
      by (rule others_gone [OF that(2) conjunct1 [OF that(1)] conjunct2 [OF that(1)] P])
  qed (simp_all add: no_orphans_def gone_def)
  then show ?thesis by blast
qed

end

lemma bad_gateway_calls: "\<exists>hdr. cl_calls (client_of (bad_gateway h (e, cl, ic))) = cl_calls cl @ [WHead 502 hdr]"
  by (auto simp: bad_gateway_def drop_response_def client_WriteHeader_def split: prod.splits)

lemma ensureProcessed_cases:
  assumes "ensureProcessed h (w, ic) = (w', ic')" "\<not> ic_once ic" "ic_revokeRequested (begun h ic)"
  obtains (processed) ic1 u where "process h (w, ic) = ((w', ic1), Inr u)"
  | (failed) "ic_failed ic'"
proof -
  obtain w1 ic1 r where p: "process h (w, ic) = ((w1, ic1), r)" by (metis surj_pair)
  from process_staging [OF p] assms(3) have "ic_revokeRequested ic1" by (simp add: same_staging_def)
  with p assms(1,2) that show ?thesis by (cases r) (auto simp: ensureProcessed_def Let_def)
qed



section \<open>Staging gives everything back\<close>

text \<open>\<open>books k l s\<close>: apart from this response's own share, \<open>k\<close> bytes of the limit \<open>l\<close> are in use.\<close>

definition books :: "int \<Rightarrow> int \<Rightarrow> stage_env \<Rightarrow> stagedBody \<Rightarrow> bool" where
  "books k l e b \<longleftrightarrow> body_ok b \<and> e_used e - b_reserved b = k \<and> e_limit e = l"

definition io_books :: "int \<Rightarrow> int \<Rightarrow> io \<Rightarrow> bool" where
  "io_books k l = (\<lambda>(e, cl, ic). books k l e (ic_body ic))"

lemma io_books_triple [simp]: "io_books k l (e, cl, ic) = books k l e (ic_body ic)"
  by (simp add: io_books_def)

lemma books_os: "os_call e = (e', r) \<Longrightarrow> books k l e' b = books k l e b"
  using os_call_frame [of e e' r] by (simp add: books_def)

lemma books_reset: "books k l e b \<Longrightarrow> body_Reset (e, b) = (e', b') \<Longrightarrow> books k l e' b'"
  using body_Reset_spec [of e b e' b'] by (simp add: books_def)

lemma body_ok_validated [simp]: "body_ok (b\<lparr>b_validated := v\<rparr>) = body_ok b"
  by (simp add: body_ok_def)

lemma books_validate: "books k l e b \<Longrightarrow> body_Validate (e, b) = ((e', b'), r) \<Longrightarrow> books k l e' b'"
  by (auto simp: body_Validate_def os_call_def books_def split: option.splits if_splits)

lemma books_flush: "books k l e b \<Longrightarrow> body_FlushTo (e, b) = ((e', b'), out, r) \<Longrightarrow> books k l e' b'"
  using books_validate [of k l e b]
  by (auto simp: body_FlushTo_def books_os split: option.splits prod.splits)

lemma books_write: "books k l e b \<Longrightarrow> body_Write p (e, b) = ((e', b'), n, r) \<Longrightarrow> books k l e' b'"
  using body_Write_spec [of b p e e' b' n r] by (simp add: books_def charges_def)

lemma books_reserve:
  "books k l e (ic_body ic) \<Longrightarrow> 0 \<le> n \<Longrightarrow> reserveMetadataBytes n (e, ic) = ((e', ic'), r) \<Longrightarrow> books k l e' (ic_body ic')"
  by (auto simp: reserveMetadataBytes_def reserve_def books_def body_ok_def split: if_splits)

lemma stagedHeaderBytes_nonneg: "0 \<le> stagedHeaderBytes hdr"
  by (auto simp: stagedHeaderBytes_def intro!: sum_list_nonneg)

lemma books_final:
  "books k l e (ic_body ic) \<Longrightarrow> reserveFinalMetadata h (e, ic) = ((e', ic'), r) \<Longrightarrow> books k l e' (ic_body ic')"
  using stagedHeaderBytes_nonneg [of "ic_header ic"]
  by (auto simp: reserveFinalMetadata_def generatedMetadataAllowance_def split: if_splits prod.splits option.splits dest: books_reserve [rotated 2])

lemma go_terminal_books: "io_books k l s \<Longrightarrow> io_books k l (go_terminal h s)"
  by (cases s) (auto simp: go_terminal_def releaseTerminalStaging_def Let_def split: prod.splits dest: books_reset)

lemma client_Call_books: "client_Call c (e, cl) = ((e', cl'), r) \<Longrightarrow> books k l e' b = books k l e b"
  by (auto simp: client_Call_def split: prod.splits dest: books_os)

lemma finish_terminal_books: "io_books k l s \<Longrightarrow> io_books k l (fst (finish_terminal c s))"
  by (cases s) (auto simp: finish_terminal_def client_Call_books split: prod.splits)

lemma act_books:
  assumes "act h a s = Some s'" "io_books k l s"
  shows "io_books k l s'"
proof -
  obtain e cl ic where s: "s = (e, cl, ic)" by (cases s)
  obtain e1 ic1 r1 where f: "reserveFinalMetadata h (e, ic) = ((e1, ic1), r1)" by (metis surj_pair)
  have b: "books k l e (ic_body ic)" "books k l e1 (ic_body ic1)" using assms(2) s books_final [OF _ f] by simp_all
  have go: "io_books k l (fst (finish_terminal c (go_terminal h (e1, cl, default_status ic1))))"
    "io_books k l (fst (finish_terminal c (go_terminal h (e1, cl, ic1))))" for c
    using b(2) by (intro finish_terminal_books go_terminal_books, simp add: default_status_def)+
  show ?thesis
  proof (cases a)
    case (EditHeader g)
    with assms s show ?thesis by auto
  next
    case (DoWriteHeader status)
    with assms(1) s b(1) stagedHeaderBytes_nonneg show ?thesis
      by (auto simp: ic_WriteHeader_def set_writeErr_def split: if_splits option.splits prod.splits dest!: books_reserve [rotated 2])
  next
    case (DoWrite p)
    with assms(1) s b(1) show ?thesis
      by (auto simp: ic_Write_def client_Write_def default_status_def set_writeErr_def Let_def books_os
          split: if_splits prod.splits option.splits dest: books_write)
  next
    case DoFlush
    with assms(1) s b f go(1) show ?thesis
      by (auto simp: FlushError_def client_Call_books split: if_splits prod.splits option.splits)
  next
    case DoHijack
    with assms(1) s b f go(2) show ?thesis
      by (auto simp: Hijack_def split: if_splits prod.splits option.splits)
  qed
qed

lemma acts_books: "acts h as s = (s', panicked) \<Longrightarrow> io_books k l s \<Longrightarrow> io_books k l s'"
  by (induction as arbitrary: s) (auto split: option.splits dest: act_books)

lemma bad_gateway_books:
  "books k l e (ic_body ic) \<Longrightarrow> io_books k l (bad_gateway h (e, cl, ic))"
  "books k l e (ic_body ic) \<Longrightarrow> io_books k l (drop_response h (e, cl, ic))"
  by (auto simp: bad_gateway_def drop_response_def split: prod.splits dest: books_reset)

lemma commit_response_books: "books k l e (ic_body ic) \<Longrightarrow> commit_response h (e, cl, ic) = (s', out) \<Longrightarrow> io_books k l s'"
  by (auto simp: commit_response_def Let_def split: if_splits prod.splits dest: books_flush)

lemma finish_response_books:
  assumes "finish_response h err w s = (w', s', out)" "io_books k l s"
  shows "io_books k l s'"
proof -
  obtain e cl ic where s: "s = (e, cl, ic)" by (cases s)
  obtain e1 ic1 r1 where f: "reserveFinalMetadata h (e, ic) = ((e1, ic1), r1)" by (metis surj_pair)
  obtain e2 b2 r2 where v: "body_Validate (e1, ic_body ic1) = ((e2, b2), r2)" by (metis surj_pair)
  obtain w3 ic3 where p: "ensureProcessed h (w, ic1\<lparr>ic_body := b2\<rparr>) = (w3, ic3)" by fastforce
  have b: "books k l e (ic_body ic)" "books k l e1 (ic_body ic1)" "books k l e2 b2" "books k l e2 (ic_body ic3)"
    using assms(2) s books_final [OF _ f] books_validate [OF _ v] ensureProcessed_body [OF p] by simp_all
  then have "io_books k l (bad_gateway h (e2, cl, ic1\<lparr>ic_body := b2\<rparr>))"
    "io_books k l (bad_gateway h (e1, cl, ic1\<lparr>ic_writeErr := z\<rparr>))" for z
    by (simp_all add: bad_gateway_books)
  with assms(1) s f v p b show ?thesis
    by (auto simp: finish_response_def bad_gateway_books split: if_splits option.splits dest: commit_response_books)
qed

lemma close_body_books: "io_books k l s \<Longrightarrow> close_body s = (e, cl, ic) \<Longrightarrow> e_used e = k \<and> e_limit e = l"
  by (cases s) (auto simp: close_body_def books_def split: prod.splits dest: body_Close_spec(4,5))

text \<open>
  C6. However a request ends, by success, error, denial, panic, upgrade or failing files, and whatever the
  downstream handler did to its response, the aggregate staging budget is afterwards exactly what it
  was before: no request leaks any of it.
\<close>

theorem serve_releases_budget:
  "\<exists>w' e' cl' out. ServeHTTP h next x r w (e, cl) = (w', (e', cl'), out) \<and> e_used e' = e_used e \<and> e_limit e' = e_limit e"
proof -
  have fwd: "e_used e2 = e_used e \<and> e_limit e2 = e_limit e"
    if run: "forward h next x q live had rerr w1 (e, cl) = (w2, (e2, c, i), o2)" for q live had rerr w1 w2 e2 c i o2
  proof -
    let ?r = "prepareUpstreamCookies h (case live of None \<Rightarrow> [] | Some l \<Rightarrow> l_Cookies l) q"
    obtain as fin where n: "next ?r = (as, fin)" by fastforce
    obtain s1 panicked where a: "acts h as (e, cl, new_interceptor x live had rerr (cl_header cl)) = (s1, panicked)" by fastforce
    have "io_books (e_used e) (e_limit e) (e, cl, new_interceptor x live had rerr (cl_header cl))"
      using new_body_ok by (simp add: books_def new_interceptor_def) (simp add: new_body_def)
    from acts_books [OF a this] have b: "io_books (e_used e) (e_limit e) s1" .
    obtain w3 s3 o3 where t: "(if panicked then (w1, s1, Panicked)
        else case fin of Panics \<Rightarrow> (w1, s1, Panicked) | Returns err \<Rightarrow> finish_response h err w1 s1) = (w3, s3, o3)" by (metis surj_pair)
    then have "io_books (e_used e) (e_limit e) s3"
      using b by (auto split: if_splits ending.splits intro: finish_response_books)
    moreover have "close_body s3 = (e2, c, i)" using run n a t by (simp add: forward_def Let_def)
    ultimately show ?thesis by (rule close_body_books)
  qed
  obtain w1 had res where l: "lookup_session h (strip_request h r) w = (w1, had, res)" by (metis surj_pair)
  obtain w' e' cl' out where run: "ServeHTTP h next x r w (e, cl) = (w', (e', cl'), out)" by (metis surj_pair)
  moreover from run l fwd have "e_used e' = e_used e \<and> e_limit e' = e_limit e"
    by (auto simp: ServeHTTP_def Let_def split: sum.splits bool.splits option.splits prod.splits)
  ultimately show ?thesis by blast
qed

section \<open>What the backend is given\<close>



section \<open>A second hijack\<close>


end
