(* ===== verification/Contract_Suite.thy ===== *)
theory Contract_Suite
  imports Memory_Store
begin

text \<open>
  The contract suite every store is run against (\<open>internal/store/contract.go\<close>), as programs over the
  \<open>Store\<close> interface: each subtest starts from a fresh store and is true when it reaches its end without
  \<open>t.Fatal\<close>. A result that a subtest ignores is ignored here, and a value read next to an ignored error
  is Go's zero value when the call failed.
\<close>

section \<open>Statements of a test\<close>

type_synonym 'st test = "'st \<Rightarrow> bool"

text \<open>\<open>if err := \<dots>; err != nil { t.Fatal }\<close>, \<open>err != want\<close>, \<open>_ = \<dots>\<close> and \<open>x, _ := \<dots>\<close>.\<close>

definition must :: "('st, 'a) op \<Rightarrow> ('a \<Rightarrow> 'st test) \<Rightarrow> 'st test" where
  "must f k st = (case f st of (st', Inl _) \<Rightarrow> False | (st', Inr x) \<Rightarrow> k x st')"

definition wants :: "error \<Rightarrow> ('st, 'a) op \<Rightarrow> 'st test \<Rightarrow> 'st test" where
  "wants e f k st = (case f st of (st', Inl e') \<Rightarrow> e' = e \<and> k st' | (st', Inr _) \<Rightarrow> False)"

definition ignoring :: "('st, 'a) op \<Rightarrow> 'st test \<Rightarrow> 'st test" where
  "ignoring f k st = k (fst (f st))"

definition reading :: "'a \<Rightarrow> ('st, 'a) op \<Rightarrow> ('a \<Rightarrow> 'st test) \<Rightarrow> 'st test" where
  "reading zero f k st = (case f st of (st', Inl _) \<Rightarrow> k zero st' | (st', Inr x) \<Rightarrow> k x st')"

definition check :: "bool \<Rightarrow> 'st test \<Rightarrow> 'st test" where
  "check b k st \<longleftrightarrow> b \<and> k st"

definition passed :: "'st test" where
  "passed st = True"

lemmas test_defs = must_def wants_def ignoring_def reading_def check_def passed_def

definition Hour :: duration where
  "Hour = 3600 * Second"

definition zero_session :: Session where
  "zero_session = \<lparr>s_ID = [], s_Creation = 0, s_LastAccess = 0, s_InactiveTimeout = 0, s_FinalTimeout = 0,
     s_OwnerID = 0, s_LastRotation = 0, s_Labels = []\<rparr>"

definition zero_controls :: SessionControls where
  "zero_controls = \<lparr>c_SetOwner = False, c_OwnerID = 0, c_SetLabels = False, c_Labels = [], c_LastAccess = 0,
     c_LastRotation = 0, c_OldKeyID = [], c_NewKeyID = [], c_Rotate = False, c_Cookies = []\<rparr>"

text \<open>A row as most subtests write it.\<close>

definition test_row :: "string \<Rightarrow> int64 \<Rightarrow> Session" where
  "test_row sid owner = zero_session\<lparr>s_ID := sid, s_Creation := 1, s_LastAccess := 1, s_InactiveTimeout := 10,
     s_FinalTimeout := 100, s_OwnerID := owner\<rparr>"

section \<open>The subtests\<close>

definition t_round_trip :: "'st StoreI \<Rightarrow> 'st test" where
  "t_round_trip I =
     must (PutSession I (zero_session\<lparr>s_ID := ''sid'', s_Creation := 100, s_LastAccess := 100, s_InactiveTimeout := 1800,
       s_FinalTimeout := 28800, s_Labels := ''adm default''\<rparr>) Hour) (\<lambda>_.
     must (GetSession I ''sid'') (\<lambda>got.
     check (s_ID got = ''sid'' \<and> s_FinalTimeout got = 28800) (
     check (s_Labels got = ''adm default'') passed)))"

definition t_missing :: "'st StoreI \<Rightarrow> 'st test" where
  "t_missing I = wants ErrNotFound (GetSession I ''nope'') passed"

definition t_stale_mutations :: "'st StoreI \<Rightarrow> 'st test" where
  "t_stale_mutations I =
     wants ErrNotFound (TouchSession I ''gone'' ''missing-key'' 2 2 Hour) (
     wants ErrNotFound (ApplySessionControls I ''gone'' (zero_controls\<lparr>c_OldKeyID := ''missing-key'', c_LastRotation := 2\<rparr>) Hour Hour) (
     wants ErrNotFound (PutKey I ''orphan-key'' ''gone'' Hour) (
     wants ErrNotFound (GetKey I ''orphan-key'') (
     wants ErrNotFound (PutCookie I ''gone'' ''JSESSIONID'' ''secret'' ''sha'') (
     reading [] (GetCookies I ''gone'') (\<lambda>values.
     check (values = []) (
     reading [] (CookieSHAs I ''gone'') (\<lambda>shas.
     check (shas = []) passed))))))))"

definition t_field_scoped :: "'st StoreI \<Rightarrow> 'st test" where
  "t_field_scoped I = (let original = (test_row ''scoped'' 42)\<lparr>s_LastRotation := 10, s_Labels := ''default''\<rparr>;
       c1 = zero_controls\<lparr>c_SetLabels := True, c_Labels := ''adm'', c_LastAccess := 3, c_OldKeyID := ''rotated-key''\<rparr>;
       c2 = c1\<lparr>c_Labels := ''default adm'', c_LastAccess := 4, c_LastRotation := 30\<rparr>;
       c3 = c2\<lparr>c_Labels := ''latest'', c_LastAccess := 3, c_LastRotation := 20\<rparr>
     in must (PutSession I original Hour) (\<lambda>_.
     must (PutKey I ''scoped-key'' (s_ID original) Hour) (\<lambda>_.
     must (TouchSession I (s_ID original) ''scoped-key'' 2 99 Hour) (\<lambda>_.
     reading zero_session (GetSession I (s_ID original)) (\<lambda>got.
     check (s_LastAccess got = 2 \<and> s_LastRotation got = 10 \<and> s_OwnerID got = 42 \<and> s_Labels got = ''default'') (
     must (RotateSessionKey I (s_ID original) ''scoped-key'' ''rotated-key'' 20 Hour) (\<lambda>_.
     reading zero_session (GetSession I (s_ID original)) (\<lambda>got.
     check (s_LastRotation got = 20 \<and> s_OwnerID got = 42 \<and> s_Labels got = ''default'') (
     must (ApplySessionControls I (s_ID original) c1 Hour Hour) (\<lambda>_.
     reading zero_session (GetSession I (s_ID original)) (\<lambda>got.
     check (s_Labels got = ''adm'' \<and> s_LastAccess got = 3 \<and> s_LastRotation got = 20 \<and> s_OwnerID got = 42) (
     must (ApplySessionControls I (s_ID original) c2 Hour Hour) (\<lambda>_.
     reading zero_session (GetSession I (s_ID original)) (\<lambda>got.
     check (s_Labels got = ''default adm'' \<and> s_LastAccess got = 4 \<and> s_LastRotation got = 30 \<and> s_OwnerID got = 42) (
     must (TouchSession I (s_ID original) ''rotated-key'' 3 20 Hour) (\<lambda>_.
     must (ApplySessionControls I (s_ID original) c3 Hour Hour) (\<lambda>_.
     reading zero_session (GetSession I (s_ID original)) (\<lambda>got.
     check (s_Labels got = ''latest'' \<and> s_LastAccess got = 4 \<and> s_LastRotation got = 30) passed))))))))))))))))))"

definition t_one_winner :: "'st StoreI \<Rightarrow> 'st test" where
  "t_one_winner I =
     ignoring (PutSession I (test_row ''sid'' 0) Hour) (
     ignoring (PutKey I ''old'' ''sid'' Hour) (
     must (ReplaceKey I ''old'' ''new-1'' ''sid'' Hour) (\<lambda>_.
     wants ErrConflict (ReplaceKey I ''old'' ''new-2'' ''sid'' Hour) (
     wants ErrNotFound (GetKey I ''old'') (
     must (GetKey I ''new-1'') (\<lambda>sid.
     check (sid = ''sid'') (
     wants ErrNotFound (GetKey I ''new-2'') passed)))))))"

definition t_equal_keys :: "'st StoreI \<Rightarrow> 'st test" where
  "t_equal_keys I = (let original = (test_row ''equal-key'' 0)\<lparr>s_LastRotation := 1\<rparr>
     in must (PutSession I original Hour) (\<lambda>_.
     must (PutKey I ''same-key'' (s_ID original) Hour) (\<lambda>_.
     wants ErrConflict (ApplySessionControls I (s_ID original) (zero_controls\<lparr>c_OldKeyID := ''same-key'', c_NewKeyID := ''same-key'',
       c_Rotate := True, c_LastAccess := 2, c_LastRotation := 2\<rparr>) Hour Hour) (
     must (GetKey I ''same-key'') (\<lambda>sid.
     check (sid = s_ID original) (
     must (GetSession I (s_ID original)) (\<lambda>got.
     check (s_LastAccess got = s_LastAccess original \<and> s_LastRotation got = s_LastRotation original) passed)))))))"

definition t_all_or_nothing :: "'st StoreI \<Rightarrow> 'st test" where
  "t_all_or_nothing I = (let original = (test_row ''controls'' 1)\<lparr>s_Labels := ''default''\<rparr>;
       c1 = \<lparr>c_SetOwner = True, c_OwnerID = 2, c_SetLabels = True, c_Labels = ''adm'', c_LastAccess = 2, c_LastRotation = 2,
         c_OldKeyID = ''old-controls'', c_NewKeyID = ''new-controls'', c_Rotate = True,
         c_Cookies = [\<lparr>cm_Name = ''JSESSIONID'', cm_Value = ''winner'', cm_SHA = ''winner-sha'', cm_Delete = False\<rparr>]\<rparr>;
       c2 = c1\<lparr>c_NewKeyID := ''losing-controls'', c_OwnerID := 3, c_Labels := ''stale'', c_LastAccess := 3, c_LastRotation := 3,
         c_Cookies := [\<lparr>cm_Name = ''JSESSIONID'', cm_Value = ''stale'', cm_SHA = ''stale-sha'', cm_Delete = False\<rparr>]\<rparr>
     in ignoring (PutSession I original Hour) (
     ignoring (PutKey I ''old-controls'' (s_ID original) Hour) (
     ignoring (AddOwnerIndex I 1 (s_ID original) Hour) (
     must (ApplySessionControls I (s_ID original) c1 Hour Hour) (\<lambda>_.
     must (GetSession I (s_ID original)) (\<lambda>got.
     check (s_OwnerID got = 2 \<and> s_Labels got = ''adm'' \<and> s_LastAccess got = 2 \<and> s_LastRotation got = 2) (
     wants ErrNotFound (GetKey I ''old-controls'') (
     must (GetKey I ''new-controls'') (\<lambda>sid.
     check (sid = s_ID original) (
     wants ErrConflict (TouchSession I (s_ID original) ''old-controls'' 99 99 Hour) (
     wants ErrConflict (ApplySessionControls I (s_ID original) c2 Hour Hour) (
     reading zero_session (GetSession I (s_ID original)) (\<lambda>got.
     check (s_OwnerID got = 2 \<and> s_Labels got = ''adm'' \<and> s_LastRotation got = 2) (
     reading [] (GetCookies I (s_ID original)) (\<lambda>cookies.
     reading [] (CookieSHAs I (s_ID original)) (\<lambda>shas.
     check (mget cookies ''JSESSIONID'' = Some ''winner'' \<and> mget shas ''JSESSIONID'' = Some ''winner-sha'') passed))))))))))))))))"

definition t_cascade :: "'st StoreI \<Rightarrow> 'st test" where
  "t_cascade I =
     ignoring (PutSession I (test_row ''sid'' 0) Hour) (
     ignoring (PutKey I ''k1'' ''sid'' Hour) (
     must (GetKey I ''k1'') (\<lambda>sid.
     check (sid = ''sid'') (
     ignoring (DeleteSession I ''sid'') (
     wants ErrNotFound (GetKey I ''k1'') passed)))))"

definition t_cookies :: "'st StoreI \<Rightarrow> 'st test" where
  "t_cookies I =
     ignoring (PutSession I (test_row ''sid'' 0) Hour) (
     ignoring (PutCookie I ''sid'' ''JSESSIONID'' ''abc'' ''sha1'') (
     reading [] (GetCookies I ''sid'') (\<lambda>vals.
     check (mget vals ''JSESSIONID'' = Some ''abc'') (
     reading [] (CookieSHAs I ''sid'') (\<lambda>shas.
     check (mget shas ''JSESSIONID'' = Some ''sha1'') (
     must (DeleteCookie I ''sid'' ''JSESSIONID'') (\<lambda>_.
     must (DeleteCookie I ''sid'' ''JSESSIONID'') (\<lambda>_.
     reading [] (GetCookies I ''sid'') (\<lambda>vals.
     reading [] (CookieSHAs I ''sid'') (\<lambda>shas.
     check (mget vals ''JSESSIONID'' = None) (
     check (mget shas ''JSESSIONID'' = None) passed)))))))))))"

definition t_owner_index :: "'st StoreI \<Rightarrow> 'st test" where
  "t_owner_index I =
     ignoring (AddOwnerIndex I 42 ''sidA'' Hour) (
     ignoring (AddOwnerIndex I 42 ''sidB'' Hour) (
     reading [] (OwnerSessions I 42) (\<lambda>sids.
     check (length sids = 2) passed)))"

definition t_owner_prunes :: "'st StoreI \<Rightarrow> 'st test" where
  "t_owner_prunes I =
     ignoring (PutSession I (test_row ''sidA'' 42) Hour) (
     ignoring (PutSession I (test_row ''sidB'' 42) Hour) (
     ignoring (AddOwnerIndex I 42 ''sidA'' Hour) (
     ignoring (AddOwnerIndex I 42 ''sidB'' Hour) (
     ignoring (DeleteSession I ''sidA'') (
     reading [] (OwnerSessions I 42) (\<lambda>sids.
     check (sids = [''sidB'']) passed))))))"

definition t_owner_remove :: "'st StoreI \<Rightarrow> 'st test" where
  "t_owner_remove I =
     ignoring (AddOwnerIndex I 42 ''stale'' Hour) (
     ignoring (AddOwnerIndex I 42 ''live'' Hour) (
     must (RemoveOwnerIndex I 42 ''stale'') (\<lambda>_.
     reading [] (OwnerSessions I 42) (\<lambda>sids.
     check (sids = [''live'']) passed))))"

definition t_reassign_missing :: "'st StoreI \<Rightarrow> 'st test" where
  "t_reassign_missing I =
     wants ErrNotFound (ReassignOwner I (test_row ''missing'' 42) Hour Hour) (
     must (OwnerSessions I 42) (\<lambda>sids.
     check (sids = []) passed))"

definition t_reassign :: "'st StoreI \<Rightarrow> 'st test" where
  "t_reassign I = (let original = (test_row ''sid'' 41)\<lparr>s_LastRotation := 10, s_Labels := ''default''\<rparr>;
       updated = original\<lparr>s_OwnerID := 42, s_LastAccess := 2, s_Labels := ''stale'', s_Creation := 999\<rparr>
     in must (PutSession I original Hour) (\<lambda>_.
     must (AddOwnerIndex I 41 ''sid'' Hour) (\<lambda>_.
     must (ReassignOwner I updated Hour (2 * Hour)) (\<lambda>_.
     must (GetSession I ''sid'') (\<lambda>got.
     check (s_OwnerID got = 42 \<and> s_LastAccess got = 2 \<and> s_Creation got = 1 \<and> s_Labels got = ''default'') (
     must (OwnerSessions I 41) (\<lambda>oldSIDs.
     check (oldSIDs = []) (
     must (OwnerSessions I 42) (\<lambda>newSIDs.
     check (newSIDs = [''sid'']) passed)))))))))"

definition t_owner_delete :: "'st StoreI \<Rightarrow> 'st test" where
  "t_owner_delete I =
     must (PutSession I (test_row ''sid'' 42) Hour) (\<lambda>_.
     must (PutKey I ''key'' ''sid'' Hour) (\<lambda>_.
     must (PutCookie I ''sid'' ''JSESSIONID'' ''secret'' ''sha'') (\<lambda>_.
     must (AddOwnerIndex I 42 ''sid'' Hour) (\<lambda>_.
     must (DeleteSessionByOwner I 42 ''sid'') (\<lambda>deleted.
     check deleted (
     wants ErrNotFound (GetSession I ''sid'') (
     wants ErrNotFound (GetKey I ''key'') (
     must (GetCookies I ''sid'') (\<lambda>cookies.
     check (cookies = []) (
     must (CookieSHAs I ''sid'') (\<lambda>shas.
     check (shas = []) (
     must (OwnerSessions I 42) (\<lambda>sids.
     check (sids = []) passed)))))))))))))"

definition t_owner_delete_reassigned :: "'st StoreI \<Rightarrow> 'st test" where
  "t_owner_delete_reassigned I = (let original = test_row ''sid'' 41
     in must (PutSession I original Hour) (\<lambda>_.
     must (AddOwnerIndex I 41 ''sid'' Hour) (\<lambda>_.
     must (ReassignOwner I (original\<lparr>s_OwnerID := 42\<rparr>) Hour Hour) (\<lambda>_.
     must (DeleteSessionByOwner I 41 ''sid'') (\<lambda>deleted.
     check (\<not> deleted) (
     must (GetSession I ''sid'') (\<lambda>got.
     check (s_OwnerID got = 42) passed)))))))"

definition t_lock :: "'st StoreI \<Rightarrow> 'st test" where
  "t_lock I =
     must (Lock I ''sid'' (60 * Second)) (\<lambda>l.
     case l of None \<Rightarrow> (\<lambda>st. False) | Some unlock \<Rightarrow>
     reading None (Lock I ''sid'' (60 * Second)) (\<lambda>l2.
     check (Option.is_none l2) (
     must unlock (\<lambda>_.
     reading None (Lock I ''sid'' (60 * Second)) (\<lambda>l3.
     check (\<not> Option.is_none l3) passed)))))"

definition suite :: "'st StoreI \<Rightarrow> 'st test list" where
  "suite I = [t_round_trip I, t_missing I, t_stale_mutations I, t_field_scoped I, t_one_winner I, t_equal_keys I,
     t_all_or_nothing I, t_cascade I, t_cookies I, t_owner_index I, t_owner_prunes I, t_owner_remove I,
     t_reassign_missing I, t_reassign I, t_owner_delete I, t_owner_delete_reassigned I, t_lock I]"

definition RunContract :: "'st StoreI \<Rightarrow> 'st \<Rightarrow> bool" where
  "RunContract I newStore = list_all (\<lambda>t. t newStore) (suite I)"

lemmas subtest_defs = t_round_trip_def t_missing_def t_stale_mutations_def t_field_scoped_def t_one_winner_def
  t_equal_keys_def t_all_or_nothing_def t_cascade_def t_cookies_def t_owner_index_def t_owner_prunes_def
  t_owner_remove_def t_reassign_missing_def t_reassign_def t_owner_delete_def t_owner_delete_reassigned_def t_lock_def

section \<open>The abstract contract implies the suite\<close>

context exact_store
begin

text \<open>A test passes from every state that looks like \<open>v\<close>; one rule per statement and call.\<close>

definition passes :: "view \<Rightarrow> 'a test \<Rightarrow> bool" where
  "passes v T \<longleftrightarrow> (\<forall>st. invar st \<and> obs st = v \<longrightarrow> T st)"

lemma passes_done: "passes v passed"
  by (simp add: passes_def passed_def)

lemma passes_check: "b \<Longrightarrow> passes v k \<Longrightarrow> passes v (check b k)"
  by (simp add: passes_def check_def)

lemma passes_must_exec: "call_ok c v \<Longrightarrow> passes (call_effect c v) (k ()) \<Longrightarrow> passes v (must (exec I t t' c) k)"
  unfolding passes_def must_def
proof (intro allI impI)
  fix st assume ok: "call_ok c v" and k: "\<forall>st. invar st \<and> obs st = call_effect c v \<longrightarrow> k () st" and st: "invar st \<and> obs st = v"
  obtain st' where "invar st'" "exec I t t' c st = (st', Inr ())" "obs st' = call_effect c v"
    using call_total [of st t t' c] st ok by auto
  with k show "case exec I t t' c st of (st', Inl _) \<Rightarrow> False | (st', Inr x) \<Rightarrow> k x st'" by simp
qed

lemma passes_wants_exec: "\<not> call_ok c v \<Longrightarrow> e = call_error c v \<Longrightarrow> passes v k \<Longrightarrow> passes v (wants e (exec I t t' c) k)"
  unfolding passes_def wants_def
proof (intro allI impI)
  fix st assume ok: "\<not> call_ok c v" "e = call_error c v" and k: "\<forall>st. invar st \<and> obs st = v \<longrightarrow> k st" and st: "invar st \<and> obs st = v"
  obtain st' where "invar st'" "exec I t t' c st = (st', Inl e)" "obs st' = v"
    using call_total [of st t t' c] st ok by auto
  with k show "case exec I t t' c st of (st', Inl e') \<Rightarrow> e' = e \<and> k st' | (st', Inr _) \<Rightarrow> False" by simp
qed

lemma passes_ignoring_exec: "call_ok c v \<Longrightarrow> passes (call_effect c v) k \<Longrightarrow> passes v (ignoring (exec I t t' c) k)"
proof -
  have "must f (\<lambda>_. k) st \<Longrightarrow> ignoring f k st" for f :: "('a, unit) op" and st
    by (cases "f st"; cases "snd (f st)") (auto simp: must_def ignoring_def)
  then show "call_ok c v \<Longrightarrow> passes (call_effect c v) k \<Longrightarrow> passes v (ignoring (exec I t t' c) k)"
    using passes_must_exec [of c v "\<lambda>_. k" t t'] by (simp add: passes_def)
qed

lemmas passes_calls =
  passes_must_exec [where c = "CPutSession s" for s, unfolded exec.simps] passes_must_exec [where c = "CPutKey k s" for k s, unfolded exec.simps]
  passes_must_exec [where c = "CTouchSession i k a r" for i k a r, unfolded exec.simps]
  passes_must_exec [where c = "CApplyControls i c" for i c, unfolded exec.simps]
  passes_must_exec [where c = "CReplaceKey x y i" for x y i, unfolded exec.simps]
  passes_must_exec [where c = "CPutCookie i n x s" for i n x s, unfolded exec.simps]
  passes_must_exec [where c = "CDeleteCookie i n" for i n, unfolded exec.simps]
  passes_must_exec [where c = "CAddOwner i s" for i s, unfolded exec.simps]
  passes_must_exec [where c = "CRemoveOwner i s" for i s, unfolded exec.simps]
  passes_must_exec [where c = "CReassignOwner s" for s, unfolded exec.simps]
  passes_wants_exec [where c = "CTouchSession i k a r" for i k a r, unfolded exec.simps]
  passes_wants_exec [where c = "CApplyControls i c" for i c, unfolded exec.simps]
  passes_wants_exec [where c = "CPutKey k s" for k s, unfolded exec.simps]
  passes_wants_exec [where c = "CReplaceKey x y i" for x y i, unfolded exec.simps]
  passes_wants_exec [where c = "CPutCookie i n x s" for i n x s, unfolded exec.simps]
  passes_wants_exec [where c = "CReassignOwner s" for s, unfolded exec.simps]
  passes_ignoring_exec [where c = "CPutSession s" for s, unfolded exec.simps]
  passes_ignoring_exec [where c = "CPutKey k s" for k s, unfolded exec.simps]
  passes_ignoring_exec [where c = "CAddOwner i s" for i s, unfolded exec.simps]
  passes_ignoring_exec [where c = "CPutCookie i n x s" for i n x s, unfolded exec.simps]
  passes_ignoring_exec [where c = "CDeleteSession s" for s, unfolded exec.simps]

lemma passes_rotate:
  "call_ok (CApplyControls i (rotate_controls x y r)) v \<Longrightarrow> passes (call_effect (CApplyControls i (rotate_controls x y r)) v) (k ()) \<Longrightarrow>
   passes v (must (RotateSessionKey I i x y r t) k)"
  unfolding rotate by (rule passes_calls)

lemma passes_session:
  "v_session v i \<noteq> None \<Longrightarrow> passes v (k (the (v_session v i))) \<Longrightarrow> passes v (must (GetSession I i) k)"
  "v_session v i \<noteq> None \<Longrightarrow> passes v (k (the (v_session v i))) \<Longrightarrow> passes v (reading z (GetSession I i) k)"
  "v_session v i = None \<Longrightarrow> passes v k' \<Longrightarrow> passes v (wants ErrNotFound (GetSession I i) k')"
proof -
  have g: "\<exists>st'. invar st' \<and> obs st' = obs st \<and> GetSession I i st = (st', case v_session (obs st) i of None \<Rightarrow> Inl ErrNotFound | Some s \<Rightarrow> Inr s)"
    if "invar st" for st
    using session_value [OF that, of i] by blast
  show "v_session v i \<noteq> None \<Longrightarrow> passes v (k (the (v_session v i))) \<Longrightarrow> passes v (must (GetSession I i) k)"
    "v_session v i \<noteq> None \<Longrightarrow> passes v (k (the (v_session v i))) \<Longrightarrow> passes v (reading z (GetSession I i) k)"
    "v_session v i = None \<Longrightarrow> passes v k' \<Longrightarrow> passes v (wants ErrNotFound (GetSession I i) k')"
    unfolding passes_def must_def reading_def wants_def using g by (fastforce split: option.splits)+
qed

lemma passes_key:
  "v_key v i \<noteq> None \<Longrightarrow> passes v (k (the (v_key v i))) \<Longrightarrow> passes v (must (GetKey I i) k)"
  "v_key v i = None \<Longrightarrow> passes v k' \<Longrightarrow> passes v (wants ErrNotFound (GetKey I i) k')"
proof -
  have g: "\<exists>st'. invar st' \<and> obs st' = obs st \<and> GetKey I i st = (st', case v_key (obs st) i of None \<Rightarrow> Inl ErrNotFound | Some s \<Rightarrow> Inr s)"
    if "invar st" for st
    using key_value [OF that, of i] by blast
  show "v_key v i \<noteq> None \<Longrightarrow> passes v (k (the (v_key v i))) \<Longrightarrow> passes v (must (GetKey I i) k)"
    "v_key v i = None \<Longrightarrow> passes v k' \<Longrightarrow> passes v (wants ErrNotFound (GetKey I i) k')"
    unfolding passes_def must_def wants_def using g by (fastforce split: option.splits)+
qed

lemma total_query:
  assumes "queries invar obs f (\<lambda>v r. \<forall>x. r = Inr x \<longrightarrow> Q v x)" "\<And>st st' e. invar st \<Longrightarrow> f st \<noteq> (st', Inl e)"
    and "\<And>x. Q v x \<Longrightarrow> passes v (k x)"
  shows "passes v (must f k) \<and> passes v (reading z f k)"
proof -
  have "\<exists>st' x. f st = (st', Inr x) \<and> invar st' \<and> obs st' = v \<and> Q v x" if "invar st" "obs st = v" for st
  proof -
    obtain st' r where f: "f st = (st', r)" by fastforce
    with assms(1) that have "invar st'" "obs st' = obs st" "\<forall>x. r = Inr x \<longrightarrow> Q v x" unfolding queries_def by blast+
    with f assms(2) [OF that(1)] that show ?thesis by (cases r) auto
  qed
  with assms(3) show ?thesis unfolding passes_def must_def reading_def by fastforce
qed

lemma passes_maps:
  "(\<And>m. mget m = v_cookie v i \<Longrightarrow> passes v (k m)) \<Longrightarrow> passes v (must (GetCookies I i) k)"
  "(\<And>m. mget m = v_cookie v i \<Longrightarrow> passes v (k m)) \<Longrightarrow> passes v (reading z (GetCookies I i) k)"
  "(\<And>m. mget m = v_sha v i \<Longrightarrow> passes v (k m)) \<Longrightarrow> passes v (must (CookieSHAs I i) k)"
  "(\<And>m. mget m = v_sha v i \<Longrightarrow> passes v (k m)) \<Longrightarrow> passes v (reading z (CookieSHAs I i) k)"
  using total_query [OF get_cookies cookies_total] total_query [OF get_shas shas_total] by blast+

lemma passes_owner:
  assumes "\<And>l. set l = v_owner v i \<Longrightarrow> distinct l \<Longrightarrow> passes v (k l)"
  shows "passes v (must (OwnerSessions I i) k)" "passes v (reading z (OwnerSessions I i) k)"
proof -
  have "queries invar obs (OwnerSessions I i) (\<lambda>v r. \<forall>l. r = Inr l \<longrightarrow> set l = v_owner v i \<and> distinct l)"
    using owner_sessions [of i] owner_distinct [of _ i] unfolding queries_def by blast
  from total_query [OF this owner_total] assms
  show "passes v (must (OwnerSessions I i) k)" "passes v (reading z (OwnerSessions I i) k)" by blast+
qed

lemma passes_owner_one:
  assumes "v_owner v i = {x}" "passes v (k [x])"
  shows "passes v (must (OwnerSessions I i) k)" "passes v (reading z (OwnerSessions I i) k)"
proof -
  have "l = [x]" if "set l = {x}" "distinct l" for l
    using that by (cases l; cases "tl l") auto
  with assms show "passes v (must (OwnerSessions I i) k)" "passes v (reading z (OwnerSessions I i) k)"
    by (auto intro!: passes_owner)
qed

lemma passes_owner_count:
  "(\<And>l. length l = card (v_owner v i) \<Longrightarrow> passes v (k l)) \<Longrightarrow> passes v (reading z (OwnerSessions I i) k)"
  using distinct_card by (fastforce intro: passes_owner)

lemma passes_by_owner:
  assumes "passes (call_effect (CDeleteByOwner i sid) v) (k (\<exists>s. v_session v sid = Some s \<and> s_OwnerID s = i))"
  shows "passes v (must (DeleteSessionByOwner I i sid) k)"
  unfolding passes_def must_def
proof (intro allI impI)
  fix st assume st: "invar st \<and> obs st = v"
  obtain st' r where d: "DeleteSessionByOwner I i sid st = (st', r)" by fastforce
  obtain st2 where e: "invar st2" "exec I 0 0 (CDeleteByOwner i sid) st = (st2, Inr ())" "obs st2 = call_effect (CDeleteByOwner i sid) v"
    using call_total [of st 0 0 "CDeleteByOwner i sid"] st by auto
  then obtain b where r: "r = Inr b" "st2 = st'" using d by (cases r) (auto simp: andThen_def)
  with by_owner [of st i sid st' b] st d have "b = (\<exists>s. v_session v sid = Some s \<and> s_OwnerID s = i)" by auto
  with assms st e r d show "case DeleteSessionByOwner I i sid st of (st', Inl _) \<Rightarrow> False | (st', Inr x) \<Rightarrow> k x st'"
    by (simp add: passes_def)
qed

lemma passes_lock_suite:
  assumes "sid \<notin> v_lock v"
  shows "passes v (must (Lock I sid t) (\<lambda>l. case l of None \<Rightarrow> (\<lambda>st. False) | Some unlock \<Rightarrow>
     reading None (Lock I sid t) (\<lambda>l2. check (Option.is_none l2) (must unlock (\<lambda>_.
     reading None (Lock I sid t) (\<lambda>l3. check (\<not> Option.is_none l3) passed))))))"
proof -
  let ?rest = "\<lambda>l. case l of None \<Rightarrow> (\<lambda>st. False) | Some unlock \<Rightarrow>
     reading None (Lock I sid t) (\<lambda>l2. check (Option.is_none l2) (must unlock (\<lambda>_.
     reading None (Lock I sid t) (\<lambda>l3. check (\<not> Option.is_none l3) passed))))"
  have free: "\<exists>st' u. Lock I sid t st = (st', Inr (Some u)) \<and> invar st' \<and> obs st' = (obs st)\<lparr>v_lock := insert sid (v_lock (obs st))\<rparr>"
    if "invar st" "sid \<notin> v_lock (obs st)" for st
  proof -
    obtain st' r where l: "Lock I sid t st = (st', r)" by fastforce
    with lock_total [OF that(1) l] that(2) obtain u where "r = Inr (Some u)" by (cases r) auto
    with l lock_taken [OF that(1), of sid t st' u] show ?thesis by auto
  qed
  have busy: "\<exists>st'. Lock I sid t st = (st', Inr None) \<and> invar st' \<and> obs st' = obs st"
    if "invar st" "sid \<in> v_lock (obs st)" for st
  proof -
    obtain st' r where l: "Lock I sid t st = (st', r)" by fastforce
    have "r \<noteq> Inr (Some u)" for u using lock_taken [OF that(1), of sid t st' u] l that(2) by auto
    with lock_total [OF that(1) l] have "r = Inr None" by (cases r) auto
    with l lock_busy [OF that(1) l] show ?thesis by auto
  qed
  show ?thesis unfolding passes_def
  proof (intro allI impI)
    fix st assume st: "invar st \<and> obs st = v"
    obtain st1 u where 1: "Lock I sid t st = (st1, Inr (Some u))" "invar st1" "sid \<in> v_lock (obs st1)"
      using free [of st] st assms by auto
    obtain st2 where 2: "Lock I sid t st1 = (st2, Inr None)" "invar st2" using busy [OF 1(2,3)] by auto
    obtain st3 y where 3: "u st2 = (st3, y)" by fastforce
    have st3: "invar st3" "sid \<notin> v_lock (obs st3)" "\<not> isl y"
      using unlock [OF conjunct1 [OF st] 1(1) 2(2) 3] unlock_total [OF conjunct1 [OF st] 1(1) 2(2) 3] by auto
    obtain st4 u4 where "Lock I sid t st3 = (st4, Inr (Some u4))" using free [OF st3(1,2)] by auto
    with 1(1) 2(1) 3 st3(3) show "must (Lock I sid t) ?rest st"
      by (cases y) (simp_all add: must_def reading_def check_def passed_def)
  qed
qed

lemmas passes_rules = passes_done passes_check passes_calls passes_rotate passes_session passes_key passes_maps
  passes_owner passes_by_owner

lemmas suite_simps = empty_view_def test_row_def zero_session_def zero_controls_def rotate_controls_def spec_controls_def
  spec_row_def spec_touch_def spec_move_owner_def spec_delete_def call_error_def Let_def

lemma empty_mget: "mget m = (\<lambda>_. None) \<Longrightarrow> m = []"
  by (cases m) (auto simp: fun_eq_iff split: if_splits)

lemma pass_round_trip: "passes empty_view (t_round_trip I)"
  unfolding t_round_trip_def Let_def by (intro passes_rules) (auto simp: suite_simps dest!: empty_mget)

lemma pass_missing: "passes empty_view (t_missing I)"
  unfolding t_missing_def Let_def by (intro passes_rules) (auto simp: suite_simps dest!: empty_mget)

lemma pass_stale_mutations: "passes empty_view (t_stale_mutations I)"
  unfolding t_stale_mutations_def Let_def by (intro passes_rules) (auto simp: suite_simps dest!: empty_mget)

lemma pass_field_scoped: "passes empty_view (t_field_scoped I)"
  unfolding t_field_scoped_def Let_def by (intro passes_rules) (auto simp: suite_simps dest!: empty_mget)

lemma pass_one_winner: "passes empty_view (t_one_winner I)"
  unfolding t_one_winner_def Let_def by (intro passes_rules) (auto simp: suite_simps dest!: empty_mget)

lemma pass_equal_keys: "passes empty_view (t_equal_keys I)"
  unfolding t_equal_keys_def Let_def by (intro passes_rules) (auto simp: suite_simps dest!: empty_mget)

lemma pass_all_or_nothing: "passes empty_view (t_all_or_nothing I)"
  unfolding t_all_or_nothing_def Let_def by (intro passes_rules) (auto simp: suite_simps dest!: empty_mget)

lemma pass_cascade: "passes empty_view (t_cascade I)"
  unfolding t_cascade_def Let_def by (intro passes_rules) (auto simp: suite_simps dest!: empty_mget)

lemma pass_cookies: "passes empty_view (t_cookies I)"
  unfolding t_cookies_def Let_def by (intro passes_rules) (auto simp: suite_simps dest!: empty_mget)

lemma pass_owner_index: "passes empty_view (t_owner_index I)"
  unfolding t_owner_index_def Let_def by (intro passes_calls passes_owner_count passes_check passes_done) (auto simp: suite_simps dest!: empty_mget)

lemma pass_owner_prunes: "passes empty_view (t_owner_prunes I)"
  unfolding t_owner_prunes_def Let_def by (intro passes_calls passes_owner_one passes_check passes_done) (auto simp: suite_simps dest!: empty_mget)

lemma pass_owner_remove: "passes empty_view (t_owner_remove I)"
  unfolding t_owner_remove_def Let_def by (intro passes_calls passes_owner_one passes_check passes_done) (auto simp: suite_simps dest!: empty_mget)

lemma pass_reassign_missing: "passes empty_view (t_reassign_missing I)"
  unfolding t_reassign_missing_def Let_def by (intro passes_rules) (auto simp: suite_simps dest!: empty_mget)

lemma pass_reassign: "passes empty_view (t_reassign I)"
  unfolding t_reassign_def Let_def
  by (intro passes_calls passes_session passes_check passes_done passes_owner(1) [where i = 41] passes_owner_one(1) [where i = 42])
    (auto simp: suite_simps)

lemma pass_owner_delete: "passes empty_view (t_owner_delete I)"
  unfolding t_owner_delete_def Let_def by (intro passes_rules) (auto simp: suite_simps dest!: empty_mget)

lemma pass_owner_delete_reassigned: "passes empty_view (t_owner_delete_reassigned I)"
  unfolding t_owner_delete_reassigned_def Let_def by (intro passes_rules) (auto simp: suite_simps dest!: empty_mget)

lemma pass_lock: "passes empty_view (t_lock I)"
  unfolding t_lock_def by (rule passes_lock_suite) (simp add: empty_view_def)

lemma suite_passes: "invar st \<Longrightarrow> obs st = empty_view \<Longrightarrow> RunContract I st"
  using pass_round_trip pass_missing pass_stale_mutations pass_field_scoped pass_one_winner pass_equal_keys
    pass_all_or_nothing pass_cascade pass_cookies pass_owner_index pass_owner_prunes pass_owner_remove
    pass_reassign_missing pass_reassign pass_owner_delete pass_owner_delete_reassigned pass_lock
  by (simp add: RunContract_def suite_def passes_def)

end

text \<open>
  C26. The abstract contract of this development is at least as strong as the suite the stores are tested
  with: every store that satisfies it passes all seventeen subtests from an empty state. The in-memory
  store satisfies it.
\<close>

theorem contract_passes_suite:
  assumes "exact_store I obs invar" "invar newStore" "obs newStore = empty_view"
  shows "RunContract I newStore"
  using exact_store.suite_passes [OF assms] .

theorem contract_passes_suite_witness: "RunContract MemoryStore NewMemory"
  using contract_passes_suite [OF mem.exact_store_axioms mem_ok_New mem_view_New] .

end
