(* ===== verification/Go_Numbers.thy ===== *)
theory Go_Numbers
  imports Go_Strings
begin

text \<open>
  The two parsers of the Go standard library the configuration uses: \<open>time.ParseDuration\<close>, with its
  overflow checks and its floating-point treatment of fractions, and \<open>fmt.Sscanf\<close> with the verb
  \<open>%d\<close>.
\<close>

section \<open>Rounding to a double\<close>

text \<open>
  Non-negative doubles as fractions. \<open>rnd53\<close> rounds to 53 significant bits, ties to even; the numbers
  that occur stay inside the exponent range, except where the product is below one and truncated anyway.
\<close>

fun bitlen :: "int \<Rightarrow> int" where
  "bitlen n = (if n \<le> 0 then 0 else 1 + bitlen (n div 2))"

declare bitlen.simps [simp del]

definition half_even :: "int \<Rightarrow> int \<Rightarrow> int" where
  "half_even n d =
     (let q = n div d; r = n mod d
      in if d < 2 * r \<or> (2 * r = d \<and> odd q) then q + 1 else q)"

definition scaled :: "int \<Rightarrow> int \<times> int \<Rightarrow> int \<times> int" where
  "scaled s x = (if 0 \<le> s then (fst x * 2 ^ nat s, snd x) else (fst x, snd x * 2 ^ nat (- s)))"

definition rnd53 :: "int \<times> int \<Rightarrow> int \<times> int" where
  "rnd53 x =
     (if fst x = 0 then (0, 1)
      else let s = 53 - (bitlen (fst x) - bitlen (snd x));
               y = scaled s x;
               t = (if 2 ^ 53 * snd y \<le> fst y then s - 1 else s);
               z = scaled t x
           in scaled (- t) (half_even (fst z) (snd z), 1))"

definition fmul :: "int \<times> int \<Rightarrow> int \<times> int \<Rightarrow> int \<times> int" where
  "fmul x y = rnd53 (fst x * fst y, snd x * snd y)"

definition fdiv :: "int \<times> int \<Rightarrow> int \<times> int \<Rightarrow> int \<times> int" where
  "fdiv x y = rnd53 (fst x * snd y, snd x * fst y)"

section \<open>Durations\<close>

definition digit :: "char \<Rightarrow> bool" where
  "digit c \<longleftrightarrow> 48 \<le> ord c \<and> ord c \<le> 57"

definition digit_value :: "char \<Rightarrow> int" where
  "digit_value c = ord c - 48"

text \<open>\<open>leadingInt\<close>: the leading digits, or the overflow error.\<close>

fun leadingInt :: "string \<Rightarrow> int \<Rightarrow> (int \<times> string) option" where
  "leadingInt [] x = Some (x, [])"
| "leadingInt (c # s) x =
     (if \<not> digit c then Some (x, c # s)
      else if 2 ^ 63 div 10 < x then None
      else if 2 ^ 63 < x * 10 + digit_value c then None
      else leadingInt s (x * 10 + digit_value c))"

text \<open>\<open>leadingFraction\<close>: digits past the precision are consumed and ignored.\<close>

fun leadingFraction :: "string \<Rightarrow> int \<Rightarrow> int \<times> int \<Rightarrow> bool \<Rightarrow> int \<times> (int \<times> int) \<times> string" where
  "leadingFraction [] x scale overflow = (x, scale, [])"
| "leadingFraction (c # s) x scale overflow =
     (if \<not> digit c then (x, scale, c # s)
      else if overflow \<or> (2 ^ 63 - 1) div 10 < x \<or> 2 ^ 63 < x * 10 + digit_value c
           then leadingFraction s x scale True
      else leadingFraction s (x * 10 + digit_value c) (fmul scale (10, 1)) False)"

definition unitMap :: "(string, int) gomap" where
  "unitMap = [(''ns'', 1), (''us'', 1000), ([CHR 0xC2, CHR 0xB5, CHR ''s''], 1000),
     ([CHR 0xCE, CHR 0xBC, CHR ''s''], 1000), (''ms'', 1000000), (''s'', 1000000000),
     (''m'', 60000000000), (''h'', 3600000000000)]"

definition unit_char :: "char \<Rightarrow> bool" where
  "unit_char c \<longleftrightarrow> c \<noteq> CHR ''.'' \<and> \<not> digit c"

text \<open>One number with its unit: its value in nanoseconds and the rest of the text.\<close>

definition duration_item :: "string \<Rightarrow> (int \<times> string) option" where
  "duration_item s =
     (if s = [] \<or> unit_char (hd s) then None
      else case leadingInt s 0 of None \<Rightarrow> None
      | Some (v, s1) \<Rightarrow>
        (let pre = (length s1 \<noteq> length s);
             dot = (s1 \<noteq> [] \<and> hd s1 = CHR ''.'');
             (f, scale, s2) = (if dot then leadingFraction (tl s1) 0 (1, 1) False else (0, (1, 1), s1));
             post = (dot \<and> length s2 \<noteq> length (tl s1));
             u = takeWhile unit_char s2;
             s3 = dropWhile unit_char s2
         in if \<not> pre \<and> \<not> post then None
            else if u = [] then None
            else case mget unitMap u of None \<Rightarrow> None
            | Some uval \<Rightarrow>
                if 2 ^ 63 div uval < v then None
                else let v1 = v * uval + (if 0 < f
                       then (let x = fmul (rnd53 (f, 1)) (fdiv (uval, 1) scale) in fst x div snd x) else 0)
                     in if 2 ^ 63 < v1 then None else Some (v1, s3)))"

lemma leadingInt_rest: "leadingInt s x = Some (v, t) \<Longrightarrow> length t \<le> length s"
  by (induction s x rule: leadingInt.induct) (auto split: if_splits)

lemma leadingFraction_rest: "leadingFraction s x sc ov = (f, sc', t) \<Longrightarrow> length t \<le> length s"
  by (induction s x sc ov rule: leadingFraction.induct) (auto split: if_splits)

lemma duration_item_rest:
  assumes "duration_item s = Some (v, t)"
  shows "length t < length s"
proof -
  from assms obtain v0 s1 where s1: "leadingInt s 0 = Some (v0, s1)"
    by (auto simp: duration_item_def split: if_splits option.splits)
  define r where "r = (if s1 \<noteq> [] \<and> hd s1 = CHR ''.'' then leadingFraction (tl s1) 0 (1, 1) False else (0, (1, 1), s1))"
  obtain f sc s2 where s2: "r = (f, sc, s2)" by (cases r) auto
  from assms s1 s2 have t: "t = dropWhile unit_char s2" "takeWhile unit_char s2 \<noteq> []"
    by (auto simp: duration_item_def Let_def r_def [symmetric] split: if_splits option.splits)
  have "length (takeWhile unit_char s2) + length t = length s2"
    unfolding t(1) length_append [symmetric] takeWhile_dropWhile_id ..
  with t(2) have "length t < length s2" by (cases "takeWhile unit_char s2") auto
  also have "length s2 \<le> length s1"
    using s2 leadingFraction_rest [of "tl s1"] by (auto simp: r_def split: if_splits dest!: leadingFraction_rest)
  also have "\<dots> \<le> length s" by (rule leadingInt_rest [OF s1])
  finally show ?thesis .
qed

function duration_loop :: "string \<Rightarrow> int \<Rightarrow> int option" where
  "duration_loop s d =
     (if s = [] then Some d
      else case duration_item s of None \<Rightarrow> None
      | Some (v, t) \<Rightarrow>
          (let d' = (d + v) mod 2 ^ 64
           in if 2 ^ 63 < d' then None else duration_loop t d'))"
  by pat_completeness auto

termination
  by (relation "measure (length \<circ> fst)") (auto dest: duration_item_rest)

declare duration_loop.simps [simp del]

definition ParseDuration :: "string \<Rightarrow> duration option" where
  "ParseDuration s =
     (let neg = HasPrefix s ''-'';
          t = (if neg \<or> HasPrefix s ''+'' then tl s else s)
      in if t = ''0'' then Some 0
         else if t = [] then None
         else case duration_loop t 0 of None \<Rightarrow> None
         | Some d \<Rightarrow> if neg then Some (- d) else if 2 ^ 63 - 1 < d then None else Some d)"

lemma duration_loop_bound: "duration_loop s d = Some v \<Longrightarrow> 0 \<le> d \<Longrightarrow> d \<le> 2 ^ 63 \<Longrightarrow> 0 \<le> v \<and> v \<le> 2 ^ 63"
proof (induction s d rule: duration_loop.induct)
  case (1 s d)
  show ?case
  proof (cases "s = []")
    case True
    with 1(2-4) show ?thesis by (simp add: duration_loop.simps [of "[]"])
  next
    case False
    with 1(2) obtain u t where it: "duration_item s = Some (u, t)" "(d + u) mod 2 ^ 64 \<le> 2 ^ 63"
      "duration_loop t ((d + u) mod 2 ^ 64) = Some v"
      by (auto simp: duration_loop.simps [of s] Let_def not_less split: option.splits if_splits)
    from 1(1) [OF False it(1) refl refl] it(2,3) show ?thesis by simp
  qed
qed

lemma ParseDuration_range: "ParseDuration s = Some d \<Longrightarrow> is_i64 d"
  by (auto simp: ParseDuration_def Let_def is_i64_def not_less split: if_splits option.splits dest!: duration_loop_bound)

section \<open>Scanning an integer\<close>

text \<open>
  \<open>fmt.Sscanf(s, "%d", &n)\<close> for an \<open>int\<close>: space other than a newline is skipped, then an optional sign
  and at least one digit are read; what follows is left unread. A value outside \<open>int64\<close> is an error.
\<close>

definition skip_space :: "string \<Rightarrow> string" where
  "skip_space s = concat (dropWhile (\<lambda>b. IsSpace (rune_value b) \<and> rune_value b \<noteq> 10) (chunks s))"

definition Sscanf_d :: "string \<Rightarrow> int64 option" where
  "Sscanf_d s =
     (let t = skip_space s;
          signed = (t \<noteq> [] \<and> hd t \<in> {CHR ''+'', CHR ''-''});
          ds = takeWhile digit (if signed then tl t else t)
      in if ds = [] then None else ParseInt ((if signed then [hd t] else []) @ ds))"

lemma Sscanf_d_range: "Sscanf_d s = Some v \<Longrightarrow> is_i64 v"
  by (auto simp: Sscanf_d_def Let_def split: if_splits dest: ParseInt_range)

end
