(* ===== verification/Caddyfile.thy ===== *)
theory Caddyfile
  imports Go_Numbers Authz_Policy
begin

text \<open>
  The user-facing configuration and its Caddyfile parser (\<open>session_store.go\<close>:
  \<open>UnmarshalCaddyfile\<close>). Caddy's token dispenser is not part of the repository: it is a parameter, a
  record of the methods the parser calls. Its documented behaviour, that every successful step moves
  the cursor forward and none moves it back, is the hypothesis of the termination theorem.
\<close>

section \<open>Configuration\<close>

record RedisConfig =
  rd_Address :: string
  rd_Password :: string
  rd_DB :: int64
  rd_KeyPrefix :: string

record CookieConfig =
  cc_Name :: string
  cc_Path :: string
  cc_SameSite :: string
  cc_Insecure :: bool

record AuthzRule =
  ar_Path :: string
  ar_Label :: string

record AuthzConfig =
  az_Rules :: "AuthzRule list"
  az_DefaultLabel :: string
  az_AuthEndpoints :: "(string, string) gomap"
  az_RedirectParam :: string

text \<open>The exported, JSON-visible fields of \<open>Handler\<close>. The pointers \<open>RotateOnLogin\<close> and \<open>Authz\<close> are
  options; a nil map and an empty one read alike.\<close>

record HandlerConfig =
  hc_Redis :: RedisConfig
  hc_Cookie :: CookieConfig
  hc_Forward :: "string list"
  hc_Store :: "string list"
  hc_InactiveTimeout :: duration
  hc_FinalTimeout :: duration
  hc_IdentityHeader :: string
  hc_RotateOnLogin :: "bool option"
  hc_RotateInterval :: duration
  hc_RotateHeader :: string
  hc_RevokeHeader :: string
  hc_LabelsHeader :: string
  hc_Authz :: "AuthzConfig option"
  hc_Synchronize :: bool
  hc_OnStoreError :: string

definition zero_config :: HandlerConfig where
  "zero_config = \<lparr>hc_Redis = \<lparr>rd_Address = [], rd_Password = [], rd_DB = 0, rd_KeyPrefix = []\<rparr>,
     hc_Cookie = \<lparr>cc_Name = [], cc_Path = [], cc_SameSite = [], cc_Insecure = False\<rparr>,
     hc_Forward = [], hc_Store = [], hc_InactiveTimeout = 0, hc_FinalTimeout = 0, hc_IdentityHeader = [],
     hc_RotateOnLogin = None, hc_RotateInterval = 0, hc_RotateHeader = [], hc_RevokeHeader = [],
     hc_LabelsHeader = [], hc_Authz = None, hc_Synchronize = False, hc_OnStoreError = []\<rparr>"

definition zero_authz :: AuthzConfig where
  "zero_authz = \<lparr>az_Rules = [], az_DefaultLabel = [], az_AuthEndpoints = [], az_RedirectParam = []\<rparr>"

text \<open>The assignments at the top of \<open>UnmarshalCaddyfile\<close>.\<close>

definition with_defaults :: "HandlerConfig \<Rightarrow> HandlerConfig" where
  "with_defaults c = c\<lparr>
     hc_Cookie := (hc_Cookie c)\<lparr>cc_Name := ''__gosestor'', cc_Path := ''/'', cc_SameSite := ''lax''\<rparr>,
     hc_IdentityHeader := ''X-Auth-User'', hc_OnStoreError := ''fail_closed'',
     hc_Redis := (hc_Redis c)\<lparr>rd_KeyPrefix := ''gs:''\<rparr>\<rparr>"

section \<open>The dispenser and its loops\<close>

record 'd Dispenser =
  d_Next :: "'d \<Rightarrow> 'd \<times> bool"
  d_NextBlock :: "nat \<Rightarrow> 'd \<Rightarrow> 'd \<times> bool"
  d_NextArg :: "'d \<Rightarrow> 'd \<times> bool"
  d_RemainingArgs :: "'d \<Rightarrow> 'd \<times> string list"
  d_Val :: "'d \<Rightarrow> string"

datatype parse_error =
    ArgErr
  | InvalidDB string
  | UnknownRedisOption string
  | UnknownCookieOption string
  | InvalidDuration string
  | InvalidBool string string
  | RequireExpects
  | AuthEndpointExpects
  | UnknownAuthzOption string
  | UnknownOption string

type_synonym ('d, 'a) parse = "'d \<times> (parse_error + 'a)"

text \<open>\<open>for cond() { body }\<close>, where an error of the body is returned at once. The loop may run for ever,
  which is the value \<open>None\<close>.\<close>

partial_function (option) for_loop
  :: "('d \<Rightarrow> 'd \<times> bool) \<Rightarrow> ('d \<Rightarrow> 'a \<Rightarrow> ('d, 'a) parse option) \<Rightarrow> 'd \<Rightarrow> 'a \<Rightarrow> ('d, 'a) parse option" where
  "for_loop cond body d a =
     (if snd (cond d)
      then Option.bind (body (fst (cond d)) a)
        (\<lambda>(d', r). case r of Inl e \<Rightarrow> Some (d', Inl e) | Inr a' \<Rightarrow> for_loop cond body d' a')
      else Some (fst (cond d), Inr a))"

declare for_loop.simps [code]

text \<open>\<open>if !d.NextArg() { return d.ArgErr() }\<close>, then \<open>d.Val()\<close> goes to the continuation.\<close>

definition arg :: "'d Dispenser \<Rightarrow> (string \<Rightarrow> parse_error + 'a) \<Rightarrow> 'd \<Rightarrow> ('d, 'a) parse" where
  "arg D f d = (case d_NextArg D d of (d', ok) \<Rightarrow> (d', if ok then f (d_Val D d') else Inl ArgErr))"

section \<open>The blocks\<close>

definition redis_option :: "'d Dispenser \<Rightarrow> 'd \<Rightarrow> RedisConfig \<Rightarrow> ('d, RedisConfig) parse" where
  "redis_option D d rd =
     (let v = d_Val D d
      in if v = ''address'' then arg D (\<lambda>x. Inr (rd\<lparr>rd_Address := x\<rparr>)) d
         else if v = ''password'' then arg D (\<lambda>x. Inr (rd\<lparr>rd_Password := x\<rparr>)) d
         else if v = ''db'' then
           arg D (\<lambda>x. case Sscanf_d x of None \<Rightarrow> Inl (InvalidDB x) | Some n \<Rightarrow> Inr (rd\<lparr>rd_DB := n\<rparr>)) d
         else if v = ''key_prefix'' then arg D (\<lambda>x. Inr (rd\<lparr>rd_KeyPrefix := x\<rparr>)) d
         else (d, Inl (UnknownRedisOption v)))"

definition cookie_option :: "'d Dispenser \<Rightarrow> 'd \<Rightarrow> CookieConfig \<Rightarrow> ('d, CookieConfig) parse" where
  "cookie_option D d cc =
     (let v = d_Val D d
      in if v = ''name'' then arg D (\<lambda>x. Inr (cc\<lparr>cc_Name := x\<rparr>)) d
         else if v = ''path'' then arg D (\<lambda>x. Inr (cc\<lparr>cc_Path := x\<rparr>)) d
         else if v = ''same_site'' then arg D (\<lambda>x. Inr (cc\<lparr>cc_SameSite := x\<rparr>)) d
         else if v = ''insecure'' then (d, Inr (cc\<lparr>cc_Insecure := True\<rparr>))
         else (d, Inl (UnknownCookieOption v)))"

definition authz_option :: "'d Dispenser \<Rightarrow> 'd \<Rightarrow> AuthzConfig \<Rightarrow> ('d, AuthzConfig) parse" where
  "authz_option D d az =
     (let v = d_Val D d
      in if v = ''require'' then
           (case d_RemainingArgs D d of (d', args) \<Rightarrow>
              (d', case args of [p, l] \<Rightarrow> Inr (az\<lparr>az_Rules := az_Rules az @ [\<lparr>ar_Path = p, ar_Label = l\<rparr>]\<rparr>)
                   | _ \<Rightarrow> Inl RequireExpects))
         else if v = ''require_default'' then arg D (\<lambda>x. Inr (az\<lparr>az_DefaultLabel := x\<rparr>)) d
         else if v = ''auth_endpoint'' then
           (case d_RemainingArgs D d of (d', args) \<Rightarrow>
              (d', case args of [l, p] \<Rightarrow> Inr (az\<lparr>az_AuthEndpoints := mput l p (az_AuthEndpoints az)\<rparr>)
                   | _ \<Rightarrow> Inl AuthEndpointExpects))
         else if v = ''redirect_param'' then arg D (\<lambda>x. Inr (az\<lparr>az_RedirectParam := x\<rparr>)) d
         else (d, Inl (UnknownAuthzOption v)))"

text \<open>The options that take their values from the rest of the line.\<close>

definition duration_arg :: "(duration \<Rightarrow> 'a) \<Rightarrow> string \<Rightarrow> parse_error + 'a" where
  "duration_arg f x = (case ParseDuration x of None \<Rightarrow> Inl (InvalidDuration x) | Some dur \<Rightarrow> Inr (f dur))"

definition bool_arg :: "string \<Rightarrow> (bool \<Rightarrow> 'a) \<Rightarrow> string \<Rightarrow> parse_error + 'a" where
  "bool_arg opt f x = (case ParseBool x of None \<Rightarrow> Inl (InvalidBool opt x) | Some b \<Rightarrow> Inr (f b))"

definition line_option :: "'d Dispenser \<Rightarrow> 'd \<Rightarrow> HandlerConfig \<Rightarrow> ('d, HandlerConfig) parse" where
  "line_option D d c =
     (let v = d_Val D d
      in if v = ''forward'' then
           (case d_RemainingArgs D d of (d', args) \<Rightarrow> (d', Inr (c\<lparr>hc_Forward := hc_Forward c @ args\<rparr>)))
         else if v = ''store'' then
           (case d_RemainingArgs D d of (d', args) \<Rightarrow> (d', Inr (c\<lparr>hc_Store := hc_Store c @ args\<rparr>)))
         else if v = ''inactive_timeout'' then arg D (duration_arg (\<lambda>x. c\<lparr>hc_InactiveTimeout := x\<rparr>)) d
         else if v = ''final_timeout'' then arg D (duration_arg (\<lambda>x. c\<lparr>hc_FinalTimeout := x\<rparr>)) d
         else if v = ''identity_header'' then arg D (\<lambda>x. Inr (c\<lparr>hc_IdentityHeader := x\<rparr>)) d
         else if v = ''rotate_on_login'' then arg D (bool_arg v (\<lambda>b. c\<lparr>hc_RotateOnLogin := Some b\<rparr>)) d
         else if v = ''rotate_interval'' then arg D (duration_arg (\<lambda>x. c\<lparr>hc_RotateInterval := x\<rparr>)) d
         else if v = ''rotate_header'' then arg D (\<lambda>x. Inr (c\<lparr>hc_RotateHeader := x\<rparr>)) d
         else if v = ''revoke_header'' then arg D (\<lambda>x. Inr (c\<lparr>hc_RevokeHeader := x\<rparr>)) d
         else if v = ''labels_header'' then arg D (\<lambda>x. Inr (c\<lparr>hc_LabelsHeader := x\<rparr>)) d
         else if v = ''synchronize_sessions'' then arg D (bool_arg v (\<lambda>b. c\<lparr>hc_Synchronize := b\<rparr>)) d
         else if v = ''on_store_error'' then arg D (\<lambda>x. Inr (c\<lparr>hc_OnStoreError := x\<rparr>)) d
         else (d, Inl (UnknownOption v)))"

text \<open>A nested block runs on one field of the configuration. Since it updates the handler in place, the
  fields set before an error stay set; an error discards the whole handler in \<open>parseCaddyfile\<close>, so only
  the error is kept.\<close>

definition onto :: "('b \<Rightarrow> 'a) \<Rightarrow> ('d, 'b) parse option \<Rightarrow> ('d, 'a) parse option" where
  "onto upd = map_option (\<lambda>(d', r). (d', map_sum id upd r))"

definition block_option :: "'d Dispenser \<Rightarrow> 'd \<Rightarrow> HandlerConfig \<Rightarrow> ('d, HandlerConfig) parse option" where
  "block_option D d c =
     (let v = d_Val D d
      in if v = ''redis'' then
           onto (\<lambda>rd. c\<lparr>hc_Redis := rd\<rparr>) (for_loop (d_NextBlock D 1) (\<lambda>d a. Some (redis_option D d a)) d (hc_Redis c))
         else if v = ''cookie'' then
           onto (\<lambda>cc. c\<lparr>hc_Cookie := cc\<rparr>) (for_loop (d_NextBlock D 1) (\<lambda>d a. Some (cookie_option D d a)) d (hc_Cookie c))
         else if v = ''authz'' then
           onto (\<lambda>az. c\<lparr>hc_Authz := Some az\<rparr>)
             (for_loop (d_NextBlock D 1) (\<lambda>d a. Some (authz_option D d a)) d
                (case hc_Authz c of None \<Rightarrow> zero_authz | Some az \<Rightarrow> az))
         else Some (line_option D d c))"

definition UnmarshalCaddyfile :: "'d Dispenser \<Rightarrow> HandlerConfig \<Rightarrow> 'd \<Rightarrow> ('d, HandlerConfig) parse option" where
  "UnmarshalCaddyfile D c d =
     for_loop (d_Next D) (for_loop (d_NextBlock D 0) (block_option D)) d (with_defaults c)"

definition parseCaddyfile :: "'d Dispenser \<Rightarrow> 'd \<Rightarrow> (parse_error + HandlerConfig) option" where
  "parseCaddyfile D d = map_option snd (UnmarshalCaddyfile D zero_config d)"

section \<open>Termination\<close>

text \<open>\<open>left\<close> counts the tokens after the cursor: a step that succeeds consumes one, and no step gives any
  back.\<close>

definition advancing :: "'d Dispenser \<Rightarrow> ('d \<Rightarrow> nat) \<Rightarrow> bool" where
  "advancing D left \<longleftrightarrow> (\<forall>d n.
     (if snd (d_Next D d) then left (fst (d_Next D d)) < left d else left (fst (d_Next D d)) \<le> left d) \<and>
     (if snd (d_NextBlock D n d) then left (fst (d_NextBlock D n d)) < left d else left (fst (d_NextBlock D n d)) \<le> left d) \<and>
     left (fst (d_NextArg D d)) \<le> left d \<and> left (fst (d_RemainingArgs D d)) \<le> left d)"

definition steps_forward :: "('d \<Rightarrow> nat) \<Rightarrow> ('d \<Rightarrow> 'd \<times> bool) \<Rightarrow> bool" where
  "steps_forward left cond \<longleftrightarrow>
     (\<forall>d. if snd (cond d) then left (fst (cond d)) < left d else left (fst (cond d)) \<le> left d)"

text \<open>A parser step that ends, does not move back and keeps \<open>P\<close> when it succeeds.\<close>

definition ends_with :: "('d \<Rightarrow> nat) \<Rightarrow> ('a \<Rightarrow> bool) \<Rightarrow> ('d \<Rightarrow> 'a \<Rightarrow> ('d, 'a) parse option) \<Rightarrow> bool" where
  "ends_with left P body \<longleftrightarrow>
     (\<forall>d a. P a \<longrightarrow> (\<exists>d' r. body d a = Some (d', r) \<and> left d' \<le> left d \<and> (\<forall>a'. r = Inr a' \<longrightarrow> P a')))"

lemma ends_withE:
  assumes "ends_with left P body" "P a"
  obtains d' r where "body d a = Some (d', r)" "left d' \<le> left d" "\<And>a'. r = Inr a' \<Longrightarrow> P a'"
  using assms unfolding ends_with_def by blast

lemma ends_for_loop:
  assumes cond: "steps_forward left cond" and body: "ends_with left P body"
  shows "ends_with left P (for_loop cond body)"
proof -
  have "\<exists>d' r. for_loop cond body d a = Some (d', r) \<and> left d' \<le> left d \<and> (\<forall>a'. r = Inr a' \<longrightarrow> P a')" if "P a" for d a
    using that
  proof (induction "left d" arbitrary: d a rule: less_induct)
    case less
    define d1 where "d1 = fst (cond d)"
    show ?case
    proof (cases "snd (cond d)")
      case False
      with cond less.prems show ?thesis by (simp add: for_loop.simps [of cond body d a] steps_forward_def)
    next
      case True
      with cond have d1: "left d1 < left d" unfolding d1_def steps_forward_def by metis
      obtain d2 r where r: "body d1 a = Some (d2, r)" "left d2 \<le> left d1" "\<And>a'. r = Inr a' \<Longrightarrow> P a'"
        using ends_withE [OF body less.prems] by metis
      show ?thesis
      proof (cases r)
        case (Inl e)
        with True r d1 show ?thesis by (simp add: for_loop.simps [of cond body d a] d1_def [symmetric])
      next
        case (Inr a')
        have "left d2 < left d" using r(2) d1 by simp
        from less.hyps [OF this r(3) [OF Inr]] obtain d3 r' where
          "for_loop cond body d2 a' = Some (d3, r')" "left d3 \<le> left d2" "\<forall>a'. r' = Inr a' \<longrightarrow> P a'" by blast
        with True r d1 Inr show ?thesis by (simp add: for_loop.simps [of cond body d a] d1_def [symmetric])
      qed
    qed
  qed
  then show ?thesis unfolding ends_with_def by blast
qed

text \<open>The same for one step that always ends.\<close>

definition step_ok :: "('d \<Rightarrow> nat) \<Rightarrow> ('a \<Rightarrow> bool) \<Rightarrow> 'd \<Rightarrow> ('d, 'a) parse \<Rightarrow> bool" where
  "step_ok left P d res \<longleftrightarrow> left (fst res) \<le> left d \<and> (\<forall>a. snd res = Inr a \<longrightarrow> P a)"

lemma ends_step:
  assumes "\<And>d a. P a \<Longrightarrow> step_ok left P d (body d a)"
  shows "ends_with left P (\<lambda>d a. Some (body d a))"
  unfolding ends_with_def using assms by (metis step_ok_def surj_pair fst_conv snd_conv)

text \<open>Values that stay in the range of their Go types.\<close>

definition config_typed :: "HandlerConfig \<Rightarrow> bool" where
  "config_typed c \<longleftrightarrow> is_i64 (rd_DB (hc_Redis c)) \<and> is_i64 (hc_InactiveTimeout c) \<and> is_i64 (hc_FinalTimeout c) \<and>
     is_i64 (hc_RotateInterval c)"

lemma step_ok_arg:
  assumes "advancing D left" "\<forall>x a. f x = Inr a \<longrightarrow> P a"
  shows "step_ok left P d (arg D f d)"
proof -
  from assms(1) have "left (fst (d_NextArg D d)) \<le> left d" by (simp add: advancing_def)
  with assms(2) show ?thesis by (auto simp: arg_def step_ok_def split: prod.splits)
qed

lemma step_ok_remaining:
  assumes "advancing D left" "\<forall>xs a. f xs = Inr a \<longrightarrow> P a"
  shows "step_ok left P d (case d_RemainingArgs D d of (d', xs) \<Rightarrow> (d', f xs))"
proof -
  from assms(1) have "left (fst (d_RemainingArgs D d)) \<le> left d" by (simp add: advancing_def)
  with assms(2) show ?thesis by (auto simp: step_ok_def split: prod.splits)
qed

lemma step_ok_here: "(\<And>a. r = Inr a \<Longrightarrow> P a) \<Longrightarrow> step_ok left P d (d, r)"
  by (simp add: step_ok_def)

lemma step_ok_if: "(b \<Longrightarrow> step_ok left P d x) \<Longrightarrow> (\<not> b \<Longrightarrow> step_ok left P d y) \<Longrightarrow> step_ok left P d (if b then x else y)"
  by simp

lemma duration_arg_keeps: "\<forall>dur. is_i64 dur \<longrightarrow> P (f dur) \<Longrightarrow> \<forall>x a. duration_arg f x = Inr a \<longrightarrow> P a"
  by (auto simp: duration_arg_def ParseDuration_range split: option.splits)

lemma bool_arg_keeps: "\<forall>b. P (f b) \<Longrightarrow> \<forall>x a. bool_arg opt f x = Inr a \<longrightarrow> P a"
  by (auto simp: bool_arg_def split: option.splits)

lemmas step_rules = step_ok_if step_ok_arg step_ok_remaining step_ok_here

lemma redis_ends:
  assumes "advancing D left"
  shows "ends_with left (\<lambda>rd. is_i64 (rd_DB rd)) (\<lambda>d a. Some (redis_option D d a))"
  unfolding redis_option_def Let_def
  by (intro ends_step step_rules assms) (auto simp: Sscanf_d_range split: option.splits)

lemma cookie_ends:
  assumes "advancing D left"
  shows "ends_with left (\<lambda>_. True) (\<lambda>d a. Some (cookie_option D d a))"
  unfolding cookie_option_def Let_def by (intro ends_step step_rules assms) simp_all

lemma authz_ends:
  assumes "advancing D left"
  shows "ends_with left (\<lambda>_. True) (\<lambda>d a. Some (authz_option D d a))"
  unfolding authz_option_def Let_def by (intro ends_step step_rules assms) simp_all

lemma line_ends:
  assumes "advancing D left"
  shows "ends_with left config_typed (\<lambda>d a. Some (line_option D d a))"
  unfolding line_option_def Let_def
  by (intro ends_step step_rules duration_arg_keeps bool_arg_keeps assms) (auto simp: config_typed_def)

lemma onto_ends:
  assumes "ends_with left Q body" "Q b" "\<And>b'. Q b' \<Longrightarrow> P (upd b')"
  shows "\<exists>d' r. onto upd (body d b) = Some (d', r) \<and> left d' \<le> left d \<and> (\<forall>a'. r = Inr a' \<longrightarrow> P a')"
proof -
  obtain d' r where "body d b = Some (d', r)" "left d' \<le> left d" "\<And>b'. r = Inr b' \<Longrightarrow> Q b'"
    using ends_withE [OF assms(1,2)] by metis
  with assms(3) show ?thesis by (cases r) (auto simp: onto_def)
qed

lemma block_ends:
  assumes D: "advancing D left"
  shows "ends_with left config_typed (block_option D)"
  unfolding ends_with_def
proof (intro allI impI)
  fix d c assume c: "config_typed c"
  have fwd: "steps_forward left (d_NextBlock D 1)" using D by (simp add: advancing_def steps_forward_def)
  note loops = ends_for_loop [OF fwd redis_ends [OF D]] ends_for_loop [OF fwd cookie_ends [OF D]] ends_for_loop [OF fwd authz_ends [OF D]]
  have line: "\<exists>d' r. Some (line_option D d c) = Some (d', r) \<and> left d' \<le> left d \<and> (\<forall>a'. r = Inr a' \<longrightarrow> config_typed a')"
    using line_ends [OF D] c unfolding ends_with_def by blast
  show "\<exists>d' r. block_option D d c = Some (d', r) \<and> left d' \<le> left d \<and> (\<forall>a'. r = Inr a' \<longrightarrow> config_typed a')"
    using onto_ends [OF loops(1), where P = config_typed and upd = "\<lambda>rd. c\<lparr>hc_Redis := rd\<rparr>" and b = "hc_Redis c" and d = d]
      onto_ends [OF loops(2), where P = config_typed and upd = "\<lambda>cc. c\<lparr>hc_Cookie := cc\<rparr>" and b = "hc_Cookie c" and d = d]
      onto_ends [OF loops(3), where P = config_typed and upd = "\<lambda>az. c\<lparr>hc_Authz := Some az\<rparr>" and d = d]
      line c by (simp add: block_option_def Let_def config_typed_def)
qed

text \<open>
  C29. Parsing a Caddyfile block ends, for every token stream whose cursor only moves forward: with an
  error, or with a configuration whose database number and durations are in the range of their types,
  whatever the text said (durations with overflowing parts included).
\<close>

theorem parseCaddyfile_terminates:
  assumes "advancing D left"
  shows "\<exists>r. parseCaddyfile D d = Some r \<and> (\<forall>c. r = Inr c \<longrightarrow> config_typed c)"
proof -
  have "steps_forward left (d_Next D)" "steps_forward left (d_NextBlock D 0)"
    using assms by (simp_all add: advancing_def steps_forward_def)
  then have "ends_with left config_typed (for_loop (d_Next D) (for_loop (d_NextBlock D 0) (block_option D)))"
    using block_ends [OF assms] by (intro ends_for_loop)
  moreover have "config_typed (with_defaults zero_config)" by code_simp
  ultimately show ?thesis unfolding parseCaddyfile_def UnmarshalCaddyfile_def by (elim ends_withE) auto
qed

text \<open>A dispenser over an outline: the words of the current line from the cursor on, and the lines that
  follow with their nesting level.\<close>

type_synonym outline = "string list \<times> (nat \<times> string list) list"

definition outline_block :: "nat \<Rightarrow> outline \<Rightarrow> outline \<times> bool" where
  "outline_block n d =
     (case snd d of (l, ws) # rest \<Rightarrow> if l = n then ((ws, rest), True) else (d, False) | [] \<Rightarrow> (d, False))"

definition outline_dispenser :: "outline Dispenser" where
  "outline_dispenser = \<lparr>d_Next = outline_block 0, d_NextBlock = (\<lambda>n. outline_block (Suc n)),
     d_NextArg = (\<lambda>(ws, rest). if length ws < 2 then ((ws, rest), False) else ((tl ws, rest), True)),
     d_RemainingArgs = (\<lambda>(ws, rest). ((drop (length ws - 1) ws, rest), tl ws)),
     d_Val = (\<lambda>(ws, rest). case ws of [] \<Rightarrow> [] | w # _ \<Rightarrow> w)\<rparr>"

definition readme_outline :: outline where
  "readme_outline = ([],
     [(0, [''session_store'']),
      (1, [''redis'']), (2, [''address'', ''localhost:6379'']), (2, [''db'', ''0'']), (2, [''key_prefix'', ''gs:'']),
      (1, [''cookie'']), (2, [''name'', ''__gosestor'']), (2, [''path'', ''/'']), (2, [''same_site'', ''lax'']),
      (1, [''forward'', ''XSRF-TOKEN'']), (1, [''store'', ''JSESSIONID'', ''sessionid'', ''csrftoken'']),
      (1, [''inactive_timeout'', ''30m'']), (1, [''final_timeout'', ''8h'']), (1, [''identity_header'', ''X-Auth-User'']),
      (1, [''rotate_on_login'', ''true'']), (1, [''rotate_interval'', ''15m'']),
      (1, [''rotate_header'', ''X-Session-Rotate'']), (1, [''revoke_header'', ''X-Session-Revoke'']),
      (1, [''labels_header'', ''X-Session-Labels'']),
      (1, [''authz'']), (2, [''require'', ''/auth'', ''anonymous'']), (2, [''require'', ''/admin'', ''adm'']),
      (2, [''require_default'', ''default'']), (2, [''auth_endpoint'', ''default'', ''/auth/login'']),
      (2, [''auth_endpoint'', ''adm'', ''/auth/mfa'']),
      (1, [''synchronize_sessions'', ''false'']), (1, [''on_store_error'', ''fail_closed''])])"

definition readme_config :: HandlerConfig where
  "readme_config = \<lparr>hc_Redis = \<lparr>rd_Address = ''localhost:6379'', rd_Password = [], rd_DB = 0, rd_KeyPrefix = ''gs:''\<rparr>,
     hc_Cookie = \<lparr>cc_Name = ''__gosestor'', cc_Path = ''/'', cc_SameSite = ''lax'', cc_Insecure = False\<rparr>,
     hc_Forward = [''XSRF-TOKEN''], hc_Store = [''JSESSIONID'', ''sessionid'', ''csrftoken''],
     hc_InactiveTimeout = 1800 * Second, hc_FinalTimeout = 28800 * Second, hc_IdentityHeader = ''X-Auth-User'',
     hc_RotateOnLogin = Some True, hc_RotateInterval = 900 * Second, hc_RotateHeader = ''X-Session-Rotate'',
     hc_RevokeHeader = ''X-Session-Revoke'', hc_LabelsHeader = ''X-Session-Labels'',
     hc_Authz = Some \<lparr>az_Rules = [\<lparr>ar_Path = ''/auth'', ar_Label = ''anonymous''\<rparr>, \<lparr>ar_Path = ''/admin'', ar_Label = ''adm''\<rparr>],
       az_DefaultLabel = ''default'', az_AuthEndpoints = [(''default'', ''/auth/login''), (''adm'', ''/auth/mfa'')], az_RedirectParam = []\<rparr>,
     hc_Synchronize = False, hc_OnStoreError = ''fail_closed''\<rparr>"

lemma outline_advancing: "advancing outline_dispenser (length \<circ> snd)"
  by (auto simp: advancing_def outline_dispenser_def outline_block_def split: list.splits)

lemma readme_parses: "parseCaddyfile outline_dispenser readme_outline = Some (Inr readme_config)"
  by code_simp

theorem parseCaddyfile_terminates_witness:
  "parseCaddyfile outline_dispenser readme_outline = Some (Inr readme_config) \<and> config_typed readme_config"
  using parseCaddyfile_terminates [OF outline_advancing, of readme_outline] readme_parses by simp

end
