(* ===== verification/Admin_API.thy ===== *)
theory Admin_API
  imports Manager_Properties Go_Strings
begin

text \<open>
  The admin endpoint (\<open>admin.go\<close>): the registry of provisioned handlers and
  \<open>POST /gosestor/revoke/{owner_id}\<close>. A handler is known by its address; each registered manager works on
  its own store, so the state is one world per handler. The registry's mutex makes each access to it one
  step.
\<close>

section \<open>Registry\<close>

type_synonym handler_id = nat
type_synonym 'st registry = "(handler_id, 'st Manager) gomap"

definition registerRevoker :: "handler_id \<Rightarrow> 'st Manager \<Rightarrow> 'st registry \<Rightarrow> 'st registry" where
  "registerRevoker h M revokers = mput h M revokers"

definition unregisterRevoker :: "handler_id \<Rightarrow> 'st registry \<Rightarrow> 'st registry" where
  "unregisterRevoker h revokers = mdel h revokers"

definition allRevokers :: "'st registry \<Rightarrow> (handler_id \<times> 'st Manager) list" where
  "allRevokers revokers = revokers"

section \<open>The endpoint\<close>

datatype admin_result =
    MethodNotAllowed
  | BadOwner string
  | NoHandler
  | RevokeFailed int64 error
  | NoContent

text \<open>The loop over the managers goes on after an error and keeps the first one.\<close>

fun revoke_all :: "int64 \<Rightarrow> (handler_id \<times> 'st Manager) list \<Rightarrow> error option \<Rightarrow> (handler_id \<Rightarrow> 'st world)
    \<Rightarrow> (handler_id \<Rightarrow> 'st world) \<times> error option" where
  "revoke_all ownerID [] firstErr ws = (ws, firstErr)"
| "revoke_all ownerID ((h, M) # ms) firstErr ws =
     (case RevokeOwner M ownerID (ws h) of
        (w, Inl e) \<Rightarrow> revoke_all ownerID ms (if firstErr = None then Some e else firstErr) (ws(h := w))
      | (w, Inr _) \<Rightarrow> revoke_all ownerID ms firstErr (ws(h := w)))"

definition owner_arg_text :: "string \<Rightarrow> string" where
  "owner_arg_text path = Trim_char (CHR ''/'') (TrimPrefix path ''/gosestor/revoke/'')"

definition handleRevoke :: "string \<Rightarrow> string \<Rightarrow> 'st registry \<Rightarrow> (handler_id \<Rightarrow> 'st world)
    \<Rightarrow> (handler_id \<Rightarrow> 'st world) \<times> admin_result" where
  "handleRevoke method path revokers ws =
     (if method \<noteq> ''POST'' then (ws, MethodNotAllowed)
      else let idStr = owner_arg_text path
        in case ParseInt idStr of
             None \<Rightarrow> (ws, BadOwner idStr)
           | Some ownerID \<Rightarrow>
               if ownerID \<le> 0 then (ws, BadOwner idStr)
               else if allRevokers revokers = [] then (ws, NoHandler)
               else case revoke_all ownerID (allRevokers revokers) None ws of
                 (ws', Some e) \<Rightarrow> (ws', RevokeFailed ownerID e)
               | (ws', None) \<Rightarrow> (ws', NoContent))"

section \<open>Every store is tried\<close>

lemma revoke_all_worlds:
  assumes "distinct (map fst ms)"
  shows "fst (revoke_all i ms err ws) h = (case mget ms h of None \<Rightarrow> ws h | Some M \<Rightarrow> fst (RevokeOwner M i (ws h)))"
  using assms
proof (induction ms arbitrary: err ws)
  case (Cons p ms)
  obtain g M where p: "p = (g, M)" by fastforce
  obtain w r where r: "RevokeOwner M i (ws g) = (w, r)" by fastforce
  define us where "us = ws(g := w)"
  have us: "us g = w" "h \<noteq> g \<Longrightarrow> us h = ws h" by (simp_all add: us_def)
  from Cons.prems p have "mget ms g = None" by (simp add: map_of_eq_None_iff)
  with Cons.IH [where ws = us] Cons.prems p r us show ?case by (cases r) (auto simp: us_def [symmetric] split: option.splits)
qed simp

lemma revoke_all_error:
  assumes "distinct (map fst ms)"
  shows "snd (revoke_all i ms err ws) =
    (if err \<noteq> None then err
     else map_option projl (List.find isl (map (\<lambda>(h, M). snd (RevokeOwner M i (ws h))) ms)))"
  using assms
proof (induction ms arbitrary: err ws)
  case (Cons p ms)
  obtain g M where p: "p = (g, M)" by fastforce
  obtain w r where r: "RevokeOwner M i (ws g) = (w, r)" by fastforce
  define us where "us = ws(g := w)"
  have "us h = ws h" if "(h, N) \<in> set ms" for h N using Cons.prems p that by (force simp: us_def)
  then have same: "map (\<lambda>(h, M). snd (RevokeOwner M i (us h))) ms = map (\<lambda>(h, M). snd (RevokeOwner M i (ws h))) ms"
    by (intro map_cong) auto
  from Cons.IH [where ws = us, unfolded same] Cons.prems p r show ?case by (cases r) (auto simp: us_def [symmetric])
qed simp

text \<open>
  C24. The revoke endpoint on every branch. A wrong method, an owner that is not a positive \<open>int64\<close>, or an
  empty registry is refused with its own status and touches no store. Otherwise every registered
  store is asked to revoke the owner, also after an earlier one failed; the answer is 204 exactly when
  all succeeded, and the first error as 502 otherwise; stores of handlers that are not registered are
  left alone.
\<close>

theorem handleRevoke_spec:
  assumes "distinct (map fst revokers)" "handleRevoke method path revokers ws = (ws', res)"
  shows "if method \<noteq> ''POST'' then res = MethodNotAllowed \<and> ws' = ws
    else case ParseInt (owner_arg_text path) of
      None \<Rightarrow> res = BadOwner (owner_arg_text path) \<and> ws' = ws
    | Some i \<Rightarrow>
        if i \<le> 0 then res = BadOwner (owner_arg_text path) \<and> ws' = ws
        else if revokers = [] then res = NoHandler \<and> ws' = ws
        else (\<forall>h. ws' h = (case mget revokers h of None \<Rightarrow> ws h | Some M \<Rightarrow> fst (RevokeOwner M i (ws h)))) \<and>
          res = (case List.find isl (map (\<lambda>(h, M). snd (RevokeOwner M i (ws h))) revokers) of
                   None \<Rightarrow> NoContent | Some e \<Rightarrow> RevokeFailed i (projl e))"
proof -
  consider (refused) "method \<noteq> ''POST'' \<or> revokers = [] \<or> (\<forall>i. ParseInt (owner_arg_text path) = Some i \<longrightarrow> i \<le> 0)"
    | (asked) i where "method = ''POST''" "ParseInt (owner_arg_text path) = Some i" "0 < i" "revokers \<noteq> []"
    using not_le by blast
  then show ?thesis
  proof cases
    case refused
    with assms(2) show ?thesis by (auto simp: handleRevoke_def allRevokers_def Let_def split: option.splits if_splits)
  next
    case asked
    obtain us err where run: "revoke_all i revokers None ws = (us, err)" by fastforce
    have us: "us h = (case mget revokers h of None \<Rightarrow> ws h | Some M \<Rightarrow> fst (RevokeOwner M i (ws h)))" for h
      using revoke_all_worlds [OF assms(1), of i None ws h] run by simp
    have err: "err = map_option projl (List.find isl (map (\<lambda>(h, M). snd (RevokeOwner M i (ws h))) revokers))"
      using revoke_all_error [OF assms(1), of i None ws] run by simp
    have "ws' = us" "res = (case err of None \<Rightarrow> NoContent | Some e \<Rightarrow> RevokeFailed i e)"
      using assms(2) asked run by (auto simp: handleRevoke_def allRevokers_def Let_def split: option.splits)
    with us err asked show ?thesis by (simp add: option.case_eq_if option.map_sel)
  qed
qed

theorem handleRevoke_spec_witness:
  "handleRevoke ''POST'' ''/gosestor/revoke/0/'' (registerRevoker 1 demo_manager []) (\<lambda>_. demo_world [] NewMemory)
   = ((\<lambda>_. demo_world [] NewMemory), BadOwner ''0'')"
proof -
  obtain ws' res where run: "handleRevoke ''POST'' ''/gosestor/revoke/0/'' (registerRevoker 1 demo_manager []) (\<lambda>_. demo_world [] NewMemory) = (ws', res)"
    by fastforce
  have "owner_arg_text ''/gosestor/revoke/0/'' = ''0''" "ParseInt ''0'' = Some 0" by code_simp+
  with handleRevoke_spec [OF _ run] show ?thesis unfolding run by (simp add: registerRevoker_def)
qed



end
