(* ===== verification/Handler_Config.thy ===== *)
theory Handler_Config
  imports Caddyfile Handler_Properties Admin_API
begin

text \<open>
  From configuration to running handler (\<open>session_store.go\<close>: \<open>Provision\<close>, \<open>Validate\<close>,
  \<open>Cleanup\<close> and their helpers). The Redis client is a parameter: \<open>dial\<close> gives the store behind a
  connection. \<open>strings.EqualFold\<close> between two configured names takes the Unicode orbit table as the
  parameter \<open>orbit\<close>, which sends a rune to a representative of its orbit under \<open>unicode.SimpleFold\<close>.
\<close>

section \<open>Effective headers\<close>

definition defaultRotateHeader :: string where
  "defaultRotateHeader = ''X-Session-Rotate''"

definition defaultRevokeHeader :: string where
  "defaultRevokeHeader = ''X-Session-Revoke''"

definition defaultLabelsHeader :: string where
  "defaultLabelsHeader = ''X-Session-Labels''"

definition resolveRotateHeader :: "HandlerConfig \<Rightarrow> string \<times> bool" where
  "resolveRotateHeader c =
     (if EqualFold_lit (hc_RotateHeader c) ''off'' then (defaultRotateHeader, False)
      else if hc_RotateHeader c = [] then (defaultRotateHeader, True)
      else (hc_RotateHeader c, True))"

definition resolveRevokeHeader :: "HandlerConfig \<Rightarrow> string \<times> bool" where
  "resolveRevokeHeader c =
     (if EqualFold_lit (hc_RevokeHeader c) ''off'' then (defaultRevokeHeader, False)
      else if hc_RevokeHeader c = [] then (defaultRevokeHeader, True)
      else (hc_RevokeHeader c, True))"

section \<open>Provision and Cleanup\<close>

datatype config_error =
    RedisAddressRequired
  | OnStoreErrorInvalid
  | SameSiteNoneInsecure
  | NegativeDuration
  | HeaderCollision string string string
  | AuthzInvalid authz_error

definition buildAuthz :: "AuthzConfig \<Rightarrow> authz_error + Authz" where
  "buildAuthz az = New_authz \<lparr>
     cfg_Rules = map (\<lambda>r. \<lparr>r_Path = ar_Path r, r_Label = ar_Label r\<rparr>) (az_Rules az),
     cfg_DefaultLabel = az_DefaultLabel az, cfg_AuthEndpoints = az_AuthEndpoints az,
     cfg_RedirectParam = az_RedirectParam az\<rparr>"

definition fill_defaults :: "HandlerConfig \<Rightarrow> HandlerConfig" where
  "fill_defaults c = c\<lparr>
     hc_InactiveTimeout := (if hc_InactiveTimeout c = 0 then 1800 * Second else hc_InactiveTimeout c),
     hc_FinalTimeout := (if hc_FinalTimeout c = 0 then 28800 * Second else hc_FinalTimeout c),
     hc_Cookie := (if cc_Path (hc_Cookie c) = [] then (hc_Cookie c)\<lparr>cc_Path := ''/''\<rparr> else hc_Cookie c)\<rparr>"

definition manager_config :: "HandlerConfig \<Rightarrow> Config" where
  "manager_config c = \<lparr>Inactive = hc_InactiveTimeout c, Final = hc_FinalTimeout c, Synchronize = hc_Synchronize c,
     RotateOnLogin = (hc_RotateOnLogin c = None \<or> hc_RotateOnLogin c = Some True), RotateInterval = hc_RotateInterval c\<rparr>"

definition running :: "(RedisConfig \<Rightarrow> 'st StoreI) \<Rightarrow> (string \<Rightarrow> int64 option) \<Rightarrow> HandlerConfig \<Rightarrow> 'st Handler" where
  "running dial parseTime c = \<lparr>
     h_CookieName = cc_Name (hc_Cookie c), h_CookiePath = cc_Path (hc_Cookie c), h_SameSite = cc_SameSite (hc_Cookie c),
     h_Insecure = cc_Insecure (hc_Cookie c), h_IdentityHeader = hc_IdentityHeader c, h_OnStoreError = hc_OnStoreError c,
     h_filter = New_filter (hc_Forward c) (hc_Store c),
     h_manager = \<lparr>m_store = dial (hc_Redis c), m_cfg = manager_config c\<rparr>,
     h_rotateHeaderName = fst (resolveRotateHeader c), h_rotateEnabled = snd (resolveRotateHeader c),
     h_revokeHeaderName = fst (resolveRevokeHeader c), h_revokeEnabled = snd (resolveRevokeHeader c),
     h_labelsHeaderName = (if hc_LabelsHeader c = [] then defaultLabelsHeader else hc_LabelsHeader c),
     h_authz = None, h_parseTime = parseTime\<rparr>"

text \<open>\<open>Provision\<close> fills in the configuration in place, and registers the manager with the admin endpoint
  as its last act.\<close>

definition Provision :: "(RedisConfig \<Rightarrow> 'st StoreI) \<Rightarrow> (string \<Rightarrow> int64 option) \<Rightarrow> handler_id \<Rightarrow> HandlerConfig
    \<Rightarrow> 'st registry \<Rightarrow> HandlerConfig \<times> 'st registry \<times> (config_error + 'st Handler)" where
  "Provision dial parseTime hid c0 reg =
     (let c = fill_defaults c0; h = running dial parseTime c;
          done_with = (\<lambda>h. (c, registerRevoker hid (h_manager h) reg, Inr h))
      in case hc_Authz c of
           None \<Rightarrow> done_with h
         | Some az \<Rightarrow>
             (case buildAuthz az of
                Inl e \<Rightarrow> (c, reg, Inl (AuthzInvalid e))
              | Inr a \<Rightarrow> done_with (h\<lparr>h_authz := Some a\<rparr>)))"

text \<open>\<open>Cleanup\<close>: the handler leaves the registry before the client is closed; \<open>closing\<close> is what closing the
  client returns, when there is one.\<close>

definition Cleanup :: "'e option option \<Rightarrow> handler_id \<Rightarrow> 'st registry \<Rightarrow> 'st registry \<times> 'e option" where
  "Cleanup closing hid reg =
     (unregisterRevoker hid reg, case closing of None \<Rightarrow> None | Some err \<Rightarrow> err)"

section \<open>Validate\<close>

definition EqualFold :: "(int \<Rightarrow> int) \<Rightarrow> string \<Rightarrow> string \<Rightarrow> bool" where
  "EqualFold orbit s t \<longleftrightarrow> map orbit (runes s) = map orbit (runes t)"

definition managed_headers :: "HandlerConfig \<Rightarrow> (string \<times> string) list" where
  "managed_headers c =
     (let effRotate = (if hc_RotateHeader c = [] \<or> EqualFold_lit (hc_RotateHeader c) ''off''
            then defaultRotateHeader else hc_RotateHeader c);
          effRevoke = (if hc_RevokeHeader c = [] \<or> EqualFold_lit (hc_RevokeHeader c) ''off''
            then defaultRevokeHeader else hc_RevokeHeader c);
          effLabels = (if hc_LabelsHeader c = [] then defaultLabelsHeader else hc_LabelsHeader c)
      in [(''identity_header'', hc_IdentityHeader c), (''rotate_header'', effRotate),
          (''revoke_header'', effRevoke), (''labels_header'', effLabels)])"

fun collision :: "(int \<Rightarrow> int) \<Rightarrow> (string \<times> string) list \<Rightarrow> config_error option" where
  "collision orbit [] = None"
| "collision orbit ((kind, name) # hs) =
     (case List.find (\<lambda>(_, n). EqualFold orbit name n) hs of
        Some (other, _) \<Rightarrow> Some (HeaderCollision kind name other)
      | None \<Rightarrow> collision orbit hs)"

definition Validate :: "(int \<Rightarrow> int) \<Rightarrow> HandlerConfig \<Rightarrow> config_error option" where
  "Validate orbit c =
     (if rd_Address (hc_Redis c) = [] then Some RedisAddressRequired
      else if hc_OnStoreError c \<noteq> ''fail_closed'' \<and> hc_OnStoreError c \<noteq> ''fail_open'' then Some OnStoreErrorInvalid
      else if EqualFold_lit (cc_SameSite (hc_Cookie c)) ''none'' \<and> cc_Insecure (hc_Cookie c) then Some SameSiteNoneInsecure
      else if hc_InactiveTimeout c < 0 \<or> hc_FinalTimeout c < 0 \<or> hc_RotateInterval c < 0 then Some NegativeDuration
      else case collision orbit (managed_headers c) of
        Some e \<Rightarrow> Some e
      | None \<Rightarrow>
          (case hc_Authz c of None \<Rightarrow> None
           | Some az \<Rightarrow> (case buildAuthz az of Inl e \<Rightarrow> Some (AuthzInvalid e) | Inr _ \<Rightarrow> None)))"

section \<open>Canonical names and orbit\<close>

text \<open>Folding identifies the cases of an ASCII letter.\<close>

definition folds_ascii :: "(int \<Rightarrow> int) \<Rightarrow> bool" where
  "folds_ascii orbit \<longleftrightarrow> (\<forall>r. 65 \<le> r \<longrightarrow> r \<le> 90 \<longrightarrow> orbit (r + 32) = orbit r)"

lemma chunks_ascii: "\<forall>c \<in> set s. ord c < 128 \<Longrightarrow> chunks s = map (\<lambda>c. [c]) s"
proof (induction s)
  case (Cons c s)
  then have "rune_len (c # s) = 1" by (simp add: rune_len_def seq_info_def)
  with Cons show ?case by (simp add: chunks_Cons)
qed simp

lemma rune_value_ascii: "ord c < 128 \<Longrightarrow> rune_value [c] = ord c"
  using ord_bounds [of c] by (simp add: rune_value_def seq_info_def)

lemma runes_ascii: "\<forall>c \<in> set s. ord c < 128 \<Longrightarrow> runes s = map ord s"
  by (simp add: runes_def chunks_ascii rune_value_ascii)

lemma token_ascii: "token_byte c \<Longrightarrow> ord c < 128"
  by (auto simp: token_byte_def Let_def)

lemma canon_lower: "map lower_byte (canon_words up s) = map lower_byte s"
proof (induction up s rule: canon_words.induct)
  case (2 up c s)
  moreover have "lower_byte (upper_byte c) = lower_byte c" by (simp add: ord_inj [symmetric] ord_case_bytes)
  ultimately show ?case by (simp add: Let_def case_bytes_idem)
qed simp

lemma fold_lower_byte: "folds_ascii orbit \<Longrightarrow> orbit (ord (lower_byte c)) = orbit (ord c)"
  by (simp add: ord_case_bytes folds_ascii_def)

lemma canonical_EqualFold:
  assumes "folds_ascii orbit" "CanonicalHeaderKey s = CanonicalHeaderKey t"
  shows "EqualFold orbit s t"
proof -
  have tok: "list_all token_byte (CanonicalHeaderKey s) = list_all token_byte s" for s
    by (simp add: CanonicalHeaderKey_def canon_words_token)
  show ?thesis
  proof (cases "list_all token_byte s")
    case True
    with tok assms(2) have t: "list_all token_byte t" by metis
    have f: "map orbit (runes s) = map (\<lambda>c. orbit (ord c)) (map lower_byte s)" if "list_all token_byte s" for s
      using that by (simp add: runes_ascii token_ascii list_all_iff fold_lower_byte [OF assms(1)])
    have "map lower_byte s = map lower_byte t"
      using assms(2) True t by (metis CanonicalHeaderKey_def canon_lower)
    with f True t show ?thesis by (simp add: EqualFold_def del: map_map)
  next
    case False
    with tok assms(2) have "\<not> list_all token_byte t" by metis
    with False assms(2) show ?thesis by (simp add: EqualFold_def CanonicalHeaderKey_def)
  qed
qed

lemma collision_distinct:
  assumes "folds_ascii orbit" "collision orbit hs = None"
  shows "distinct (map (CanonicalHeaderKey \<circ> snd) hs)"
  using assms(2)
proof (induction hs)
  case (Cons p hs)
  obtain k n where p: "p = (k, n)" by fastforce
  from Cons.prems p have none: "List.find (\<lambda>(_, m). EqualFold orbit n m) hs = None" "collision orbit hs = None"
    by (auto split: option.splits)
  then have "\<not> EqualFold orbit n m" if "(k', m) \<in> set hs" for k' m using that by (auto simp: find_None_iff)
  with canonical_EqualFold [OF assms(1)] have "CanonicalHeaderKey n \<notin> set (map (CanonicalHeaderKey \<circ> snd) hs)" by force
  with Cons.IH none p show ?case by simp
qed simp

section \<open>Validated handlers\<close>

lemma names_of_running: "map snd (managed_headers c) = request_names (running dial parseTime c)"
  by (simp add: managed_headers_def Let_def request_names_def running_def resolveRotateHeader_def resolveRevokeHeader_def)

lemma running_no_authz: "(running dial parseTime c)\<lparr>h_authz := None\<rparr> = running dial parseTime c"
  by (simp add: running_def)

lemma ProvisionE:
  assumes "Provision dial parseTime hid c0 reg = (c, reg', Inr h)"
  obtains a where "c = fill_defaults c0" "h = (running dial parseTime c)\<lparr>h_authz := a\<rparr>"
    "reg' = registerRevoker hid (h_manager h) reg"
    "case hc_Authz c of None \<Rightarrow> a = None | Some az \<Rightarrow> (\<exists>p. a = Some p \<and> buildAuthz az = Inr p)"
proof (cases "hc_Authz (fill_defaults c0)")
  case None
  with assms show ?thesis by (intro that [of None]) (auto simp: Provision_def Let_def running_no_authz)
next
  case (Some az)
  with assms obtain p where "buildAuthz az = Inr p" by (auto simp: Provision_def Let_def split: sum.splits)
  with assms Some show ?thesis by (intro that [of "Some p"]) (auto simp: Provision_def Let_def)
qed

lemma lower_none_folds:
  assumes "ToLower_is s ''none''"
  shows "EqualFold_lit s ''none''"
proof -
  have codes: "map ord ''none'' = [110, 111, 110, 101]" by code_simp
  have folds: "fold_rune r = x" if "lower_rune r = x" "x \<in> {110, 111, 101}" for r x
    using that by (auto simp: lower_rune_def fold_rune_def split: if_splits)
  from assms codes obtain a b c d where r: "runes s = [a, b, c, d]" and
    l: "lower_rune a = 110" "lower_rune b = 111" "lower_rune c = 110" "lower_rune d = 101"
    by (auto simp: ToLower_is_def map_eq_Cons_conv)
  have "map (\<lambda>c. fold_rune (ord c)) ''none'' = [110, 111, 110, 101]" by code_simp
  with r folds [OF l(1)] folds [OF l(2)] folds [OF l(3)] folds [OF l(4)]
  show ?thesis by (simp add: EqualFold_lit_def)
qed

text \<open>The configuration of the README over the in-memory store.\<close>

definition ascii_orbit :: "int \<Rightarrow> int" where
  "ascii_orbit r = (if 65 \<le> r \<and> r \<le> 90 then r + 32 else r)"

definition readme_handler :: "Memory Handler" where
  "readme_handler = (running (\<lambda>_. MemoryStore) (\<lambda>_. None) readme_config)\<lparr>h_authz := Some readme_policy\<rparr>"

lemma readme_provisions:
  "Provision (\<lambda>_. MemoryStore) (\<lambda>_. None) 1 readme_config [] =
   (readme_config, [(1, h_manager readme_handler)], Inr readme_handler)"
proof -
  obtain az where az: "hc_Authz readme_config = Some az" by (simp add: readme_config_def)
  moreover have "buildAuthz (the (hc_Authz readme_config)) = Inr readme_policy" by code_simp
  moreover have "fill_defaults readme_config = readme_config" by code_simp
  ultimately show ?thesis
    by (simp add: Provision_def Let_def readme_handler_def registerRevoker_def)
qed

lemma readme_validates: "Validate ascii_orbit readme_config = None" "folds_ascii ascii_orbit"
  by (code_simp, simp add: folds_ascii_def ascii_orbit_def)

text \<open>
  C28. A configuration that provisions and validates gives a handler that is safe to run. Its four control
  headers have different canonical names, so no feature consumes another's signal; both timeouts are
  positive and the rotation interval is not negative; the failure mode is one of the two known ones; a
  cookie with \<open>SameSite=None\<close> is secure and the cookie has a path; a configured policy is compiled
  and enforced; and the admin endpoint reaches the handler's manager.
\<close>

theorem validated_handler:
  assumes "Provision dial parseTime hid c0 reg = (c, reg', Inr h)" "Validate orbit c = None" "folds_ascii orbit"
  shows "distinct (map CanonicalHeaderKey (request_names h)) \<and>
    0 < Inactive (m_cfg (h_manager h)) \<and> 0 < Final (m_cfg (h_manager h)) \<and> 0 \<le> RotateInterval (m_cfg (h_manager h)) \<and>
    h_OnStoreError h \<in> {''fail_closed'', ''fail_open''} \<and>
    (cookie_site h = SameSiteNoneMode \<longrightarrow> \<not> h_Insecure h) \<and> h_CookiePath h \<noteq> [] \<and>
    (case hc_Authz c0 of None \<Rightarrow> h_authz h = None | Some az \<Rightarrow> \<exists>a. h_authz h = Some a \<and> buildAuthz az = Inr a) \<and>
    mget reg' hid = Some (h_manager h)"
proof -
  from assms(1) obtain a where p: "c = fill_defaults c0" "h = (running dial parseTime c)\<lparr>h_authz := a\<rparr>"
    "reg' = registerRevoker hid (h_manager h) reg"
    "case hc_Authz c of None \<Rightarrow> a = None | Some az \<Rightarrow> (\<exists>p. a = Some p \<and> buildAuthz az = Inr p)"
    by (rule ProvisionE)
  from assms(2) have v: "collision orbit (managed_headers c) = None" "0 \<le> hc_InactiveTimeout c" "0 \<le> hc_FinalTimeout c"
    "0 \<le> hc_RotateInterval c" "hc_OnStoreError c \<in> {''fail_closed'', ''fail_open''}"
    "\<not> (EqualFold_lit (cc_SameSite (hc_Cookie c)) ''none'' \<and> cc_Insecure (hc_Cookie c))"
    unfolding Validate_def by (auto split: if_splits option.splits)
  have "request_names h = map snd (managed_headers c)"
    by (simp add: p(2) names_of_running [of _ dial parseTime] request_names_def)
  then have names: "distinct (map CanonicalHeaderKey (request_names h))"
    using collision_distinct [OF assms(3) v(1)] by simp
  have site: "cookie_site h = SameSiteNoneMode \<longrightarrow> \<not> h_Insecure h"
    using v(6) lower_none_folds [of "cc_SameSite (hc_Cookie c)"] by (auto simp: cookie_site_def p(2) running_def)
  have nz: "hc_InactiveTimeout c \<noteq> 0" "hc_FinalTimeout c \<noteq> 0" "cc_Path (hc_Cookie c) \<noteq> []"
    by (simp_all add: p(1) fill_defaults_def Second_def)
  have "hc_Authz c = hc_Authz c0" by (simp add: p(1) fill_defaults_def)
  with p(4) have az: "case hc_Authz c0 of None \<Rightarrow> h_authz h = None | Some az \<Rightarrow> \<exists>a. h_authz h = Some a \<and> buildAuthz az = Inr a"
    by (simp add: p(2) split: option.splits)
  show ?thesis
    using names site az v(2-5) nz
    by (simp add: p(2,3) running_def manager_config_def registerRevoker_def gomap_simps)
qed

theorem validated_handler_witness:
  "distinct (map CanonicalHeaderKey (request_names readme_handler)) \<and> 0 < Inactive (m_cfg (h_manager readme_handler)) \<and>
   (\<exists>a. h_authz readme_handler = Some a \<and> buildAuthz (the (hc_Authz readme_config)) = Inr a)"
  using validated_handler [OF readme_provisions readme_validates] by (simp add: readme_config_def)



section \<open>Unloading\<close>

text \<open>
  C31. Unloading a configuration: after \<open>Cleanup\<close> the admin endpoint no longer reaches the handler, so a
  revocation never runs against a closing client, while every other registered handler is still served;
  a failure to close the client is reported and does not keep the handler registered.
\<close>

theorem cleanup_unreachable:
  assumes "distinct (map fst reg)" "Cleanup closing hid reg = (reg', err)"
  shows "distinct (map fst reg') \<and> mget reg' = (mget reg)(hid := None) \<and> (\<forall>e. closing = Some e \<longrightarrow> err = e) \<and>
    fst (handleRevoke method path reg' ws) hid = ws hid"
proof -
  have reg': "reg' = mdel hid reg" "\<forall>e. closing = Some e \<longrightarrow> err = e" using assms(2) by (auto simp: Cleanup_def unregisterRevoker_def)
  then have d: "distinct (map fst reg')" using assms(1) by (simp add: distinct_delete)
  have m: "mget reg' = (mget reg)(hid := None)" by (simp add: reg' delete_conv')
  have "fst (handleRevoke method path reg' ws) hid = ws hid"
  proof -
    have "fst (revoke_all i reg' None ws) hid = ws hid" for i
      using revoke_all_worlds [OF d, of i None ws hid] m by simp
    then show ?thesis
      by (auto simp: handleRevoke_def allRevokers_def Let_def split: option.splits prod.splits) (metis fst_conv)+
  qed
  with d m reg'(2) show ?thesis by blast
qed

theorem cleanup_unreachable_witness:
  "fst (Cleanup (Some (Some ''closed'')) 1 (registerRevoker 1 demo_manager [])) = [] \<and>
   snd (Cleanup (Some (Some ''closed'')) 1 (registerRevoker 1 demo_manager [])) = Some ''closed''"
proof -
  obtain reg' err where c: "Cleanup (Some (Some ''closed'')) 1 (registerRevoker 1 demo_manager []) = (reg', err)" by fastforce
  from cleanup_unreachable [OF _ c] have "mget reg' = Map.empty" "err = Some ''closed''" by (auto simp: registerRevoker_def)
  then show ?thesis unfolding c by simp
qed

section \<open>A configuration that cannot keep a session\<close>

definition json_config :: HandlerConfig where
  "json_config = zero_config\<lparr>hc_Redis := (hc_Redis zero_config)\<lparr>rd_Address := ''localhost:6379''\<rparr>,
     hc_OnStoreError := ''fail_closed'', hc_IdentityHeader := ''X-Auth-User''\<rparr>"

definition json_handler :: "(RedisConfig \<Rightarrow> 'st StoreI) \<Rightarrow> (string \<Rightarrow> int64 option) \<Rightarrow> 'st Handler" where
  "json_handler dial parseTime = running dial parseTime (fill_defaults json_config)"

text \<open>
  C39. The Caddyfile parser names the proxy cookie, but a JSON configuration that leaves the name out is
  provisioned and validated without one. The handler then never recognises a client: no request has a
  session, and the cookie it issues for a new key is the empty string, so every key is lost.
\<close>

theorem nameless_cookie_accepted:
  "Validate ascii_orbit (fill_defaults json_config) = None \<and>
   Provision dial parseTime hid json_config reg =
     (fill_defaults json_config, registerRevoker hid (h_manager (json_handler dial parseTime)) reg, Inr (json_handler dial parseTime)) \<and>
   lookup_session (json_handler dial parseTime) r w = (w, False, Inr None) \<and>
   buildProxyCookie (json_handler dial parseTime) key = []"
proof -
  have "Validate ascii_orbit (fill_defaults json_config) = None" by code_simp
  moreover have "hc_Authz (fill_defaults json_config) = None" "cc_Name (hc_Cookie (fill_defaults json_config)) = []" by code_simp+
  ultimately show ?thesis
    by (simp add: json_handler_def Provision_def Let_def lookup_session_def requestCookie_def buildProxyCookie_def
        cookieString_def isToken_def running_def)
qed

end
