(* ===== verification/Redis_Server.thy ===== *)
theory Redis_Server
  imports Go_Numbers Session_Store
begin

text \<open>
  The Redis server the store talks to. The server is not part of the repository: it is a parameter, a
  record of the commands, of the Lua conversion \<open>tonumber\<close> and of the state of the connection. What the
  store relies on is the documented effect of each command on the keyspace, stated as the laws of a
  locale; a reference server with expiry satisfies them.
\<close>

section \<open>Decimal text\<close>

fun dec :: "int \<Rightarrow> string" where
  "dec n = (if n < 10 then [char_of (n + 48)] else dec (n div 10) @ [char_of (n mod 10 + 48)])"

declare dec.simps [simp del]

text \<open>\<open>strconv.FormatInt(n, 10)\<close>.\<close>

definition FormatInt :: "int64 \<Rightarrow> string" where
  "FormatInt n = (if n < 0 then CHR ''-'' # dec (- n) else dec n)"

lemma digits_value_append:
  "digits_value (s @ t) v = (case digits_value s v of None \<Rightarrow> None | Some w \<Rightarrow> digits_value t w)"
  by (induction s arbitrary: v) auto

lemma ord_digit: "0 \<le> n \<Longrightarrow> n < 10 \<Longrightarrow> ord (char_of (n + 48)) = n + 48"
  by (simp add: ord_char_of)

lemma digits_value_dec: "0 \<le> n \<Longrightarrow> digits_value (dec n) 0 = Some n"
proof (induction n rule: dec.induct)
  case (1 n)
  show ?case
  proof (cases "n < 10")
    case True
    with 1 show ?thesis by (simp add: dec.simps [of n] ord_digit)
  next
    case False
    have m: "0 \<le> n mod 10" "n mod 10 < 10" "n div 10 * 10 + n mod 10 = n" by simp_all
    from False 1 have "digits_value (dec (n div 10)) 0 = Some (n div 10)" by simp
    with False m show ?thesis by (simp add: dec.simps [of n] digits_value_append ord_digit)
  qed
qed

lemma dec_digits: "0 \<le> n \<Longrightarrow> c \<in> set (dec n) \<Longrightarrow> 48 \<le> ord c \<and> ord c \<le> 57"
proof (induction n rule: dec.induct)
  case (1 n)
  show ?case
  proof (cases "n < 10")
    case True
    with 1 show ?thesis by (simp add: dec.simps [of n] ord_digit)
  next
    case False
    have "0 \<le> n mod 10" "n mod 10 < 10" by simp_all
    with False 1 show ?thesis by (auto simp: dec.simps [of n] ord_digit)
  qed
qed

lemma dec_not_sign: "0 \<le> n \<Longrightarrow> dec n \<noteq> CHR ''-'' # s"
proof
  assume "0 \<le> n" "dec n = CHR ''-'' # s"
  then have "CHR ''-'' \<in> set (dec n)" by simp
  with dec_digits [OF \<open>0 \<le> n\<close>, of "CHR ''-''"] show False by (simp add: ord_def)
qed

lemma FormatInt_inj [simp]: "FormatInt m = FormatInt n \<longleftrightarrow> m = n"
proof
  assume eq: "FormatInt m = FormatInt n"
  have dec_inj: "a = b" if "dec a = dec b" "0 \<le> a" "0 \<le> b" for a b
    by (metis digits_value_dec option.inject that)
  have sign: "m < 0 \<longleftrightarrow> n < 0"
    by (metis FormatInt_def dec_not_sign eq linorder_not_less)
  show "m = n"
  proof (cases "m < 0")
    case True
    then have "dec (- m) = dec (- n)" using sign eq unfolding FormatInt_def by simp
    with dec_inj [of "- m" "- n"] True sign show ?thesis by simp
  next
    case False
    then have "dec m = dec n" using sign eq unfolding FormatInt_def by simp
    with dec_inj [of m n] False sign show ?thesis by simp
  qed
qed simp

lemma FormatInt_zero [simp]: "FormatInt n = ''0'' \<longleftrightarrow> n = 0"
proof -
  have "FormatInt 0 = ''0''" by code_simp
  with FormatInt_inj [of n 0] show ?thesis by simp
qed

text \<open>The number \<open>strconv.ParseInt\<close> returns beside its error: zero for a malformed text, the nearest
  bound for one that is out of range.\<close>

fun scan_uint :: "string \<Rightarrow> int \<Rightarrow> int option" where
  "scan_uint [] n = Some n"
| "scan_uint (c # s) n =
     (if \<not> digit c then None
      else if (2 ^ 64 - 1) div 10 + 1 \<le> n \<or> 2 ^ 64 - 1 < n * 10 + digit_value c then Some (2 ^ 64 - 1)
      else scan_uint s (n * 10 + digit_value c))"

definition atoi :: "string \<Rightarrow> int64" where
  "atoi s =
     (let neg = HasPrefix s ''-'';
          ds = (if HasPrefix s ''+'' \<or> neg then tl s else s)
      in if ds = [] then 0
         else case scan_uint ds 0 of None \<Rightarrow> 0
         | Some un \<Rightarrow>
             if \<not> neg \<and> 2 ^ 63 \<le> un then 2 ^ 63 - 1
             else if neg \<and> 2 ^ 63 < un then - (2 ^ 63)
             else if neg then - un else un)"

lemma digits_value_grows: "digits_value s v = Some w \<Longrightarrow> 0 \<le> v \<Longrightarrow> v \<le> w"
proof (induction s arbitrary: v)
  case (Cons c s)
  then have d: "48 \<le> ord c" "digits_value s (v * 10 + (ord c - 48)) = Some w" by (auto split: if_splits)
  then have "0 \<le> v * 10 + (ord c - 48)" "v \<le> v * 10 + (ord c - 48)" using Cons.prems(2) by simp_all
  with Cons.IH [OF d(2)] show ?case by simp
qed simp

lemma scan_uint_digits: "digits_value s v = Some w \<Longrightarrow> 0 \<le> v \<Longrightarrow> w \<le> 2 ^ 63 \<Longrightarrow> scan_uint s v = Some w"
proof (induction s arbitrary: v)
  case (Cons c s)
  let ?v = "v * 10 + (ord c - 48)"
  from Cons.prems have d: "digit c" "digits_value s ?v = Some w" "0 \<le> ?v" by (auto simp: digit_def split: if_splits)
  then have "?v \<le> w" using digits_value_grows by blast
  with d Cons.prems have "?v \<le> 2 ^ 63" "v * 10 \<le> 2 ^ 63" by (auto simp: digit_def)
  with Cons.IH [OF d(2,3) Cons.prems(3)] d show ?case by (simp add: digit_value_def)
qed simp

lemma dec_nonempty: "dec n \<noteq> []"
  by (simp add: dec.simps [of n])

lemma dec_no_prefix: "0 \<le> n \<Longrightarrow> \<not> HasPrefix (dec n) ''-'' \<and> \<not> HasPrefix (dec n) ''+''"
proof -
  assume n: "0 \<le> n"
  have "\<not> HasPrefix (dec n) [c]" if "\<not> 48 \<le> ord c" for c
    using that dec_digits [OF n, of c] by (auto simp: HasPrefix_iff)
  from this [of "CHR ''-''"] this [of "CHR ''+''"] show ?thesis by (simp add: ord_def)
qed

lemma atoi_FormatInt: "is_i64 n \<Longrightarrow> atoi (FormatInt n) = n"
proof -
  assume n: "is_i64 n"
  have scan: "scan_uint (dec m) 0 = Some m" if "0 \<le> m" "m \<le> 2 ^ 63" for m
    using scan_uint_digits [OF digits_value_dec [OF that(1)] _ that(2)] by simp
  show ?thesis
  proof (cases "n < 0")
    case True
    with n scan [of "- n"] show ?thesis
      by (simp add: FormatInt_def atoi_def is_i64_def HasPrefix_def dec_nonempty)
  next
    case False
    with n scan [of n] dec_no_prefix [of n] show ?thesis
      by (simp add: FormatInt_def atoi_def is_i64_def dec_nonempty)
  qed
qed

text \<open>\<open>Duration.Milliseconds\<close>, and the nearest double of an integer.\<close>

definition Milliseconds :: "duration \<Rightarrow> int64" where
  "Milliseconds d = (if d < 0 then - ((- d) div 1000000) else d div 1000000)"

definition dbl :: "int \<Rightarrow> int" where
  "dbl x = (if \<bar>x\<bar> \<le> 2 ^ 53 then x else let y = rnd53 (\<bar>x\<bar>, 1) in sgn x * (fst y div snd y))"

section \<open>Keyspace\<close>

datatype rvalue =
    RString string
  | RHash "string \<rightharpoonup> string"
  | RSet "string set"

type_synonym keyspace = "string \<rightharpoonup> rvalue" \<comment> \<open>the keys that exist, expired ones excluded\<close>

fun type_name :: "rvalue option \<Rightarrow> string" where
  "type_name None = ''none''"
| "type_name (Some (RString _)) = ''string''"
| "type_name (Some (RHash _)) = ''hash''"
| "type_name (Some (RSet _)) = ''set''"

fun hash_of :: "rvalue option \<Rightarrow> string \<rightharpoonup> string" where
  "hash_of (Some (RHash m)) = m"
| "hash_of _ = Map.empty"

fun set_of :: "rvalue option \<Rightarrow> string set" where
  "set_of (Some (RSet S)) = S"
| "set_of _ = {}"

fun string_of :: "rvalue option \<Rightarrow> string option" where
  "string_of (Some (RString v)) = Some v"
| "string_of _ = None"

text \<open>A key that is absent or of the named type; a hash or set that becomes empty is removed.\<close>

definition typed :: "string \<Rightarrow> rvalue option \<Rightarrow> bool" where
  "typed t x \<longleftrightarrow> type_name x = ''none'' \<or> type_name x = t"

definition hash_value :: "(string \<rightharpoonup> string) \<Rightarrow> rvalue option" where
  "hash_value m = (if m = Map.empty then None else Some (RHash m))"

definition set_value :: "string set \<Rightarrow> rvalue option" where
  "set_value S = (if S = {} then None else Some (RSet S))"

lemma typed_simps [simp]:
  "typed t None" "typed ''string'' (Some (RString v))" "typed ''hash'' (Some (RHash m))" "typed ''set'' (Some (RSet S))"
  "typed ''hash'' (hash_value m)" "typed ''set'' (set_value S)"
  "hash_of (hash_value m) = m" "set_of (set_value S) = S"
  by (simp_all add: typed_def hash_value_def set_value_def)

lemma typedE:
  "typed ''hash'' x \<Longrightarrow> (x = None \<Longrightarrow> P) \<Longrightarrow> (\<And>m. x = Some (RHash m) \<Longrightarrow> P) \<Longrightarrow> P"
  "typed ''set'' x \<Longrightarrow> (x = None \<Longrightarrow> P) \<Longrightarrow> (\<And>S. x = Some (RSet S) \<Longrightarrow> P) \<Longrightarrow> P"
  "typed ''string'' x \<Longrightarrow> (x = None \<Longrightarrow> P) \<Longrightarrow> (\<And>v. x = Some (RString v) \<Longrightarrow> P) \<Longrightarrow> P"
  by (cases x rule: type_name.cases; simp add: typed_def)+

section \<open>Commands\<close>

datatype link = LinkUp | LinkDown | ReplyLost

record 's Commands =
  r_TYPE :: "string \<Rightarrow> 's \<Rightarrow> string"
  r_EXISTS :: "string \<Rightarrow> 's \<Rightarrow> bool"
  r_GET :: "string \<Rightarrow> 's \<Rightarrow> error + string option"
  r_HGET :: "string \<Rightarrow> string \<Rightarrow> 's \<Rightarrow> error + string option"
  r_HGETALL :: "string \<Rightarrow> 's \<Rightarrow> error + (string, string) gomap"
  r_SMEMBERS :: "string \<Rightarrow> 's \<Rightarrow> error + string list"
  r_PTTL :: "string \<Rightarrow> 's \<Rightarrow> int"
  r_TIME :: "'s \<Rightarrow> int \<times> int" \<comment> \<open>seconds, microseconds\<close>
  r_HSET :: "string \<Rightarrow> (string \<times> string) list \<Rightarrow> ('s, unit) op"
  r_HDEL :: "string \<Rightarrow> string \<Rightarrow> ('s, unit) op"
  r_SADD :: "string \<Rightarrow> string \<Rightarrow> ('s, unit) op"
  r_SREM :: "string \<Rightarrow> string \<Rightarrow> ('s, unit) op"
  r_SET :: "string \<Rightarrow> string \<Rightarrow> int option \<Rightarrow> ('s, unit) op" \<comment> \<open>with or without \<open>PX\<close>\<close>
  r_SETNX :: "string \<Rightarrow> string \<Rightarrow> duration \<Rightarrow> ('s, bool) op"
  r_DEL :: "string list \<Rightarrow> 's \<Rightarrow> 's"
  r_PEXPIRE :: "string \<Rightarrow> int \<Rightarrow> 's \<Rightarrow> 's"
  r_tonumber :: "string \<Rightarrow> int option"
  r_link :: "'s \<Rightarrow> link"

definition hset_all :: "(string \<times> string) list \<Rightarrow> (string \<rightharpoonup> string) \<Rightarrow> (string \<rightharpoonup> string)" where
  "hset_all fvs m = fold (\<lambda>(f, v) m. m(f \<mapsto> v)) fvs m"

text \<open>
  The documented behaviour. A command on a key of another type is an error and changes nothing; on a
  key of its type, or on none, it succeeds with the stated effect. \<open>PEXPIRE\<close> and \<open>SET \<dots> PX\<close> with a
  positive time keep the key. Time does not pass inside a script, so no key expires in the middle of
  one. \<open>tonumber\<close> reads decimal text as the nearest double.
\<close>

locale redis_server =
  fixes R :: "'s Commands" and ks :: "'s \<Rightarrow> keyspace"
  assumes TYPE: "r_TYPE R k s = type_name (ks s k)"
    and EXISTS: "r_EXISTS R k s \<longleftrightarrow> ks s k \<noteq> None"
    and GET: "typed ''string'' (ks s k) \<Longrightarrow> r_GET R k s = Inr (string_of (ks s k))"
    and HGET: "typed ''hash'' (ks s k) \<Longrightarrow> r_HGET R k f s = Inr (hash_of (ks s k) f)"
    and HGETALL: "typed ''hash'' (ks s k) \<Longrightarrow> \<exists>m. r_HGETALL R k s = Inr m \<and> mget m = hash_of (ks s k)"
    and SMEMBERS: "typed ''set'' (ks s k) \<Longrightarrow> \<exists>l. r_SMEMBERS R k s = Inr l \<and> set l = set_of (ks s k)"
    and HSET: "typed ''hash'' (ks s k) \<Longrightarrow> fvs \<noteq> [] \<Longrightarrow>
      snd (r_HSET R k fvs s) = Inr () \<and> ks (fst (r_HSET R k fvs s)) = (ks s)(k \<mapsto> RHash (hset_all fvs (hash_of (ks s k))))"
    and HDEL: "typed ''hash'' (ks s k) \<Longrightarrow>
      snd (r_HDEL R k f s) = Inr () \<and> ks (fst (r_HDEL R k f s)) = (ks s)(k := hash_value ((hash_of (ks s k))(f := None)))"
    and SADD: "typed ''set'' (ks s k) \<Longrightarrow>
      snd (r_SADD R k x s) = Inr () \<and> ks (fst (r_SADD R k x s)) = (ks s)(k \<mapsto> RSet (insert x (set_of (ks s k))))"
    and SREM: "typed ''set'' (ks s k) \<Longrightarrow>
      snd (r_SREM R k x s) = Inr () \<and> ks (fst (r_SREM R k x s)) = (ks s)(k := set_value (set_of (ks s k) - {x}))"
    and SREM_wrong: "\<not> typed ''set'' (ks s k) \<Longrightarrow> isl (snd (r_SREM R k x s)) \<and> ks (fst (r_SREM R k x s)) = ks s"
    and SET: "px = None \<or> (\<exists>ms. px = Some ms \<and> 0 < ms) \<Longrightarrow>
      snd (r_SET R k v px s) = Inr () \<and> ks (fst (r_SET R k v px s)) = (ks s)(k \<mapsto> RString v)"
    and SETNX: "snd (r_SETNX R k v t s) = Inr (ks s k = None) \<and>
      ks (fst (r_SETNX R k v t s)) = (if ks s k = None then (ks s)(k \<mapsto> RString v) else ks s)"
    and DEL: "ks (r_DEL R dead s) = (\<lambda>k. if k \<in> set dead then None else ks s k)"
    and PEXPIRE: "0 < ms \<Longrightarrow> ks (r_PEXPIRE R k ms s) = ks s"
    and tonumber: "r_tonumber R (FormatInt n) = Some (dbl n)"

section \<open>A reference server\<close>

text \<open>Keys with an optional deadline in milliseconds, and a clock in microseconds.\<close>

datatype cell =
    CString string
  | CHash "(string, string) gomap"
  | CSet "string list"

record RefServer =
  rf_cells :: "(string, cell \<times> int option) gomap"
  rf_clock :: int
  rf_link :: link

fun cell_value :: "cell \<Rightarrow> rvalue" where
  "cell_value (CString v) = RString v"
| "cell_value (CHash m) = RHash (mget m)"
| "cell_value (CSet l) = RSet (set l)"

fun alive :: "int \<Rightarrow> (cell \<times> int option) option \<Rightarrow> (cell \<times> int option) option" where
  "alive now (Some (c, Some t)) = (if t * 1000 \<le> now then None else Some (c, Some t))"
| "alive now x = x"

definition live_cell :: "RefServer \<Rightarrow> string \<Rightarrow> (cell \<times> int option) option" where
  "live_cell s k = alive (rf_clock s) (mget (rf_cells s) k)"

definition ref_keyspace :: "RefServer \<Rightarrow> keyspace" where
  "ref_keyspace s k = map_option (\<lambda>x. cell_value (fst x)) (live_cell s k)"

definition ref_store :: "string \<Rightarrow> cell option \<Rightarrow> RefServer \<Rightarrow> RefServer" where
  "ref_store k c s = s\<lparr>rf_cells := (case c of None \<Rightarrow> mdel k (rf_cells s)
     | Some c \<Rightarrow> mput k (c, case live_cell s k of None \<Rightarrow> None | Some x \<Rightarrow> snd x) (rf_cells s))\<rparr>"

definition wrongtype :: error where
  "wrongtype = ErrBackend ''WRONGTYPE Operation against a key holding the wrong kind of value''"

definition on_hash :: "string \<Rightarrow> RefServer \<Rightarrow> ((string, string) gomap \<Rightarrow> 'a) \<Rightarrow> error + 'a" where
  "on_hash k s f = (case live_cell s k of None \<Rightarrow> Inr (f []) | Some (CHash m, _) \<Rightarrow> Inr (f m) | _ \<Rightarrow> Inl wrongtype)"

definition on_set :: "string \<Rightarrow> RefServer \<Rightarrow> (string list \<Rightarrow> 'a) \<Rightarrow> error + 'a" where
  "on_set k s f = (case live_cell s k of None \<Rightarrow> Inr (f []) | Some (CSet l, _) \<Rightarrow> Inr (f l) | _ \<Rightarrow> Inl wrongtype)"

definition writing :: "string \<Rightarrow> error + cell option \<Rightarrow> RefServer \<Rightarrow> RefServer \<times> (error + unit)" where
  "writing k r s = (case r of Inl e \<Rightarrow> (s, Inl e) | Inr c \<Rightarrow> (ref_store k c s, Inr ()))"

definition with_deadline :: "string \<Rightarrow> int option \<Rightarrow> RefServer \<Rightarrow> RefServer" where
  "with_deadline k d s = (case live_cell s k of None \<Rightarrow> s
     | Some (c, _) \<Rightarrow> s\<lparr>rf_cells := mput k (c, d) (rf_cells s)\<rparr>)"

definition after :: "int \<Rightarrow> RefServer \<Rightarrow> int option" where
  "after ms s = Some (rf_clock s div 1000 + ms)"

definition ref_number :: "string \<Rightarrow> int option" where
  "ref_number s =
     (let neg = HasPrefix s ''-''; ds = (if neg then tl s else s)
      in if ds = [] then None else map_option (\<lambda>n. dbl (if neg then - n else n)) (digits_value ds 0))"

definition reference :: "RefServer Commands" where
  "reference = \<lparr>
     r_TYPE = (\<lambda>k s. case live_cell s k of None \<Rightarrow> ''none'' | Some (CString _, _) \<Rightarrow> ''string''
        | Some (CHash _, _) \<Rightarrow> ''hash'' | Some (CSet _, _) \<Rightarrow> ''set''),
     r_EXISTS = (\<lambda>k s. \<not> Option.is_none (live_cell s k)),
     r_GET = (\<lambda>k s. case live_cell s k of None \<Rightarrow> Inr None | Some (CString v, _) \<Rightarrow> Inr (Some v) | _ \<Rightarrow> Inl wrongtype),
     r_HGET = (\<lambda>k f s. on_hash k s (\<lambda>m. mget m f)),
     r_HGETALL = (\<lambda>k s. on_hash k s (\<lambda>m. m)),
     r_SMEMBERS = (\<lambda>k s. on_set k s (\<lambda>l. l)),
     r_PTTL = (\<lambda>k s. case live_cell s k of None \<Rightarrow> - 2 | Some (_, None) \<Rightarrow> - 1 | Some (_, Some t) \<Rightarrow> t - rf_clock s div 1000),
     r_TIME = (\<lambda>s. (rf_clock s div 1000000, rf_clock s mod 1000000)),
     r_HSET = (\<lambda>k fvs s. writing k (on_hash k s (\<lambda>m. Some (CHash (fold (\<lambda>(f, v). mput f v) fvs m)))) s),
     r_HDEL = (\<lambda>k f s. writing k (on_hash k s (\<lambda>m. let m' = mdel f m in if m' = [] then None else Some (CHash m'))) s),
     r_SADD = (\<lambda>k x s. writing k (on_set k s (\<lambda>l. Some (CSet (if x \<in> set l then l else l @ [x])))) s),
     r_SREM = (\<lambda>k x s. writing k (on_set k s (\<lambda>l. let l' = removeAll x l in if l' = [] then None else Some (CSet l'))) s),
     r_SET = (\<lambda>k v px s. (with_deadline k (case px of None \<Rightarrow> None | Some ms \<Rightarrow> after ms s) (ref_store k (Some (CString v)) s), Inr ())),
     r_SETNX = (\<lambda>k v t s. case live_cell s k of
        None \<Rightarrow> (with_deadline k (if t = 0 then None else after (max 1 (Milliseconds t)) s) (ref_store k (Some (CString v)) s), Inr True)
      | Some _ \<Rightarrow> (s, Inr False)),
     r_DEL = (\<lambda>dead s. s\<lparr>rf_cells := filter (\<lambda>(k, _). k \<notin> set dead) (rf_cells s)\<rparr>),
     r_PEXPIRE = (\<lambda>k ms s. if 0 < ms then with_deadline k (after ms s) s else ref_store k None s),
     r_tonumber = ref_number, r_link = rf_link\<rparr>"

lemma live_cell_deadline: "live_cell s k = Some (c, Some t) \<Longrightarrow> rf_clock s < t * 1000"
  unfolding live_cell_def by (cases "mget (rf_cells s) k" rule: alive.cases [of "(0, x)" for x]) (auto split: if_splits)

lemma live_cell_cells [simp]:
  "live_cell (s\<lparr>rf_cells := m\<rparr>) k = alive (rf_clock s) (mget m k)"
  by (simp add: live_cell_def)

lemma alive_future: "(\<And>t. d = Some t \<Longrightarrow> now < t * 1000) \<Longrightarrow> alive now (Some (c, d)) = Some (c, d)"
  by (cases d) auto

lemma ref_keyspace_store [simp]: "ref_keyspace (ref_store k c s) = (ref_keyspace s)(k := map_option cell_value c)"
proof -
  define d where "d = (case live_cell s k of None \<Rightarrow> None | Some x \<Rightarrow> snd x)"
  have "rf_clock s < t * 1000" if "d = Some t" for t
    using that live_cell_deadline by (auto simp: d_def split: option.splits)
  then have "alive (rf_clock s) (Some (v, d)) = Some (v, d)" for v by (rule alive_future)
  then show ?thesis
    by (cases c) (auto simp: fun_eq_iff ref_keyspace_def ref_store_def gomap_simps d_def [symmetric] live_cell_def [of s, symmetric])
qed

lemma ref_keyspace_deadline:
  assumes "\<And>t. d = Some t \<Longrightarrow> rf_clock s < t * 1000"
  shows "ref_keyspace (with_deadline k d s) = ref_keyspace s"
proof (cases "live_cell s k")
  case (Some p)
  with alive_future [OF assms, where c = "fst p"] show ?thesis
    by (cases p) (auto simp: fun_eq_iff with_deadline_def ref_keyspace_def gomap_simps live_cell_def [of s, symmetric])
qed (simp add: with_deadline_def)

lemma after_future: "0 < ms \<Longrightarrow> after ms s = Some t \<Longrightarrow> rf_clock s < t * 1000"
proof -
  assume ms: "0 < ms" and "after ms s = Some t"
  then have t: "t = rf_clock s div 1000 + ms" by (simp add: after_def)
  have "rf_clock s = rf_clock s div 1000 * 1000 + rf_clock s mod 1000" "rf_clock s mod 1000 < 1000" by simp_all
  then have "rf_clock s < rf_clock s div 1000 * 1000 + 1000" by linarith
  also have "\<dots> \<le> t * 1000" using ms by (simp add: t)
  finally show ?thesis .
qed

lemma clock_store [simp]: "rf_clock (ref_store k c s) = rf_clock s"
  by (simp add: ref_store_def)

lemma ref_keyspace_deadlines [simp]:
  "ref_keyspace (with_deadline k None s) = ref_keyspace s"
  "0 < ms \<Longrightarrow> ref_keyspace (with_deadline k (after ms s) s) = ref_keyspace s"
  "0 < ms \<Longrightarrow> ref_keyspace (with_deadline k (after ms s) (ref_store k c s)) = ref_keyspace (ref_store k c s)"
  by (rule ref_keyspace_deadline; simp add: after_future del: ref_keyspace_store)+

lemma ref_number_FormatInt: "ref_number (FormatInt n) = Some (dbl n)"
  using dec_no_prefix [of n] digits_value_dec [of n] digits_value_dec [of "- n"]
  by (cases "n < 0") (auto simp: ref_number_def FormatInt_def Let_def dec_nonempty HasPrefix_def)

lemma keyspace_cases:
  obtains "live_cell s k = None" "ref_keyspace s k = None"
  | v d where "live_cell s k = Some (CString v, d)" "ref_keyspace s k = Some (RString v)"
  | m d where "live_cell s k = Some (CHash m, d)" "ref_keyspace s k = Some (RHash (mget m))"
  | l d where "live_cell s k = Some (CSet l, d)" "ref_keyspace s k = Some (RSet (set l))"
proof (cases "live_cell s k")
  case None
  then show ?thesis using that(1) by (simp add: ref_keyspace_def)
next
  case (Some p)
  obtain c d where "p = (c, d)" by fastforce
  with Some show ?thesis using that(2-4) by (cases c) (auto simp: ref_keyspace_def)
qed

lemma mget_fold_mput: "mget (fold (\<lambda>(f, v). mput f v) fvs m) = hset_all fvs (mget m)"
  by (induction fvs arbitrary: m) (auto simp: hset_all_def gomap_simps)

lemma typed_wrong [simp]:
  "\<not> typed ''hash'' (Some (RString v))" "\<not> typed ''hash'' (Some (RSet S))"
  "\<not> typed ''set'' (Some (RString v))" "\<not> typed ''set'' (Some (RHash m))"
  "\<not> typed ''string'' (Some (RHash m))" "\<not> typed ''string'' (Some (RSet S))"
  by (simp_all add: typed_def)

lemmas ref_defs = reference_def on_hash_def on_set_def writing_def Let_def

lemma mget_Nil_iff: "mget m = Map.empty \<longleftrightarrow> m = []"
  by (cases m) auto

interpretation ref: redis_server reference ref_keyspace
proof unfold_locales
  fix k f x v s fvs dead px ms n t
  show "r_TYPE reference k s = type_name (ref_keyspace s k)"
    by (rule keyspace_cases [of s k]) (simp_all add: ref_defs)
  show "r_EXISTS reference k s \<longleftrightarrow> ref_keyspace s k \<noteq> None"
    by (rule keyspace_cases [of s k]) (simp_all add: ref_defs)
  show "typed ''string'' (ref_keyspace s k) \<Longrightarrow> r_GET reference k s = Inr (string_of (ref_keyspace s k))"
    by (rule keyspace_cases [of s k]) (simp_all add: ref_defs)
  show "typed ''hash'' (ref_keyspace s k) \<Longrightarrow> r_HGET reference k f s = Inr (hash_of (ref_keyspace s k) f)"
    by (rule keyspace_cases [of s k]) (simp_all add: ref_defs)
  show "typed ''hash'' (ref_keyspace s k) \<Longrightarrow> \<exists>m. r_HGETALL reference k s = Inr m \<and> mget m = hash_of (ref_keyspace s k)"
    by (rule keyspace_cases [of s k]) (simp_all add: ref_defs)
  show "typed ''set'' (ref_keyspace s k) \<Longrightarrow> \<exists>l. r_SMEMBERS reference k s = Inr l \<and> set l = set_of (ref_keyspace s k)"
    by (rule keyspace_cases [of s k]) (simp_all add: ref_defs)
  show "typed ''hash'' (ref_keyspace s k) \<Longrightarrow> fvs \<noteq> [] \<Longrightarrow> snd (r_HSET reference k fvs s) = Inr () \<and>
      ref_keyspace (fst (r_HSET reference k fvs s)) = (ref_keyspace s)(k \<mapsto> RHash (hset_all fvs (hash_of (ref_keyspace s k))))"
    by (rule keyspace_cases [of s k]) (simp_all add: ref_defs mget_fold_mput)
  show "typed ''hash'' (ref_keyspace s k) \<Longrightarrow> snd (r_HDEL reference k f s) = Inr () \<and>
      ref_keyspace (fst (r_HDEL reference k f s)) = (ref_keyspace s)(k := hash_value ((hash_of (ref_keyspace s k))(f := None)))"
    by (rule keyspace_cases [of s k])
      (simp_all add: ref_defs hash_value_def gomap_simps mget_Nil_iff [of "mdel f m" for m, symmetric])
  show "typed ''set'' (ref_keyspace s k) \<Longrightarrow> snd (r_SADD reference k x s) = Inr () \<and>
      ref_keyspace (fst (r_SADD reference k x s)) = (ref_keyspace s)(k \<mapsto> RSet (insert x (set_of (ref_keyspace s k))))"
    by (rule keyspace_cases [of s k]) (auto simp: ref_defs)
  show "typed ''set'' (ref_keyspace s k) \<Longrightarrow> snd (r_SREM reference k x s) = Inr () \<and>
      ref_keyspace (fst (r_SREM reference k x s)) = (ref_keyspace s)(k := set_value (set_of (ref_keyspace s k) - {x}))"
    by (rule keyspace_cases [of s k]) (auto simp: ref_defs set_value_def removeAll_filter_not_eq filter_empty_conv)
  show "\<not> typed ''set'' (ref_keyspace s k) \<Longrightarrow> isl (snd (r_SREM reference k x s)) \<and>
      ref_keyspace (fst (r_SREM reference k x s)) = ref_keyspace s"
    by (rule keyspace_cases [of s k]) (simp_all add: ref_defs)
  show "px = None \<or> (\<exists>ms. px = Some ms \<and> 0 < ms) \<Longrightarrow> snd (r_SET reference k v px s) = Inr () \<and>
      ref_keyspace (fst (r_SET reference k v px s)) = (ref_keyspace s)(k \<mapsto> RString v)"
    by (cases px) (auto simp: ref_defs)
  show "snd (r_SETNX reference k v t s) = Inr (ref_keyspace s k = None) \<and>
      ref_keyspace (fst (r_SETNX reference k v t s)) = (if ref_keyspace s k = None then (ref_keyspace s)(k \<mapsto> RString v) else ref_keyspace s)"
    by (rule keyspace_cases [of s k]) (simp_all add: ref_defs)
  show "ref_keyspace (r_DEL reference dead s) = (\<lambda>k. if k \<in> set dead then None else ref_keyspace s k)"
  proof
    fix y
    have "mget (filter (\<lambda>(k, _). k \<notin> set dead) cs) y = (if y \<in> set dead then None else mget cs y)" for cs :: "(string, cell \<times> int option) gomap"
      by (induction cs) auto
    then show "ref_keyspace (r_DEL reference dead s) y = (if y \<in> set dead then None else ref_keyspace s y)"
      by (simp add: ref_defs ref_keyspace_def live_cell_def [of s])
  qed
  show "0 < ms \<Longrightarrow> ref_keyspace (r_PEXPIRE reference k ms s) = ref_keyspace s"
    by (simp add: ref_defs)
  show "r_tonumber reference (FormatInt n) = Some (dbl n)"
    by (simp add: ref_defs ref_number_FormatInt)
qed

end
