(* ===== verification/Redis_Store.thy ===== *)
theory Redis_Store
  imports Redis_Server
begin

text \<open>
  The Redis implementation of the store (\<open>internal/store/redis.go\<close>): the key names, the Lua scripts,
  and the methods that run them. A script is one atomic step of the server, but what it wrote before
  an error stays written. A round trip may fail because the request never arrived, or because the reply
  was lost after the script ran.
\<close>

section \<open>Keys\<close>

record 's Redis =
  x_c :: "'s Commands"
  x_prefix :: string

definition NewRedis :: "'s Commands \<Rightarrow> string \<Rightarrow> 's Redis" where
  "NewRedis client prefix = \<lparr>x_c = client, x_prefix = prefix\<rparr>"

definition sessKey :: "string \<Rightarrow> string \<Rightarrow> string" where
  "sessKey p sid = p @ ''sess:'' @ sid"

definition attrKey :: "string \<Rightarrow> string \<Rightarrow> string" where
  "attrKey p sid = p @ ''sess:'' @ sid @ '':attr''"

definition shaKey :: "string \<Rightarrow> string \<Rightarrow> string" where
  "shaKey p sid = p @ ''sess:'' @ sid @ '':sha''"

text \<open>The set of keys that lead to a session.\<close>

definition keysKey :: "string \<Rightarrow> string \<Rightarrow> string" where
  "keysKey p sid = sessKey p sid @ '':keys''"

definition keyKey :: "string \<Rightarrow> string \<Rightarrow> string" where
  "keyKey p k = p @ ''key:'' @ k"

definition ownerKey :: "string \<Rightarrow> int64 \<Rightarrow> string" where
  "ownerKey p o' = p @ ''owner:'' @ FormatInt o'"

definition lockKey :: "string \<Rightarrow> string \<Rightarrow> string" where
  "lockKey p sid = p @ ''lock:'' @ sid"

section \<open>Statements of a script\<close>

text \<open>A script gets key names in \<open>KEYS\<close> and everything else as text in \<open>ARGV\<close>.\<close>

type_synonym 's script = "('s, int) op"
type_synonym rkey = string
type_synonym rarg = string

definition ret :: "'a \<Rightarrow> ('s, 'a) op" where
  "ret x s = (s, Inr x)"

definition doing :: "('s, unit) op \<Rightarrow> ('s, 'a) op \<Rightarrow> ('s, 'a) op" where
  "doing f g s = andThen (f s) (\<lambda>s' _. g s')"

definition always :: "('s \<Rightarrow> 's) \<Rightarrow> ('s, unit) op" where
  "always f s = (f s, Inr ())"

definition only_if :: "bool \<Rightarrow> ('s, unit) op \<Rightarrow> ('s, unit) op" where
  "only_if b f = (if b then f else ret ())"

text \<open>A reply that is an error ends the script; \<open>x or "0"\<close> and \<open>tonumber(x) or 0\<close>.\<close>

definition reply :: "('s \<Rightarrow> error + 'a) \<Rightarrow> ('a \<Rightarrow> ('s, 'b) op) \<Rightarrow> ('s, 'b) op" where
  "reply q k s = (case q s of Inl e \<Rightarrow> (s, Inl e) | Inr x \<Rightarrow> k x s)"

definition or0 :: "string option \<Rightarrow> string" where
  "or0 v = (case v of None \<Rightarrow> ''0'' | Some t \<Rightarrow> t)"

definition number_or0 :: "'s Commands \<Rightarrow> string \<Rightarrow> int" where
  "number_or0 R t = (case r_tonumber R t of None \<Rightarrow> 0 | Some n \<Rightarrow> n)"

text \<open>\<open>tonumber(x)\<close> in a comparison: comparing nil with a number is a Lua error.\<close>

definition number :: "'s Commands \<Rightarrow> string \<Rightarrow> (int \<Rightarrow> ('s, 'b) op) \<Rightarrow> ('s, 'b) op" where
  "number R t k s = (case r_tonumber R t of
     None \<Rightarrow> (s, Inl (ErrBackend ''attempt to compare number with nil'')) | Some n \<Rightarrow> k n s)"

definition require_type :: "'s Commands \<Rightarrow> rkey \<Rightarrow> rarg \<Rightarrow> ('s, 'a) op \<Rightarrow> ('s, 'a) op" where
  "require_type R k t rest s =
     (if r_TYPE R k s \<noteq> ''none'' \<and> r_TYPE R k s \<noteq> t
      then (s, Inl (ErrBackend (''WRONGTYPE '' @ k @ '' must be '' @ t))) else rest s)"

fun require_types :: "'s Commands \<Rightarrow> (string \<times> string) list \<Rightarrow> ('s, 'a) op \<Rightarrow> ('s, 'a) op" where
  "require_types R [] rest = rest"
| "require_types R ((k, t) # kts) rest = require_type R k t (require_types R kts rest)"

text \<open>\<open>if b then return n end\<close>.\<close>

definition return_if :: "('s \<Rightarrow> bool) \<Rightarrow> int \<Rightarrow> 's script \<Rightarrow> 's script" where
  "return_if b n rest s = (if b s then (s, Inr n) else rest s)"

definition absent :: "'s Commands \<Rightarrow> string \<Rightarrow> 's \<Rightarrow> bool" where
  "absent R k s \<longleftrightarrow> \<not> r_EXISTS R k s"

definition expire_all :: "'s Commands \<Rightarrow> string list \<Rightarrow> int \<Rightarrow> 's \<Rightarrow> 's" where
  "expire_all R keys ms s = fold (\<lambda>k s. if r_EXISTS R k s then r_PEXPIRE R k ms s else s) keys s"

definition expire_if_positive :: "'s Commands \<Rightarrow> rkey \<Rightarrow> rarg \<Rightarrow> ('s, unit) op" where
  "expire_if_positive R k t = number R t (\<lambda>n. if 0 < n then always (r_PEXPIRE R k n) else ret ())"

text \<open>
  The remaining lifetime, computed alike by three scripts: the proposed time to live, cut to what the
  stored limits leave by the server's clock. Lua numbers are doubles, so each operation rounds.
\<close>

definition remaining_ms :: "'s Commands \<Rightarrow> int \<Rightarrow> int \<Rightarrow> string option \<Rightarrow> string option \<Rightarrow> string option \<Rightarrow> int \<Rightarrow> int \<times> int \<Rightarrow> int" where
  "remaining_ms R current_access proposed_access ina cre fin ttl_ms now =
     (let effective_access = max current_access proposed_access;
          inactive_ms = dbl (number_or0 R (or0 ina) * 1000);
          creation = number_or0 R (or0 cre);
          final_timeout = number_or0 R (or0 fin);
          now_ms = dbl (dbl (fst now * 1000) + snd now div 1000);
          final_ms = dbl (dbl (dbl (creation + final_timeout) * 1000) - now_ms);
          inactive_deadline_ms = dbl (dbl (dbl (effective_access * 1000) + inactive_ms) - now_ms);
          ttl_ms = (if 0 < inactive_ms \<and> inactive_deadline_ms < ttl_ms then inactive_deadline_ms else ttl_ms)
      in if 0 < final_timeout \<and> final_ms < ttl_ms then final_ms else ttl_ms)"

definition with_ttl :: "'s Commands \<Rightarrow> rkey \<Rightarrow> rarg \<Rightarrow> rarg \<Rightarrow> (int \<Rightarrow> int \<Rightarrow> int \<Rightarrow> ('s, 'b) op)
    \<Rightarrow> ('s, 'b) op" where
  "with_ttl R k access ttl rest =
     reply (r_HGET R k ''last_access'') (\<lambda>la.
     reply (r_HGET R k ''inactive_timeout'') (\<lambda>ina.
     reply (r_HGET R k ''creation'') (\<lambda>cre.
     reply (r_HGET R k ''final_timeout'') (\<lambda>fin s.
       let current_access = number_or0 R (or0 la); proposed_access = number_or0 R access
       in rest current_access proposed_access
            (remaining_ms R current_access proposed_access ina cre fin (number_or0 R ttl) (r_TIME R s)) s))))"

lemmas script_defs = ret_def doing_def always_def only_if_def reply_def number_def require_type_def return_if_def absent_def
  expire_if_positive_def

section \<open>Scripts\<close>

definition putSessionScript :: "'s Commands \<Rightarrow> rkey \<Rightarrow> (string \<times> string) list \<Rightarrow> rarg \<Rightarrow> 's script" where
  "putSessionScript R k fvs ttl =
     require_type R k ''hash'' (
     doing (r_HSET R k fvs) (
     doing (expire_if_positive R k ttl) (ret 1)))"

definition write_touch :: "'s Commands \<Rightarrow> rkey \<Rightarrow> rkey \<Rightarrow> rkey \<Rightarrow> rkey \<Rightarrow> rkey \<Rightarrow> rarg \<Rightarrow> rarg
    \<Rightarrow> int \<Rightarrow> int \<Rightarrow> int \<Rightarrow> 's script" where
  "write_touch R sk kk ak hk rk access rotation current_access proposed_access ttl_ms =
     doing (only_if (current_access < proposed_access)
       (doing (r_HSET R sk [(''last_access'', access)]) (always (expire_all R [sk, kk, ak, hk, rk] ttl_ms)))) (
     reply (r_HGET R sk ''last_rotation'') (\<lambda>rot.
     doing (only_if (rot = None \<or> r_tonumber R (the rot) = Some 0) (r_HSET R sk [(''last_rotation'', rotation)])) (
     ret 1)))"

definition touchSessionScript :: "'s Commands \<Rightarrow> rkey \<Rightarrow> rkey \<Rightarrow> rkey \<Rightarrow> rkey \<Rightarrow> rkey \<Rightarrow> rarg \<Rightarrow> rarg
    \<Rightarrow> rarg \<Rightarrow> rarg \<Rightarrow> 's script" where
  "touchSessionScript R sk kk ak hk rk access rotation ttl sid =
     require_types R [(sk, ''hash''), (kk, ''string''), (ak, ''hash''), (hk, ''hash''), (rk, ''set'')] (
     return_if (absent R sk) 0 (
     reply (r_GET R kk) (\<lambda>v.
     return_if (\<lambda>_. v \<noteq> Some sid) (- 1) (
     with_ttl R sk access ttl (\<lambda>current_access proposed_access ttl_ms.
     return_if (\<lambda>_. ttl_ms \<le> 0) 0 (
     write_touch R sk kk ak hk rk access rotation current_access proposed_access ttl_ms))))))"

fun cookie_commands :: "'s Commands \<Rightarrow> string \<Rightarrow> string \<Rightarrow> CookieMutation list \<Rightarrow> ('s, unit) op" where
  "cookie_commands R ak hk [] = ret ()"
| "cookie_commands R ak hk (c # cs) =
     doing (if cm_Delete c then doing (r_HDEL R ak (cm_Name c)) (r_HDEL R hk (cm_Name c))
            else doing (r_HSET R ak [(cm_Name c, cm_Value c)]) (r_HSET R hk [(cm_Name c, cm_SHA c)]))
       (cookie_commands R ak hk cs)"

text \<open>The type checks of \<open>applySessionControlsScript\<close> on the owner sets, and the move between them.\<close>

definition check_owner_sets :: "'s Commands \<Rightarrow> bool \<Rightarrow> rarg \<Rightarrow> rarg \<Rightarrow> rarg \<Rightarrow> 's script \<Rightarrow> 's script" where
  "check_owner_sets R setOwner prefix previous owner rest =
     (if setOwner
      then require_type R (prefix @ owner) ''set''
        (if previous \<noteq> ''0'' \<and> previous \<noteq> owner then require_type R (prefix @ previous) ''set'' rest else rest)
      else rest)"

definition move_owner_sets :: "'s Commands \<Rightarrow> rkey \<Rightarrow> rarg \<Rightarrow> rarg \<Rightarrow> rarg \<Rightarrow> rarg \<Rightarrow> rarg
    \<Rightarrow> ('s, unit) op" where
  "move_owner_sets R sk prefix previous owner ownerTTL sid =
     doing (r_HSET R sk [(''owner_id'', owner)]) (
     doing (r_SADD R (prefix @ owner) sid) (
     doing (expire_if_positive R (prefix @ owner) ownerTTL) (
     only_if (previous \<noteq> ''0'') (r_SREM R (prefix @ previous) sid))))"

definition swap_keys :: "'s Commands \<Rightarrow> rkey \<Rightarrow> rkey \<Rightarrow> rkey \<Rightarrow> rarg \<Rightarrow> rarg \<Rightarrow> rarg \<Rightarrow> int option
    \<Rightarrow> ('s, unit) op" where
  "swap_keys R okk nkk rk sid old new px =
     doing (r_SET R nkk sid px) (
     doing (always (r_DEL R [okk])) (
     doing (r_SREM R rk old) (r_SADD R rk new)))"

text \<open>The arguments of \<open>applySessionControlsScript\<close> as the method encodes them.\<close>

record ctl_args =
  ca_id :: string
  ca_setOwner :: bool
  ca_owner :: string
  ca_setLabels :: bool
  ca_labels :: string
  ca_access :: string
  ca_rotation :: string
  ca_rotate :: bool
  ca_ttl :: string
  ca_ownerTTL :: string
  ca_prefix :: string
  ca_old :: string
  ca_new :: string
  ca_cookies :: "CookieMutation list"

definition write_controls :: "'s Commands \<Rightarrow> rkey \<Rightarrow> rkey \<Rightarrow> rkey \<Rightarrow> rkey \<Rightarrow> rkey \<Rightarrow> rkey \<Rightarrow> ctl_args
    \<Rightarrow> rarg \<Rightarrow> int \<Rightarrow> int \<Rightarrow> int \<Rightarrow> 's script" where
  "write_controls R sk okk nkk ak hk rk a previous current_access proposed_access ttl_ms =
     doing (only_if (ca_setOwner a \<and> previous \<noteq> ca_owner a)
       (move_owner_sets R sk (ca_prefix a) previous (ca_owner a) (ca_ownerTTL a) (ca_id a))) (
     doing (only_if (ca_setLabels a) (r_HSET R sk [(''labels'', ca_labels a)])) (
     doing (only_if (current_access < proposed_access) (r_HSET R sk [(''last_access'', ca_access a)])) (
     reply (r_HGET R sk ''last_rotation'') (\<lambda>rot.
     number R (ca_rotation a) (\<lambda>proposed_rotation.
     doing (only_if (number_or0 R (or0 rot) < proposed_rotation) (r_HSET R sk [(''last_rotation'', ca_rotation a)])) (
     doing (only_if (ca_rotate a) (swap_keys R okk nkk rk (ca_id a) (ca_old a) (ca_new a) (Some ttl_ms))) (
     doing (cookie_commands R ak hk (ca_cookies a)) (
     doing (only_if (ca_rotate a \<or> ca_cookies a \<noteq> [] \<or> current_access < proposed_access \<or> number_or0 R (or0 rot) < proposed_rotation)
       (always (expire_all R [sk, if ca_rotate a then nkk else okk, ak, hk, rk] ttl_ms))) (
     ret 1)))))))))"

definition applySessionControlsScript :: "'s Commands \<Rightarrow> rkey \<Rightarrow> rkey \<Rightarrow> rkey \<Rightarrow> rkey \<Rightarrow> rkey \<Rightarrow> rkey
    \<Rightarrow> ctl_args \<Rightarrow> 's script" where
  "applySessionControlsScript R sk okk nkk ak hk rk a =
     require_types R [(sk, ''hash''), (okk, ''string''), (nkk, ''string''), (ak, ''hash''), (hk, ''hash''), (rk, ''set'')] (
     return_if (absent R sk) 0 (
     number R (ca_ttl a) (\<lambda>ttl.
     return_if (\<lambda>_. ttl \<le> 0) 0 (
     reply (r_GET R okk) (\<lambda>v.
     return_if (\<lambda>_. v \<noteq> Some (ca_id a)) (- 1) (
     return_if (\<lambda>_. ca_rotate a \<and> ca_old a = ca_new a) (- 1) (
     return_if (\<lambda>s. ca_rotate a \<and> nkk \<noteq> okk \<and> r_EXISTS R nkk s) (- 1) (
     with_ttl R sk (ca_access a) (ca_ttl a) (\<lambda>current_access proposed_access ttl_ms.
     return_if (\<lambda>_. ttl_ms \<le> 0) 0 (
     reply (r_HGET R sk ''owner_id'') (\<lambda>prev.
     check_owner_sets R (ca_setOwner a) (ca_prefix a) (or0 prev) (ca_owner a) (
     write_controls R sk okk nkk ak hk rk a (or0 prev) current_access proposed_access ttl_ms))))))))))))"

text \<open>The cascade shared by \<open>deleteSessionScript\<close> and \<open>deleteSessionByOwnerScript\<close>.\<close>

definition delete_rows :: "'s Commands \<Rightarrow> rkey \<Rightarrow> rkey \<Rightarrow> rkey \<Rightarrow> rkey \<Rightarrow> rarg \<Rightarrow> string list
    \<Rightarrow> ('s, unit) op" where
  "delete_rows R sk ak hk rk keyPrefix key_ids =
     doing (always (fold (\<lambda>k. r_DEL R [keyPrefix @ k]) key_ids)) (always (r_DEL R [sk, ak, hk, rk]))"

definition deleteSessionScript :: "'s Commands \<Rightarrow> rkey \<Rightarrow> rkey \<Rightarrow> rkey \<Rightarrow> rkey \<Rightarrow> rarg \<Rightarrow> rarg \<Rightarrow> rarg
    \<Rightarrow> 's script" where
  "deleteSessionScript R sk ak hk rk keyPrefix ownerPrefix sid =
     require_types R [(sk, ''hash''), (ak, ''hash''), (hk, ''hash''), (rk, ''set'')] (
     reply (r_HGET R sk ''owner_id'') (\<lambda>own.
     require_types R (if or0 own \<noteq> ''0'' then [(ownerPrefix @ or0 own, ''set'')] else []) (
     reply (r_SMEMBERS R rk) (\<lambda>key_ids.
     doing (delete_rows R sk ak hk rk keyPrefix key_ids) (
     doing (only_if (or0 own \<noteq> ''0'') (r_SREM R (ownerPrefix @ or0 own) sid)) (
     ret 1))))))"

text \<open>\<open>SET\<close> with the lifetime of the session row, shared by \<open>putKeyScript\<close> and \<open>replaceKeyScript\<close>.\<close>

definition px_of :: "int \<Rightarrow> int option" where
  "px_of ttl = (if 0 < ttl then Some ttl else None)"

definition putKeyScript :: "'s Commands \<Rightarrow> rkey \<Rightarrow> rkey \<Rightarrow> rkey \<Rightarrow> rarg \<Rightarrow> rarg \<Rightarrow> 's script" where
  "putKeyScript R sk kk rk sid keyID =
     require_types R [(sk, ''hash''), (kk, ''string''), (rk, ''set'')] (
     return_if (absent R sk) 0 (
     reply (\<lambda>s. Inr (r_PTTL R sk s)) (\<lambda>ttl.
     return_if (\<lambda>_. ttl = 0) 0 (
     doing (r_SET R kk sid (px_of ttl)) (
     doing (r_SADD R rk keyID) (
     doing (only_if (0 < ttl) (always (r_PEXPIRE R rk ttl))) (
     ret 1)))))))"

definition replaceKeyScript :: "'s Commands \<Rightarrow> rkey \<Rightarrow> rkey \<Rightarrow> rkey \<Rightarrow> rkey \<Rightarrow> rarg \<Rightarrow> rarg \<Rightarrow> rarg
    \<Rightarrow> 's script" where
  "replaceKeyScript R sk okk nkk rk sid old new =
     require_types R [(sk, ''hash''), (okk, ''string''), (nkk, ''string''), (rk, ''set'')] (
     return_if (absent R sk) 0 (
     reply (r_GET R okk) (\<lambda>v.
     return_if (\<lambda>_. v \<noteq> Some sid) (- 1) (
     return_if (r_EXISTS R nkk) (- 1) (
     reply (\<lambda>s. Inr (r_PTTL R sk s)) (\<lambda>ttl.
     return_if (\<lambda>_. ttl = 0) 0 (
     doing (swap_keys R okk nkk rk sid old new (px_of ttl)) (
     doing (only_if (0 < ttl) (always (r_PEXPIRE R rk ttl))) (
     ret 1)))))))))"

definition deleteKeyScript :: "'s Commands \<Rightarrow> rkey \<Rightarrow> rarg \<Rightarrow> rarg \<Rightarrow> 's script" where
  "deleteKeyScript R kk sessPrefix keyID =
     require_type R kk ''string'' (
     return_if (\<lambda>s. r_TYPE R kk s = ''none'') 1 (
     reply (r_GET R kk) (\<lambda>v. let reverse = sessPrefix @ the v @ '':keys'' in
     require_type R reverse ''set'' (
     doing (always (r_DEL R [kk])) (
     doing (r_SREM R reverse keyID) (
     ret 1))))))"

definition putCookieScript :: "'s Commands \<Rightarrow> rkey \<Rightarrow> rkey \<Rightarrow> rkey \<Rightarrow> rarg \<Rightarrow> rarg \<Rightarrow> rarg
    \<Rightarrow> 's script" where
  "putCookieScript R sk ak hk name val sha =
     require_types R [(sk, ''hash''), (ak, ''hash''), (hk, ''hash'')] (
     return_if (absent R sk) 0 (
     reply (\<lambda>s. Inr (r_PTTL R sk s)) (\<lambda>ttl.
     return_if (\<lambda>_. ttl = 0) 0 (
     doing (r_HSET R ak [(name, val)]) (
     doing (r_HSET R hk [(name, sha)]) (
     doing (only_if (0 < ttl) (always (\<lambda>s. r_PEXPIRE R hk ttl (r_PEXPIRE R ak ttl s)))) (
     ret 1)))))))"

definition deleteCookieScript :: "'s Commands \<Rightarrow> rkey \<Rightarrow> rkey \<Rightarrow> rarg \<Rightarrow> 's script" where
  "deleteCookieScript R ak hk name =
     require_types R [(ak, ''hash''), (hk, ''hash'')] (
     doing (r_HDEL R ak name) (
     doing (r_HDEL R hk name) (
     ret 1)))"

definition addOwnerIndexScript :: "'s Commands \<Rightarrow> rkey \<Rightarrow> rarg \<Rightarrow> rarg \<Rightarrow> 's script" where
  "addOwnerIndexScript R k sid ttl =
     require_type R k ''set'' (
     doing (r_SADD R k sid) (
     doing (expire_if_positive R k ttl) (
     ret 1)))"

definition write_reassigned :: "'s Commands \<Rightarrow> rkey \<Rightarrow> rkey \<Rightarrow> rarg \<Rightarrow> rarg \<Rightarrow> rarg \<Rightarrow> rarg \<Rightarrow> rarg
    \<Rightarrow> rarg \<Rightarrow> rarg \<Rightarrow> int \<Rightarrow> int \<Rightarrow> int \<Rightarrow> 's script" where
  "write_reassigned R sk okey access sid owner rotation ownerTTL prefix previous current_access proposed_access ttl_ms =
     doing (r_HSET R sk [(''owner_id'', owner)]) (
     doing (always (r_PEXPIRE R sk ttl_ms)) (
     doing (only_if (current_access < proposed_access) (r_HSET R sk [(''last_access'', access)])) (
     reply (r_HGET R sk ''last_rotation'') (\<lambda>rot.
     doing (only_if (number_or0 R (or0 rot) < number_or0 R rotation) (r_HSET R sk [(''last_rotation'', rotation)])) (
     doing (r_SADD R okey sid) (
     doing (expire_if_positive R okey ownerTTL) (
     doing (only_if (previous \<noteq> ''0'' \<and> previous \<noteq> owner) (r_SREM R (prefix @ previous) sid)) (
     ret 1))))))))"

definition reassignOwnerScript :: "'s Commands \<Rightarrow> rkey \<Rightarrow> rkey \<Rightarrow> rarg \<Rightarrow> rarg \<Rightarrow> rarg \<Rightarrow> rarg \<Rightarrow> rarg
    \<Rightarrow> rarg \<Rightarrow> rarg \<Rightarrow> 's script" where
  "reassignOwnerScript R sk okey access sid owner rotation ttl ownerTTL prefix =
     require_types R [(sk, ''hash''), (okey, ''set'')] (
     return_if (absent R sk) 0 (
     reply (r_HGET R sk ''owner_id'') (\<lambda>prev.
     with_ttl R sk access ttl (\<lambda>current_access proposed_access ttl_ms.
     return_if (\<lambda>_. ttl_ms \<le> 0) 0 (
     require_types R (if or0 prev \<noteq> ''0'' \<and> or0 prev \<noteq> owner then [(prefix @ or0 prev, ''set'')] else []) (
     write_reassigned R sk okey access sid owner rotation ownerTTL prefix (or0 prev) current_access proposed_access ttl_ms))))))"

definition deleteSessionByOwnerScript :: "'s Commands \<Rightarrow> rkey \<Rightarrow> rkey \<Rightarrow> rkey \<Rightarrow> rkey \<Rightarrow> rkey \<Rightarrow> rarg
    \<Rightarrow> rarg \<Rightarrow> rarg \<Rightarrow> 's script" where
  "deleteSessionByOwnerScript R sk okey ak hk rk owner sid keyPrefix =
     require_types R [(sk, ''hash''), (okey, ''set''), (ak, ''hash''), (hk, ''hash''), (rk, ''set'')] (
     reply (r_HGET R sk ''owner_id'') (\<lambda>cur.
     if or0 cur \<noteq> owner then doing (r_SREM R okey sid) (ret 0) else
     reply (r_SMEMBERS R rk) (\<lambda>key_ids.
     doing (delete_rows R sk ak hk rk keyPrefix key_ids) (
     doing (r_SREM R okey sid) (
     ret 1)))))"

definition unlockScript :: "'s Commands \<Rightarrow> rkey \<Rightarrow> rarg \<Rightarrow> 's script" where
  "unlockScript R k token =
     reply (r_GET R k) (\<lambda>v. if v = Some token then doing (always (r_DEL R [k])) (ret 1) else ret 0)"

section \<open>Round trips\<close>

text \<open>The store's state: the server, and what the random reader still delivers.\<close>

record 's RedisState =
  rs_server :: 's
  rs_rand :: string

definition link_error :: error where
  "link_error = ErrBackend ''i/o timeout''"

definition round_trip :: "'s Commands \<Rightarrow> ('s, 'a) op \<Rightarrow> ('s RedisState, 'a) op" where
  "round_trip R f st =
     (case r_link R (rs_server st) of
        LinkUp \<Rightarrow> (case f (rs_server st) of (s, r) \<Rightarrow> (st\<lparr>rs_server := s\<rparr>, r))
      | LinkDown \<Rightarrow> (st, Inl link_error)
      | ReplyLost \<Rightarrow> (st\<lparr>rs_server := fst (f (rs_server st))\<rparr>, Inl link_error))"

definition status :: "('s RedisState, int) op \<Rightarrow> ('s RedisState, unit) op" where
  "status f st = andThen (f st) (\<lambda>st' n.
     (st', if n = 0 then Inl ErrNotFound else if n = - 1 then Inl ErrConflict else Inr ()))"

definition found :: "('s RedisState, int) op \<Rightarrow> ('s RedisState, unit) op" where
  "found f st = andThen (f st) (\<lambda>st' n. (st', if n = 0 then Inl ErrNotFound else Inr ()))"

definition ignore_value :: "('s RedisState, int) op \<Rightarrow> ('s RedisState, unit) op" where
  "ignore_value f st = andThen (f st) (\<lambda>st' _. (st', Inr ()))"

section \<open>Methods\<close>

definition row_fields :: "Session \<Rightarrow> (string \<times> string) list" where
  "row_fields s = [(''creation'', FormatInt (s_Creation s)), (''last_access'', FormatInt (s_LastAccess s)),
     (''inactive_timeout'', FormatInt (s_InactiveTimeout s)), (''final_timeout'', FormatInt (s_FinalTimeout s)),
     (''owner_id'', FormatInt (s_OwnerID s)), (''last_rotation'', FormatInt (s_LastRotation s)), (''labels'', s_Labels s)]"

definition redis_PutSession :: "'s Redis \<Rightarrow> Session \<Rightarrow> duration \<Rightarrow> ('s RedisState, unit) op" where
  "redis_PutSession x s ttl =
     ignore_value (round_trip (x_c x)
       (putSessionScript (x_c x) (sessKey (x_prefix x) (s_ID s)) (row_fields s) (FormatInt (Milliseconds ttl))))"

definition redis_TouchSession :: "'s Redis \<Rightarrow> string \<Rightarrow> string \<Rightarrow> int64 \<Rightarrow> int64 \<Rightarrow> duration \<Rightarrow> ('s RedisState, unit) op" where
  "redis_TouchSession x sid keyID lastAccess legacyRotation ttl =
     (let p = x_prefix x in
      status (round_trip (x_c x) (touchSessionScript (x_c x) (sessKey p sid) (keyKey p keyID) (attrKey p sid) (shaKey p sid)
        (keysKey p sid) (FormatInt lastAccess) (FormatInt legacyRotation) (FormatInt (Milliseconds ttl)) sid)))"

definition control_args :: "string \<Rightarrow> string \<Rightarrow> SessionControls \<Rightarrow> duration \<Rightarrow> duration \<Rightarrow> ctl_args" where
  "control_args p sid c ttl ownerTTL = \<lparr>ca_id = sid, ca_setOwner = c_SetOwner c, ca_owner = FormatInt (c_OwnerID c),
     ca_setLabels = c_SetLabels c, ca_labels = c_Labels c, ca_access = FormatInt (c_LastAccess c),
     ca_rotation = FormatInt (c_LastRotation c), ca_rotate = c_Rotate c, ca_ttl = FormatInt (Milliseconds ttl),
     ca_ownerTTL = FormatInt (Milliseconds ownerTTL), ca_prefix = p @ ''owner:'', ca_old = c_OldKeyID c,
     ca_new = (if c_Rotate c then c_NewKeyID c else c_OldKeyID c), ca_cookies = c_Cookies c\<rparr>"

definition redis_ApplySessionControls :: "'s Redis \<Rightarrow> string \<Rightarrow> SessionControls \<Rightarrow> duration \<Rightarrow> duration \<Rightarrow> ('s RedisState, unit) op" where
  "redis_ApplySessionControls x sid c ttl ownerTTL =
     (let p = x_prefix x; a = control_args p sid c ttl ownerTTL in
      status (round_trip (x_c x) (applySessionControlsScript (x_c x) (sessKey p sid) (keyKey p (ca_old a)) (keyKey p (ca_new a))
        (attrKey p sid) (shaKey p sid) (keysKey p sid) a)))"

definition redis_RotateSessionKey :: "'s Redis \<Rightarrow> string \<Rightarrow> string \<Rightarrow> string \<Rightarrow> int64 \<Rightarrow> duration \<Rightarrow> ('s RedisState, unit) op" where
  "redis_RotateSessionKey x sid old new lastRotation ttl =
     redis_ApplySessionControls x sid \<lparr>c_SetOwner = False, c_OwnerID = 0, c_SetLabels = False, c_Labels = [],
       c_LastAccess = 0, c_LastRotation = lastRotation, c_OldKeyID = old, c_NewKeyID = new,
       c_Rotate = True, c_Cookies = []\<rparr> ttl 0"

definition row_of :: "string \<Rightarrow> (string \<rightharpoonup> string) \<Rightarrow> Session" where
  "row_of sid m =
     (let text = (\<lambda>k. case m k of None \<Rightarrow> [] | Some t \<Rightarrow> t)
      in \<lparr>s_ID = sid, s_Creation = atoi (text ''creation''), s_LastAccess = atoi (text ''last_access''),
        s_InactiveTimeout = atoi (text ''inactive_timeout''), s_FinalTimeout = atoi (text ''final_timeout''),
        s_OwnerID = atoi (text ''owner_id''), s_LastRotation = atoi (text ''last_rotation''), s_Labels = text ''labels''\<rparr>)"

definition redis_GetSession :: "'s Redis \<Rightarrow> string \<Rightarrow> ('s RedisState, Session) op" where
  "redis_GetSession x sid st =
     andThen (round_trip (x_c x) (reply (r_HGETALL (x_c x) (sessKey (x_prefix x) sid)) ret) st) (\<lambda>st' vals.
       (st', if vals = [] then Inl ErrNotFound else Inr (row_of sid (mget vals))))"

definition redis_DeleteSession :: "'s Redis \<Rightarrow> string \<Rightarrow> ('s RedisState, unit) op" where
  "redis_DeleteSession x sid =
     (let p = x_prefix x in
      ignore_value (round_trip (x_c x) (deleteSessionScript (x_c x) (sessKey p sid) (attrKey p sid) (shaKey p sid)
        (keysKey p sid) (p @ ''key:'') (p @ ''owner:'') sid)))"

definition redis_PutKey :: "'s Redis \<Rightarrow> string \<Rightarrow> string \<Rightarrow> duration \<Rightarrow> ('s RedisState, unit) op" where
  "redis_PutKey x keyID sid ttl =
     (let p = x_prefix x in
      found (round_trip (x_c x) (putKeyScript (x_c x) (sessKey p sid) (keyKey p keyID) (keysKey p sid) sid keyID)))"

definition redis_ReplaceKey :: "'s Redis \<Rightarrow> string \<Rightarrow> string \<Rightarrow> string \<Rightarrow> duration \<Rightarrow> ('s RedisState, unit) op" where
  "redis_ReplaceKey x old new sid ttl =
     (let p = x_prefix x in
      status (round_trip (x_c x) (replaceKeyScript (x_c x) (sessKey p sid) (keyKey p old) (keyKey p new)
        (keysKey p sid) sid old new)))"

definition redis_GetKey :: "'s Redis \<Rightarrow> string \<Rightarrow> ('s RedisState, string) op" where
  "redis_GetKey x keyID st =
     andThen (round_trip (x_c x) (reply (r_GET (x_c x) (keyKey (x_prefix x) keyID)) ret) st) (\<lambda>st' v.
       (st', case v of None \<Rightarrow> Inl ErrNotFound | Some sid \<Rightarrow> Inr sid))"

definition redis_DeleteKey :: "'s Redis \<Rightarrow> string \<Rightarrow> ('s RedisState, unit) op" where
  "redis_DeleteKey x keyID =
     ignore_value (round_trip (x_c x) (deleteKeyScript (x_c x) (keyKey (x_prefix x) keyID) (x_prefix x @ ''sess:'') keyID))"

definition redis_GetCookies :: "'s Redis \<Rightarrow> string \<Rightarrow> ('s RedisState, (string, string) gomap) op" where
  "redis_GetCookies x sid = round_trip (x_c x) (reply (r_HGETALL (x_c x) (attrKey (x_prefix x) sid)) ret)"

definition redis_CookieSHAs :: "'s Redis \<Rightarrow> string \<Rightarrow> ('s RedisState, (string, string) gomap) op" where
  "redis_CookieSHAs x sid = round_trip (x_c x) (reply (r_HGETALL (x_c x) (shaKey (x_prefix x) sid)) ret)"

definition redis_PutCookie :: "'s Redis \<Rightarrow> string \<Rightarrow> string \<Rightarrow> string \<Rightarrow> string \<Rightarrow> ('s RedisState, unit) op" where
  "redis_PutCookie x sid name val sha =
     (let p = x_prefix x in
      found (round_trip (x_c x) (putCookieScript (x_c x) (sessKey p sid) (attrKey p sid) (shaKey p sid) name val sha)))"

definition redis_DeleteCookie :: "'s Redis \<Rightarrow> string \<Rightarrow> string \<Rightarrow> ('s RedisState, unit) op" where
  "redis_DeleteCookie x sid name =
     ignore_value (round_trip (x_c x) (deleteCookieScript (x_c x) (attrKey (x_prefix x) sid) (shaKey (x_prefix x) sid) name))"

definition redis_AddOwnerIndex :: "'s Redis \<Rightarrow> int64 \<Rightarrow> string \<Rightarrow> duration \<Rightarrow> ('s RedisState, unit) op" where
  "redis_AddOwnerIndex x o' sid ttl =
     ignore_value (round_trip (x_c x)
       (addOwnerIndexScript (x_c x) (ownerKey (x_prefix x) o') sid (FormatInt (Milliseconds ttl))))"

definition redis_RemoveOwnerIndex :: "'s Redis \<Rightarrow> int64 \<Rightarrow> string \<Rightarrow> ('s RedisState, unit) op" where
  "redis_RemoveOwnerIndex x o' sid = round_trip (x_c x) (r_SREM (x_c x) (ownerKey (x_prefix x) o') sid)"

definition redis_OwnerSessions :: "'s Redis \<Rightarrow> int64 \<Rightarrow> ('s RedisState, string list) op" where
  "redis_OwnerSessions x o' = round_trip (x_c x) (reply (r_SMEMBERS (x_c x) (ownerKey (x_prefix x) o')) ret)"

definition redis_ReassignOwner :: "'s Redis \<Rightarrow> Session \<Rightarrow> duration \<Rightarrow> duration \<Rightarrow> ('s RedisState, unit) op" where
  "redis_ReassignOwner x s ttl ownerTTL =
     (let p = x_prefix x in
      found (round_trip (x_c x) (reassignOwnerScript (x_c x) (sessKey p (s_ID s)) (ownerKey p (s_OwnerID s))
        (FormatInt (s_LastAccess s)) (s_ID s) (FormatInt (s_OwnerID s)) (FormatInt (s_LastRotation s))
        (FormatInt (Milliseconds ttl)) (FormatInt (Milliseconds ownerTTL)) (p @ ''owner:''))))"

definition redis_DeleteSessionByOwner :: "'s Redis \<Rightarrow> int64 \<Rightarrow> string \<Rightarrow> ('s RedisState, bool) op" where
  "redis_DeleteSessionByOwner x o' sid st =
     (let p = x_prefix x in
      andThen (round_trip (x_c x) (deleteSessionByOwnerScript (x_c x) (sessKey p sid) (ownerKey p o') (attrKey p sid)
        (shaKey p sid) (keysKey p sid) (FormatInt o') sid (p @ ''key:'')) st) (\<lambda>st' n. (st', Inr (n = 1))))"

definition hex_digit :: "int \<Rightarrow> char" where
  "hex_digit n = (if n < 10 then char_of (n + 48) else char_of (n + 87))"

definition hexEncode :: "string \<Rightarrow> string" where
  "hexEncode s = concat (map (\<lambda>c. [hex_digit (ord c div 16), hex_digit (ord c mod 16)]) s)"

definition redis_Lock :: "'s Redis \<Rightarrow> string \<Rightarrow> duration \<Rightarrow> ('s RedisState, ('s RedisState, unit) op option) op" where
  "redis_Lock x sid ttl st =
     (if length (rs_rand st) < 16 then (st\<lparr>rs_rand := []\<rparr>, Inl ErrRandom)
      else let token = hexEncode (take 16 (rs_rand st)); k = lockKey (x_prefix x) sid
        in andThen (round_trip (x_c x) (r_SETNX (x_c x) k token ttl) (st\<lparr>rs_rand := drop 16 (rs_rand st)\<rparr>)) (\<lambda>st' ok.
             (st', Inr (if ok then Some (ignore_value (round_trip (x_c x) (unlockScript (x_c x) k token))) else None))))"

definition RedisStore :: "'s Redis \<Rightarrow> 's RedisState StoreI" where
  "RedisStore x = \<lparr>PutSession = redis_PutSession x, TouchSession = redis_TouchSession x,
     ApplySessionControls = redis_ApplySessionControls x, RotateSessionKey = redis_RotateSessionKey x,
     GetSession = redis_GetSession x, DeleteSession = redis_DeleteSession x, PutKey = redis_PutKey x,
     ReplaceKey = redis_ReplaceKey x, GetKey = redis_GetKey x, DeleteKey = redis_DeleteKey x,
     GetCookies = redis_GetCookies x, CookieSHAs = redis_CookieSHAs x, PutCookie = redis_PutCookie x,
     DeleteCookie = redis_DeleteCookie x, AddOwnerIndex = redis_AddOwnerIndex x,
     RemoveOwnerIndex = redis_RemoveOwnerIndex x, OwnerSessions = redis_OwnerSessions x,
     ReassignOwner = redis_ReassignOwner x, DeleteSessionByOwner = redis_DeleteSessionByOwner x, Lock = redis_Lock x\<rparr>"

end
