(* ===== verification/Redis_Scripts.thy ===== *)
theory Redis_Scripts
  imports Redis_Store
begin

text \<open>
  What each script does to the keyspace, on any server that obeys the laws: a script whose type checks
  fail changes nothing, and past its checks it runs to its end.
\<close>

section \<open>Effects on a keyspace\<close>

definition ks_hset :: "string \<Rightarrow> (string \<times> string) list \<Rightarrow> keyspace \<Rightarrow> keyspace" where
  "ks_hset k fvs K = K(k \<mapsto> RHash (hset_all fvs (hash_of (K k))))"

definition ks_hdel :: "string \<Rightarrow> string \<Rightarrow> keyspace \<Rightarrow> keyspace" where
  "ks_hdel k f K = K(k := hash_value ((hash_of (K k))(f := None)))"

definition ks_sadd :: "string \<Rightarrow> string \<Rightarrow> keyspace \<Rightarrow> keyspace" where
  "ks_sadd k x K = K(k \<mapsto> RSet (insert x (set_of (K k))))"

definition ks_srem :: "string \<Rightarrow> string \<Rightarrow> keyspace \<Rightarrow> keyspace" where
  "ks_srem k x K = K(k := set_value (set_of (K k) - {x}))"

definition ks_set :: "string \<Rightarrow> string \<Rightarrow> keyspace \<Rightarrow> keyspace" where
  "ks_set k v K = K(k \<mapsto> RString v)"

definition ks_del :: "string set \<Rightarrow> keyspace \<Rightarrow> keyspace" where
  "ks_del dead K = (\<lambda>k. if k \<in> dead then None else K k)"

definition ks_if :: "bool \<Rightarrow> (keyspace \<Rightarrow> keyspace) \<Rightarrow> keyspace \<Rightarrow> keyspace" where
  "ks_if b f K = (if b then f K else K)"

text \<open>Each effect touches its own key only, and leaves a value of its type there.\<close>

lemma ks_at [simp]:
  "ks_hset k fvs K k' = (if k' = k then Some (RHash (hset_all fvs (hash_of (K k)))) else K k')"
  "ks_hdel k f K k' = (if k' = k then hash_value ((hash_of (K k))(f := None)) else K k')"
  "ks_sadd k x K k' = (if k' = k then Some (RSet (insert x (set_of (K k)))) else K k')"
  "ks_srem k x K k' = (if k' = k then set_value (set_of (K k) - {x}) else K k')"
  "ks_set k v K k' = (if k' = k then Some (RString v) else K k')"
  "ks_del dead K k' = (if k' \<in> dead then None else K k')"
  by (simp_all add: ks_hset_def ks_hdel_def ks_sadd_def ks_srem_def ks_set_def ks_del_def)

lemma ks_if_at: "ks_if b f K k = (if b then f K k else K k)"
  by (simp add: ks_if_def)

fun ks_cookies :: "string \<Rightarrow> string \<Rightarrow> CookieMutation list \<Rightarrow> keyspace \<Rightarrow> keyspace" where
  "ks_cookies ak hk [] K = K"
| "ks_cookies ak hk (c # cs) K = ks_cookies ak hk cs
     (if cm_Delete c then ks_hdel hk (cm_Name c) (ks_hdel ak (cm_Name c) K)
      else ks_hset hk [(cm_Name c, cm_SHA c)] (ks_hset ak [(cm_Name c, cm_Value c)] K))"

definition ks_swap :: "rkey \<Rightarrow> rkey \<Rightarrow> rkey \<Rightarrow> rarg \<Rightarrow> rarg \<Rightarrow> rarg \<Rightarrow> keyspace \<Rightarrow> keyspace" where
  "ks_swap okk nkk rk sid old new K = ks_sadd rk new (ks_srem rk old (ks_del {okk} (ks_set nkk sid K)))"

definition ks_move_owner :: "rkey \<Rightarrow> rarg \<Rightarrow> rarg \<Rightarrow> rarg \<Rightarrow> rarg \<Rightarrow> keyspace \<Rightarrow> keyspace" where
  "ks_move_owner sk prefix previous owner sid K =
     ks_if (previous \<noteq> ''0'') (ks_srem (prefix @ previous) sid)
       (ks_sadd (prefix @ owner) sid (ks_hset sk [(''owner_id'', owner)] K))"

text \<open>A field written under a condition.\<close>

abbreviation (input) "raise k f v b K \<equiv> ks_if b (ks_hset k [(f, v)]) K"

definition ks_row :: "rkey \<Rightarrow> ctl_args \<Rightarrow> rarg \<Rightarrow> bool \<Rightarrow> bool \<Rightarrow> keyspace \<Rightarrow> keyspace" where
  "ks_row sk a previous later_access later_rotation K =
     raise sk ''last_rotation'' (ca_rotation a) later_rotation
     (raise sk ''last_access'' (ca_access a) later_access
     (raise sk ''labels'' (ca_labels a) (ca_setLabels a)
     (ks_if (ca_setOwner a \<and> previous \<noteq> ca_owner a) (ks_move_owner sk (ca_prefix a) previous (ca_owner a) (ca_id a)) K)))"

definition ks_controls :: "rkey \<Rightarrow> rkey \<Rightarrow> rkey \<Rightarrow> rkey \<Rightarrow> rkey \<Rightarrow> rkey \<Rightarrow> ctl_args \<Rightarrow> rarg
    \<Rightarrow> bool \<Rightarrow> bool \<Rightarrow> keyspace \<Rightarrow> keyspace" where
  "ks_controls sk okk nkk ak hk rk a previous later_access later_rotation K =
     ks_cookies ak hk (ca_cookies a)
     (ks_if (ca_rotate a) (ks_swap okk nkk rk (ca_id a) (ca_old a) (ca_new a))
     (ks_row sk a previous later_access later_rotation K))"

definition ks_reassign :: "rkey \<Rightarrow> rkey \<Rightarrow> rarg \<Rightarrow> rarg \<Rightarrow> rarg \<Rightarrow> rarg \<Rightarrow> rarg \<Rightarrow> rarg
    \<Rightarrow> bool \<Rightarrow> bool \<Rightarrow> keyspace \<Rightarrow> keyspace" where
  "ks_reassign sk okey access sid owner rotation prefix previous later_access later_rotation K =
     ks_if (previous \<noteq> ''0'' \<and> previous \<noteq> owner) (ks_srem (prefix @ previous) sid)
     (ks_sadd okey sid
     (raise sk ''last_rotation'' rotation later_rotation
     (raise sk ''last_access'' access later_access
     (ks_hset sk [(''owner_id'', owner)] K))))"

section \<open>Commands and statements\<close>

definition leads :: "('s \<Rightarrow> keyspace) \<Rightarrow> ('s, 'a) op \<Rightarrow> keyspace \<Rightarrow> 'a \<Rightarrow> keyspace \<Rightarrow> bool" where
  "leads ks f K x K' \<longleftrightarrow> (\<forall>s. ks s = K \<longrightarrow> ks (fst (f s)) = K' \<and> snd (f s) = Inr x)"

lemma leads_ret: "leads ks (ret x) K x K"
  by (simp add: leads_def ret_def)

lemma leads_doing: "leads ks f K () K1 \<Longrightarrow> leads ks g K1 x K2 \<Longrightarrow> leads ks (doing f g) K x K2"
  unfolding leads_def doing_def andThen_def by (auto split: prod.splits sum.splits)

lemma leads_only_if: "(b \<Longrightarrow> leads ks f K () (F K)) \<Longrightarrow> leads ks (only_if b f) K () (ks_if b F K)"
  by (simp add: only_if_def leads_ret ks_if_def)

lemma leads_number: "leads ks (g n) K x K' \<Longrightarrow> r_tonumber R t = Some n \<Longrightarrow> leads ks (number R t g) K x K'"
  by (simp add: leads_def number_def)

lemma leads_run: "leads ks f (ks s) x K' \<Longrightarrow> ks (fst (f s)) = K' \<and> snd (f s) = Inr x"
  by (simp add: leads_def)

text \<open>The lifetime a script computes from the fields of a row.\<close>

definition row_ttl :: "'s Commands \<Rightarrow> (string \<rightharpoonup> string) \<Rightarrow> string \<Rightarrow> string \<Rightarrow> int \<times> int \<Rightarrow> int" where
  "row_ttl R h access ttl now =
     remaining_ms R (number_or0 R (or0 (h ''last_access''))) (number_or0 R access) (h ''inactive_timeout'') (h ''creation'')
       (h ''final_timeout'') (number_or0 R ttl) now"

context redis_server
begin

lemma leads_HSET: "typed ''hash'' (K k) \<Longrightarrow> fvs \<noteq> [] \<Longrightarrow> leads ks (r_HSET R k fvs) K () (ks_hset k fvs K)"
  using HSET by (auto simp: leads_def ks_hset_def)

lemma leads_HDEL: "typed ''hash'' (K k) \<Longrightarrow> leads ks (r_HDEL R k f) K () (ks_hdel k f K)"
  using HDEL by (auto simp: leads_def ks_hdel_def)

lemma leads_SADD: "typed ''set'' (K k) \<Longrightarrow> leads ks (r_SADD R k x) K () (ks_sadd k x K)"
  using SADD by (auto simp: leads_def ks_sadd_def)

lemma leads_SREM: "typed ''set'' (K k) \<Longrightarrow> leads ks (r_SREM R k x) K () (ks_srem k x K)"
  using SREM by (auto simp: leads_def ks_srem_def)

lemma leads_SET: "px = None \<or> (\<exists>ms. px = Some ms \<and> 0 < ms) \<Longrightarrow> leads ks (r_SET R k v px) K () (ks_set k v K)"
  using SET by (auto simp: leads_def ks_set_def)

lemma leads_DEL: "leads ks (always (r_DEL R dead)) K () (ks_del (set dead) K)"
  using DEL by (auto simp: leads_def ks_del_def always_def)

lemma leads_PEXPIRE: "0 < ms \<Longrightarrow> leads ks (always (r_PEXPIRE R k ms)) K () K"
  using PEXPIRE by (auto simp: leads_def always_def)

lemma leads_DEL_each: "leads ks (always (fold (\<lambda>k. r_DEL R [pre @ k]) l)) K () (ks_del ((@) pre ` set l) K)"
proof -
  have "ks (fold (\<lambda>k. r_DEL R [pre @ k]) l s) = ks_del ((@) pre ` set l) (ks s)" for s
    by (induction l arbitrary: s) (auto simp: DEL ks_del_def fun_eq_iff)
  then show ?thesis by (simp add: leads_def always_def)
qed

lemma leads_expire_all: "0 < ms \<Longrightarrow> leads ks (always (expire_all R keys ms)) K () K"
proof -
  assume ms: "0 < ms"
  have "ks (fold (\<lambda>k s. if r_EXISTS R k s then r_PEXPIRE R k ms s else s) keys s) = ks s" for s
    using ms by (induction keys arbitrary: s) (auto simp: PEXPIRE)
  then show ?thesis by (simp add: leads_def always_def expire_all_def)
qed

lemma leads_expire_if_positive: "leads ks (expire_if_positive R k (FormatInt n)) K () K"
  unfolding expire_if_positive_def
  by (rule leads_number [OF _ tonumber]) (simp add: leads_ret leads_PEXPIRE)

lemma leads_HGET:
  "typed ''hash'' (K k) \<Longrightarrow> hash_of (K k) f = v \<Longrightarrow> leads ks (g v) K x K' \<Longrightarrow> leads ks (reply (r_HGET R k f) g) K x K'"
  by (auto simp: leads_def reply_def HGET)

lemma leads_cookies:
  assumes "ak \<noteq> hk" "typed ''hash'' (K ak)" "typed ''hash'' (K hk)"
  shows "leads ks (cookie_commands R ak hk cs) K () (ks_cookies ak hk cs K)"
  using assms
proof (induction cs arbitrary: K)
  case (Cons c cs)
  let ?K = "if cm_Delete c then ks_hdel hk (cm_Name c) (ks_hdel ak (cm_Name c) K)
      else ks_hset hk [(cm_Name c, cm_SHA c)] (ks_hset ak [(cm_Name c, cm_Value c)] K)"
  have "leads ks (cookie_commands R ak hk cs) ?K () (ks_cookies ak hk cs ?K)"
    by (rule Cons.IH) (use Cons.prems in auto)
  moreover have "leads ks (if cm_Delete c then doing (r_HDEL R ak (cm_Name c)) (r_HDEL R hk (cm_Name c))
      else doing (r_HSET R ak [(cm_Name c, cm_Value c)]) (r_HSET R hk [(cm_Name c, cm_SHA c)])) K () ?K"
    using Cons.prems by (auto intro!: leads_doing leads_HDEL leads_HSET)
  ultimately show ?case unfolding cookie_commands.simps ks_cookies.simps by (intro leads_doing)
qed (simp add: leads_ret)

lemma leads_swap:
  assumes "rk \<noteq> okk" "rk \<noteq> nkk" "typed ''set'' (K rk)" "px = None \<or> (\<exists>ms. px = Some ms \<and> 0 < ms)"
  shows "leads ks (swap_keys R okk nkk rk sid old new px) K () (ks_swap okk nkk rk sid old new K)"
  unfolding swap_keys_def ks_swap_def
  by (rule leads_doing leads_SET leads_DEL [of "[okk]", simplified] leads_SREM leads_SADD | use assms in simp)+

lemma leads_move_owner:
  assumes "typed ''hash'' (K sk)" "typed ''set'' (K (prefix @ owner))" "previous \<noteq> ''0'' \<Longrightarrow> typed ''set'' (K (prefix @ previous))"
    and "sk \<noteq> prefix @ owner" "sk \<noteq> prefix @ previous" "previous \<noteq> owner"
  shows "leads ks (move_owner_sets R sk prefix previous owner (FormatInt n) sid) K () (ks_move_owner sk prefix previous owner sid K)"
  unfolding move_owner_sets_def ks_move_owner_def
  by (rule leads_doing leads_HSET leads_SADD leads_expire_if_positive leads_only_if leads_SREM | use assms in simp)+

section \<open>Checks\<close>

lemma require_type_run: "require_type R k t rest s =
    (if typed t (ks s k) then rest s else (s, Inl (ErrBackend (''WRONGTYPE '' @ k @ '' must be '' @ t))))"
  by (simp add: require_type_def TYPE typed_def)

lemma require_types_ok: "\<forall>(k, t) \<in> set kts. typed t (ks s k) \<Longrightarrow> require_types R kts rest s = rest s"
  by (induction kts) (auto simp: require_type_run)

lemma require_types_fail: "\<not> (\<forall>(k, t) \<in> set kts. typed t (ks s k)) \<Longrightarrow> \<exists>e. require_types R kts rest s = (s, Inl e)"
proof (induction kts)
  case (Cons x kts)
  obtain k t where x: "x = (k, t)" by fastforce
  with Cons show ?case by (cases "typed t (ks s k)") (simp_all add: require_type_run)
qed simp

lemma require_type_types: "require_type R k t rest = require_types R [(k, t)] rest"
  by simp

lemma number_FormatInt [simp]: "number R (FormatInt n) g s = g (dbl n) s" "number_or0 R (FormatInt n) = dbl n"
  by (simp_all add: number_def number_or0_def tonumber)

lemma reply_HGET: "typed ''hash'' (ks s k) \<Longrightarrow> reply (r_HGET R k f) g s = g (hash_of (ks s k) f) s"
  by (simp add: reply_def HGET)

lemma reply_GET: "typed ''string'' (ks s k) \<Longrightarrow> reply (r_GET R k) g s = g (string_of (ks s k)) s"
  by (simp add: reply_def GET)

lemma absent_iff: "absent R k s \<longleftrightarrow> ks s k = None"
  by (simp add: absent_def EXISTS)

lemma with_ttl_run:
  "typed ''hash'' (ks s k) \<Longrightarrow> with_ttl R k access ttl rest s =
     rest (number_or0 R (or0 (hash_of (ks s k) ''last_access''))) (number_or0 R access)
       (row_ttl R (hash_of (ks s k)) access ttl (r_TIME R s)) s"
  by (simp add: with_ttl_def reply_HGET Let_def row_ttl_def)

section \<open>Scripts\<close>

lemma putSession_run:
  assumes "typed ''hash'' (ks s k)" "fvs \<noteq> []"
  shows "ks (fst (putSessionScript R k fvs (FormatInt n) s)) = ks_hset k fvs (ks s) \<and>
    snd (putSessionScript R k fvs (FormatInt n) s) = Inr 1"
proof -
  have "leads ks (doing (r_HSET R k fvs) (doing (expire_if_positive R k (FormatInt n)) (ret 1))) (ks s) (1 :: int) (ks_hset k fvs (ks s))"
    by (rule leads_doing leads_HSET leads_expire_if_positive leads_ret | use assms in simp)+
  from leads_run [OF this] show ?thesis
    using assms by (simp add: putSessionScript_def require_type_types require_types_ok del: require_types.simps)
qed

lemma touch_checks:
  assumes T: "typed ''hash'' (ks s sk)" "typed ''string'' (ks s kk)" "typed ''hash'' (ks s ak)" "typed ''hash'' (ks s hk)" "typed ''set'' (ks s rk)"
  shows "touchSessionScript R sk kk ak hk rk access rotation ttl sid s =
    (if ks s sk = None then (s, Inr 0) else if string_of (ks s kk) \<noteq> Some sid then (s, Inr (- 1))
     else if row_ttl R (hash_of (ks s sk)) access ttl (r_TIME R s) \<le> 0 then (s, Inr 0)
     else write_touch R sk kk ak hk rk access rotation (number_or0 R (or0 (hash_of (ks s sk) ''last_access''))) (number_or0 R access)
       (row_ttl R (hash_of (ks s sk)) access ttl (r_TIME R s)) s)"
  using T unfolding touchSessionScript_def
  by (simp add: require_types_ok return_if_def absent_iff reply_GET with_ttl_run del: require_types.simps)

lemma touch_writes:
  assumes T: "typed ''hash'' (K sk)" and t: "0 < t"
  shows "leads ks (write_touch R sk kk ak hk rk access rotation cur proposed t) K 1
    (ks_if (hash_of (K sk) ''last_rotation'' = None \<or> r_tonumber R (the (hash_of (K sk) ''last_rotation'')) = Some 0)
        (ks_hset sk [(''last_rotation'', rotation)])
      (ks_if (cur < proposed) (ks_hset sk [(''last_access'', access)]) K))"
proof -
  let ?K1 = "ks_if (cur < proposed) (ks_hset sk [(''last_access'', access)]) K"
  have h1: "hash_of (?K1 sk) ''last_rotation'' = hash_of (K sk) ''last_rotation''" "typed ''hash'' (?K1 sk)"
    using T by (simp_all add: ks_if_at hset_all_def)
  have "leads ks (only_if (cur < proposed) (doing (r_HSET R sk [(''last_access'', access)]) (always (expire_all R [sk, kk, ak, hk, rk] t)))) K () ?K1"
    by (intro leads_only_if leads_doing [OF leads_HSET leads_expire_all]) (simp_all add: T t)
  moreover have "leads ks (reply (r_HGET R sk ''last_rotation'') (\<lambda>rot.
      doing (only_if (rot = None \<or> r_tonumber R (the rot) = Some 0) (r_HSET R sk [(''last_rotation'', rotation)])) (ret 1))) ?K1 1
      (ks_if (hash_of (K sk) ''last_rotation'' = None \<or> r_tonumber R (the (hash_of (K sk) ''last_rotation'')) = Some 0)
        (ks_hset sk [(''last_rotation'', rotation)]) ?K1)"
    by (rule leads_HGET, rule h1(2), rule h1(1), rule leads_doing [OF leads_only_if leads_ret], rule leads_HSET) (simp_all add: h1)
  ultimately show ?thesis unfolding write_touch_def by (rule leads_doing)
qed

lemma ks_hset_keeps: "typed ''hash'' (K k) \<Longrightarrow> typed ''hash'' (raise k f v b K k)"
  "f \<noteq> g \<Longrightarrow> hash_of (raise k f v b K k) g = hash_of (K k) g" "k' \<noteq> k \<Longrightarrow> raise k f v b K k' = K k'"
  by (simp_all add: ks_if_at hset_all_def)

lemma leads_raise: "typed ''hash'' (K k) \<Longrightarrow> leads ks (only_if b (r_HSET R k [(f, v)])) K () (raise k f v b K)"
  by (intro leads_only_if leads_HSET) simp_all

lemma controls_checks:
  assumes T: "typed ''hash'' (ks s sk)" "typed ''string'' (ks s okk)" "typed ''string'' (ks s nkk)" "typed ''hash'' (ks s ak)"
      "typed ''hash'' (ks s hk)" "typed ''set'' (ks s rk)"
    and ttl: "ca_ttl a = FormatInt n" and names: "nkk = okk \<longleftrightarrow> ca_new a = ca_old a"
  defines "h \<equiv> hash_of (ks s sk)"
  defines "t \<equiv> row_ttl R h (ca_access a) (ca_ttl a) (r_TIME R s)"
  shows "applySessionControlsScript R sk okk nkk ak hk rk a s =
    (if ks s sk = None \<or> dbl n \<le> 0 then (s, Inr 0) else if string_of (ks s okk) \<noteq> Some (ca_id a) then (s, Inr (- 1))
     else if ca_rotate a \<and> ks s nkk \<noteq> None then (s, Inr (- 1))
     else if t \<le> 0 then (s, Inr 0)
     else check_owner_sets R (ca_setOwner a) (ca_prefix a) (or0 (h ''owner_id'')) (ca_owner a)
       (write_controls R sk okk nkk ak hk rk a (or0 (h ''owner_id'')) (number_or0 R (or0 (h ''last_access'')))
         (number_or0 R (ca_access a)) t) s)"
proof (cases "string_of (ks s okk) = Some (ca_id a)")
  case True
  then have "ks s okk \<noteq> None" by (cases "ks s okk") auto
  with T ttl names True show ?thesis unfolding applySessionControlsScript_def
    by (auto simp: require_types_ok return_if_def absent_iff reply_GET with_ttl_run reply_HGET EXISTS h_def t_def
        simp del: require_types.simps)
next
  case False
  with T ttl show ?thesis unfolding applySessionControlsScript_def
    by (simp add: require_types_ok return_if_def absent_iff reply_GET del: require_types.simps)
qed

lemma check_owner_run:
  assumes "b \<Longrightarrow> typed ''set'' (ks s (prefix @ owner))" "b \<Longrightarrow> previous \<noteq> ''0'' \<Longrightarrow> previous \<noteq> owner \<Longrightarrow> typed ''set'' (ks s (prefix @ previous))"
  shows "check_owner_sets R b prefix previous owner rest s = rest s"
  using assms by (simp add: check_owner_sets_def require_type_run)

lemma ks_move_owner_other:
  "k \<noteq> sk \<Longrightarrow> k \<noteq> prefix @ owner \<Longrightarrow> k \<noteq> prefix @ previous \<Longrightarrow> ks_move_owner sk prefix previous owner sid K k = K k"
  by (simp add: ks_move_owner_def ks_if_at)

lemma ks_move_owner_row:
  "sk \<noteq> prefix @ owner \<Longrightarrow> sk \<noteq> prefix @ previous \<Longrightarrow>
   ks_move_owner sk prefix previous owner sid K sk = Some (RHash ((hash_of (K sk))(''owner_id'' \<mapsto> owner)))"
  by (simp add: ks_move_owner_def ks_if_at hset_all_def)

lemma controls_writes:
  assumes T: "typed ''hash'' (K sk)" "typed ''hash'' (K ak)" "typed ''hash'' (K hk)" "typed ''set'' (K rk)"
    and own: "ca_setOwner a \<Longrightarrow> typed ''set'' (K (ca_prefix a @ ca_owner a))"
      "ca_setOwner a \<Longrightarrow> previous \<noteq> ''0'' \<Longrightarrow> previous \<noteq> ca_owner a \<Longrightarrow> typed ''set'' (K (ca_prefix a @ previous))"
    and names: "\<And>x. ca_prefix a @ x \<notin> {sk, ak, hk, rk}" "distinct [sk, ak, hk, rk]" "{okk, nkk} \<inter> {sk, ak, hk, rk} = {}"
    and args: "ca_rotation a = FormatInt r" "ca_ownerTTL a = FormatInt n" and t: "0 < t"
  defines "later \<equiv> number_or0 R (or0 (hash_of (K sk) ''last_rotation'')) < dbl r"
  shows "leads ks (write_controls R sk okk nkk ak hk rk a previous cur proposed t) K 1
    (ks_controls sk okk nkk ak hk rk a previous (cur < proposed) later K)"
proof -
  let ?mv = "ks_move_owner sk (ca_prefix a) previous (ca_owner a) (ca_id a)"
  let ?K1 = "ks_if (ca_setOwner a \<and> previous \<noteq> ca_owner a) ?mv K"
  let ?K2 = "raise sk ''labels'' (ca_labels a) (ca_setLabels a) ?K1"
  let ?K3 = "raise sk ''last_access'' (ca_access a) (cur < proposed) ?K2"
  let ?K4 = "ks_row sk a previous (cur < proposed) later K"
  let ?K5 = "ks_if (ca_rotate a) (ks_swap okk nkk rk (ca_id a) (ca_old a) (ca_new a)) ?K4"
  have nm: "sk \<noteq> ca_prefix a @ x" "ak \<noteq> ca_prefix a @ x" "hk \<noteq> ca_prefix a @ x" "rk \<noteq> ca_prefix a @ x" for x using names(1) [of x] by auto
  have 1: "leads ks (only_if (ca_setOwner a \<and> previous \<noteq> ca_owner a)
       (move_owner_sets R sk (ca_prefix a) previous (ca_owner a) (ca_ownerTTL a) (ca_id a))) K () ?K1"
    unfolding args by (intro leads_only_if leads_move_owner) (use T own nm in auto)
  have k1: "typed ''hash'' (?K1 sk)" "hash_of (?K1 sk) ''last_rotation'' = hash_of (K sk) ''last_rotation''"
    using T nm by (simp_all add: ks_if_at ks_move_owner_row)
  have 2: "leads ks (only_if (ca_setLabels a) (r_HSET R sk [(''labels'', ca_labels a)])) ?K1 () ?K2" using k1 by (intro leads_raise)
  have 3: "leads ks (only_if (cur < proposed) (r_HSET R sk [(''last_access'', ca_access a)])) ?K2 () ?K3"
    using k1 by (intro leads_raise ks_hset_keeps)
  have k3: "typed ''hash'' (?K3 sk)" "hash_of (?K3 sk) ''last_rotation'' = hash_of (K sk) ''last_rotation''"
    using k1 by (simp_all add: ks_hset_keeps)
  have 4: "leads ks (only_if later (r_HSET R sk [(''last_rotation'', ca_rotation a)])) ?K3 () ?K4"
    unfolding ks_row_def using k3 by (intro leads_raise)
  have k4: "?K4 k = K k" if "k \<in> {ak, hk, rk}" for k
    using that names(2) nm by (auto simp: ks_row_def ks_hset_keeps ks_if_at ks_move_owner_other)
  have 5: "leads ks (only_if (ca_rotate a) (swap_keys R okk nkk rk (ca_id a) (ca_old a) (ca_new a) (Some t))) ?K4 () ?K5"
    using names T t by (intro leads_only_if leads_swap) (auto simp: k4)
  have k5: "?K5 k = K k" if "k \<in> {ak, hk}" for k
    using that names(2,3) k4 [of k] by (auto simp: ks_if_at ks_swap_def)
  have 6: "leads ks (cookie_commands R ak hk (ca_cookies a)) ?K5 () (ks_controls sk okk nkk ak hk rk a previous (cur < proposed) later K)"
    unfolding ks_controls_def using names(2) T by (intro leads_cookies) (auto simp: k5)
  have 7: "leads ks (only_if b (always (expire_all R keys t))) K' () K'" for b keys K'
    by (simp add: only_if_def leads_ret leads_expire_all t)
  note steps = 4 5 6
  show ?thesis unfolding write_controls_def args(1) later_def
    by (rule leads_doing [OF 1], rule leads_doing [OF 2], rule leads_doing [OF 3], rule leads_HGET, rule k3(1), rule k3(2),
        rule leads_number [OF _ tonumber], rule leads_doing [OF steps(1) [unfolded later_def args(1)]],
        rule leads_doing [OF steps(2) [unfolded later_def]], rule leads_doing [OF steps(3) [unfolded later_def]],
        rule leads_doing [OF 7 leads_ret])
qed

lemma leads_require: "\<forall>(k, t) \<in> set kts. typed t (K k) \<Longrightarrow> leads ks rest K x K' \<Longrightarrow> leads ks (require_types R kts rest) K x K'"
  by (auto simp: leads_def require_types_ok)

lemma leads_SMEMBERS:
  assumes "typed ''set'' (K k)" "\<And>l. set l = set_of (K k) \<Longrightarrow> leads ks (g l) K x K'"
  shows "leads ks (reply (r_SMEMBERS R k) g) K x K'"
  unfolding leads_def
proof (intro allI impI)
  fix s assume s: "ks s = K"
  obtain l where "r_SMEMBERS R k s = Inr l" "set l = set_of (K k)" using SMEMBERS [of s k] assms(1) s by auto
  with assms(2) [of l] s show "ks (fst (reply (r_SMEMBERS R k) g s)) = K' \<and> snd (reply (r_SMEMBERS R k) g s) = Inr x"
    by (simp add: reply_def leads_def)
qed

lemma leads_delete_rows:
  assumes "set l = S"
  shows "leads ks (delete_rows R sk ak hk rk keyPrefix l) K () (ks_del {sk, ak, hk, rk} (ks_del ((@) keyPrefix ` S) K))"
  using leads_doing [OF leads_DEL_each leads_DEL [of "[sk, ak, hk, rk]"], of keyPrefix l K] assms by (simp add: delete_rows_def)

lemma delete_runs:
  assumes T: "typed ''hash'' (K sk)" "typed ''hash'' (K ak)" "typed ''hash'' (K hk)" "typed ''set'' (K rk)"
    and own: "or0 (hash_of (K sk) ''owner_id'') \<noteq> ''0'' \<Longrightarrow> typed ''set'' (K (op @ or0 (hash_of (K sk) ''owner_id'')))"
  defines "own \<equiv> or0 (hash_of (K sk) ''owner_id'')"
  shows "leads ks (deleteSessionScript R sk ak hk rk kp op sid) K 1
    (ks_if (own \<noteq> ''0'') (ks_srem (op @ own) sid) (ks_del {sk, ak, hk, rk} (ks_del ((@) kp ` set_of (K rk)) K)))"
proof -
  let ?K = "ks_del {sk, ak, hk, rk} (ks_del ((@) kp ` set_of (K rk)) K)"
  have "leads ks (only_if (own \<noteq> ''0'') (r_SREM R (op @ own) sid)) ?K () (ks_if (own \<noteq> ''0'') (ks_srem (op @ own) sid) ?K)"
    using own by (intro leads_only_if leads_SREM) (auto simp: own_def)
  note last = leads_doing [OF this leads_ret]
  show ?thesis unfolding deleteSessionScript_def own_def
    by (rule leads_require, use T in simp, rule leads_HGET, rule T(1), rule refl, rule leads_require, use own in simp,
        rule leads_SMEMBERS, rule T(4), rule leads_doing [OF leads_delete_rows], assumption, rule last [unfolded own_def])
qed

lemma delete_by_owner_runs:
  fixes owner
  assumes T: "typed ''hash'' (K sk)" "typed ''set'' (K okey)" "typed ''hash'' (K ak)" "typed ''hash'' (K hk)" "typed ''set'' (K rk)"
  defines "hit \<equiv> or0 (hash_of (K sk) ''owner_id'') = owner"
  shows "leads ks (deleteSessionByOwnerScript R sk okey ak hk rk owner sid kp) K (if hit then 1 else 0)
    (ks_srem okey sid (ks_if hit (\<lambda>K. ks_del {sk, ak, hk, rk} (ks_del ((@) kp ` set_of (K rk)) K)) K))"
proof -
  let ?K = "ks_del {sk, ak, hk, rk} (ks_del ((@) kp ` set_of (K rk)) K)"
  have "typed ''set'' (?K okey)" using T(2) by simp
  note hitlast = leads_doing [OF leads_SREM [where K = ?K and k = okey, OF this] leads_ret]
    and misslast = leads_doing [OF leads_SREM [where K = K and k = okey, OF T(2)] leads_ret]
  show ?thesis
  proof (cases hit)
    case True
    have "leads ks (deleteSessionByOwnerScript R sk okey ak hk rk owner sid kp) K 1 (ks_srem okey sid ?K)"
      unfolding deleteSessionByOwnerScript_def
      by (rule leads_require, use T in simp, rule leads_HGET, rule T(1), rule refl, simp only: True [unfolded hit_def] not_True_eq_False if_False simp_thms,
          rule leads_SMEMBERS, rule T(5), rule leads_doing [OF leads_delete_rows], assumption, rule hitlast)
    with True show ?thesis by (simp add: ks_if_def)
  next
    case False
    then have ne: "(or0 (hash_of (K sk) ''owner_id'') \<noteq> owner) = True" by (simp add: hit_def)
    have "leads ks (deleteSessionByOwnerScript R sk okey ak hk rk owner sid kp) K 0 (ks_srem okey sid K)"
      unfolding deleteSessionByOwnerScript_def
      by (rule leads_require, use T in simp, rule leads_HGET, rule T(1), rule refl, simp only: ne if_True, rule misslast)
    with False show ?thesis by (simp add: ks_if_def)
  qed
qed

lemma px_of_ok: "px_of n = None \<or> (\<exists>ms. px_of n = Some ms \<and> 0 < ms)"
  by (simp add: px_of_def)

lemma leads_maybe_expire: "leads ks (only_if (0 < n) (always (r_PEXPIRE R k n))) K () K"
  by (simp add: only_if_def leads_ret leads_PEXPIRE)

lemma putKey_runs:
  fixes sid keyID
  assumes T: "typed ''hash'' (ks s sk)" "typed ''string'' (ks s kk)" "typed ''set'' (ks s rk)" and "kk \<noteq> rk"
  defines "f \<equiv> putKeyScript R sk kk rk sid keyID"
  shows "if ks s sk = None \<or> r_PTTL R sk s = 0 then f s = (s, Inr 0)
    else ks (fst (f s)) = ks_sadd rk keyID (ks_set kk sid (ks s)) \<and> snd (f s) = Inr 1"
proof -
  let ?t = "r_PTTL R sk s"
  have "leads ks (doing (r_SET R kk sid (px_of ?t)) (doing (r_SADD R rk keyID) (doing (only_if (0 < ?t) (always (r_PEXPIRE R rk ?t))) (ret 1))))
      (ks s) (1 :: int) (ks_sadd rk keyID (ks_set kk sid (ks s)))"
    by (rule leads_doing, rule leads_SET, rule px_of_ok, rule leads_doing, rule leads_SADD, use assms in simp,
        rule leads_doing [OF leads_maybe_expire leads_ret])
  from leads_run [OF this] show ?thesis
    using T by (simp add: f_def putKeyScript_def require_types_ok return_if_def absent_iff reply_def del: require_types.simps)
qed

lemma replaceKey_runs:
  fixes sid old new
  assumes T: "typed ''hash'' (ks s sk)" "typed ''string'' (ks s okk)" "typed ''string'' (ks s nkk)" "typed ''set'' (ks s rk)"
    and names: "rk \<noteq> okk" "rk \<noteq> nkk"
  defines "f \<equiv> replaceKeyScript R sk okk nkk rk sid old new"
  shows "if ks s sk = None then f s = (s, Inr 0) else if string_of (ks s okk) \<noteq> Some sid \<or> ks s nkk \<noteq> None then f s = (s, Inr (- 1))
    else if r_PTTL R sk s = 0 then f s = (s, Inr 0)
    else ks (fst (f s)) = ks_swap okk nkk rk sid old new (ks s) \<and> snd (f s) = Inr 1"
proof -
  let ?t = "r_PTTL R sk s"
  have "leads ks (doing (swap_keys R okk nkk rk sid old new (px_of ?t)) (doing (only_if (0 < ?t) (always (r_PEXPIRE R rk ?t))) (ret 1)))
      (ks s) (1 :: int) (ks_swap okk nkk rk sid old new (ks s))"
    by (rule leads_doing, rule leads_swap, rule names, rule names, rule T, rule px_of_ok, rule leads_doing [OF leads_maybe_expire leads_ret])
  from leads_run [OF this] show ?thesis
    using T by (simp add: f_def replaceKeyScript_def require_types_ok return_if_def absent_iff reply_GET reply_def [of "\<lambda>s. Inr (q s)" for q]
        EXISTS del: require_types.simps)
qed

lemma deleteKey_runs:
  fixes keyID
  assumes T: "typed ''string'' (ks s kk)" "\<And>sid. ks s kk = Some (RString sid) \<Longrightarrow> typed ''set'' (ks s (sp @ sid @ '':keys''))"
    and names: "\<And>x. kk \<noteq> sp @ x"
  defines "f \<equiv> deleteKeyScript R kk sp keyID"
  shows "case ks s kk of None \<Rightarrow> f s = (s, Inr 1)
    | Some (RString sid) \<Rightarrow> ks (fst (f s)) = ks_srem (sp @ sid @ '':keys'') keyID (ks_del {kk} (ks s)) \<and> snd (f s) = Inr 1"
proof (rule typedE(3) [OF T(1)])
  assume "ks s kk = None"
  then show ?thesis by (simp add: f_def deleteKeyScript_def require_type_run return_if_def TYPE)
next
  fix sid assume k: "ks s kk = Some (RString sid)"
  let ?r = "sp @ sid @ '':keys''"
  have "leads ks (doing (always (r_DEL R [kk])) (doing (r_SREM R ?r keyID) (ret 1))) (ks s) (1 :: int) (ks_srem ?r keyID (ks_del {kk} (ks s)))"
    by (rule leads_doing, rule leads_DEL [of "[kk]", simplified], rule leads_doing [OF leads_SREM leads_ret])
      (use T(2) [OF k] names in simp)
  from leads_run [OF this] show ?thesis
    using k T by (simp add: f_def deleteKeyScript_def require_type_run return_if_def TYPE reply_GET Let_def)
qed

lemma putCookie_runs:
  fixes name val sha
  assumes T: "typed ''hash'' (ks s sk)" "typed ''hash'' (ks s ak)" "typed ''hash'' (ks s hk)" and "ak \<noteq> hk"
  defines "f \<equiv> putCookieScript R sk ak hk name val sha"
  shows "if ks s sk = None \<or> r_PTTL R sk s = 0 then f s = (s, Inr 0)
    else ks (fst (f s)) = ks_hset hk [(name, sha)] (ks_hset ak [(name, val)] (ks s)) \<and> snd (f s) = Inr 1"
proof -
  let ?t = "r_PTTL R sk s"
  have e: "leads ks (only_if (0 < ?t) (always (\<lambda>s. r_PEXPIRE R hk ?t (r_PEXPIRE R ak ?t s)))) K () K" for K
    by (simp add: only_if_def leads_ret) (simp add: leads_def always_def PEXPIRE)
  have "leads ks (doing (r_HSET R ak [(name, val)]) (doing (r_HSET R hk [(name, sha)])
      (doing (only_if (0 < ?t) (always (\<lambda>s. r_PEXPIRE R hk ?t (r_PEXPIRE R ak ?t s)))) (ret 1))))
      (ks s) (1 :: int) (ks_hset hk [(name, sha)] (ks_hset ak [(name, val)] (ks s)))"
    by (rule leads_doing, rule leads_HSET, rule T, simp, rule leads_doing, rule leads_HSET, use assms in simp, simp,
        rule leads_doing [OF e leads_ret])
  from leads_run [OF this] show ?thesis
    using T by (simp add: f_def putCookieScript_def require_types_ok return_if_def absent_iff reply_def del: require_types.simps)
qed

lemma deleteCookie_runs:
  assumes T: "typed ''hash'' (K ak)" "typed ''hash'' (K hk)" and "ak \<noteq> hk"
  shows "leads ks (deleteCookieScript R ak hk name) K 1 (ks_hdel hk name (ks_hdel ak name K))"
  unfolding deleteCookieScript_def
  by (rule leads_require, use T in simp, rule leads_doing, rule leads_HDEL, rule T, rule leads_doing [OF leads_HDEL leads_ret])
    (use assms in simp)

lemma addOwner_runs:
  assumes "typed ''set'' (K k)"
  shows "leads ks (addOwnerIndexScript R k sid (FormatInt n)) K 1 (ks_sadd k sid K)"
  unfolding addOwnerIndexScript_def require_type_types
  by (rule leads_require, use assms in simp, rule leads_doing, rule leads_SADD, rule assms,
      rule leads_doing [OF leads_expire_if_positive leads_ret])

lemma reassign_checks:
  assumes T: "typed ''hash'' (ks s sk)" "typed ''set'' (ks s okey)"
  defines "h \<equiv> hash_of (ks s sk)"
  shows "reassignOwnerScript R sk okey access sid owner rotation ttl ownerTTL prefix s =
    (if ks s sk = None \<or> row_ttl R h access ttl (r_TIME R s) \<le> 0 then (s, Inr 0)
     else require_types R (if or0 (h ''owner_id'') \<noteq> ''0'' \<and> or0 (h ''owner_id'') \<noteq> owner then [(prefix @ or0 (h ''owner_id''), ''set'')] else [])
       (write_reassigned R sk okey access sid owner rotation ownerTTL prefix (or0 (h ''owner_id''))
         (number_or0 R (or0 (h ''last_access''))) (number_or0 R access) (row_ttl R h access ttl (r_TIME R s))) s)"
  using T unfolding reassignOwnerScript_def
  by (simp add: require_types_ok return_if_def absent_iff reply_HGET with_ttl_run h_def del: require_types.simps)

lemma reassign_writes:
  fixes rotation
  assumes T: "typed ''hash'' (K sk)" "typed ''set'' (K okey)"
    and prev: "previous \<noteq> ''0'' \<and> previous \<noteq> owner \<Longrightarrow> typed ''set'' (K (prefix @ previous))"
    and names: "sk \<noteq> okey" "sk \<noteq> prefix @ previous" and t: "0 < t"
  defines "later \<equiv> number_or0 R (or0 (hash_of (K sk) ''last_rotation'')) < number_or0 R rotation"
  shows "leads ks (write_reassigned R sk okey access sid owner rotation (FormatInt n) prefix previous cur proposed t) K 1
    (ks_reassign sk okey access sid owner rotation prefix previous (cur < proposed) later K)"
proof -
  let ?K1 = "ks_hset sk [(''owner_id'', owner)] K"
  let ?K2 = "raise sk ''last_access'' access (cur < proposed) ?K1"
  let ?K3 = "raise sk ''last_rotation'' rotation later ?K2"
  let ?K4 = "ks_sadd okey sid ?K3"
  have k2: "typed ''hash'' (?K2 sk)" "hash_of (?K2 sk) ''last_rotation'' = hash_of (K sk) ''last_rotation''"
    by (simp_all add: ks_if_at hset_all_def)
  have k3: "typed ''set'' (?K3 okey)" using T(2) names by (simp add: ks_hset_keeps)
  have k4: "typed ''set'' (?K4 (prefix @ previous))" if "previous \<noteq> ''0'' \<and> previous \<noteq> owner"
    using prev [OF that] names by (simp add: ks_if_at)
  have 1: "leads ks (r_HSET R sk [(''owner_id'', owner)]) K () ?K1" using T by (intro leads_HSET) simp_all
  have 2: "leads ks (only_if (cur < proposed) (r_HSET R sk [(''last_access'', access)])) ?K1 () ?K2" by (intro leads_raise) simp
  have 3: "leads ks (only_if later (r_HSET R sk [(''last_rotation'', rotation)])) ?K2 () ?K3" using k2 by (intro leads_raise)
  have 4: "leads ks (r_SADD R okey sid) ?K3 () ?K4" using k3 by (rule leads_SADD)
  have 5: "leads ks (only_if (previous \<noteq> ''0'' \<and> previous \<noteq> owner) (r_SREM R (prefix @ previous) sid)) ?K4 ()
      (ks_reassign sk okey access sid owner rotation prefix previous (cur < proposed) later K)"
    unfolding ks_reassign_def using k4 by (intro leads_only_if leads_SREM)
  show ?thesis unfolding write_reassigned_def later_def
    by (rule leads_doing [OF 1], rule leads_doing [OF leads_PEXPIRE [OF t]], rule leads_doing [OF 2], rule leads_HGET, rule k2(1), rule k2(2),
        rule leads_doing [OF 3 [unfolded later_def]], rule leads_doing [OF 4 [unfolded later_def]], rule leads_doing [OF leads_expire_if_positive],
        rule leads_doing [OF 5 [unfolded later_def] leads_ret])
qed

end

end
