(* ===== verification/Redis_View.thy ===== *)
theory Redis_View
  imports Redis_Scripts
begin

text \<open>
  The Redis keyspace read as the abstract state of the store, the representation invariant, and the
  updates the scripts are made of. Session ids contain no colon (they are base64url), so the names of
  the rows of different sessions never coincide.
\<close>

section \<open>Key names\<close>

definition plain :: "string \<Rightarrow> bool" where
  "plain sid \<longleftrightarrow> CHR '':'' \<notin> set sid"

lemmas key_defs = sessKey_def attrKey_def shaKey_def keysKey_def keyKey_def ownerKey_def lockKey_def

lemma key_names_same [simp]:
  "sessKey p a = sessKey p b \<longleftrightarrow> a = b" "attrKey p a = attrKey p b \<longleftrightarrow> a = b" "shaKey p a = shaKey p b \<longleftrightarrow> a = b"
  "keysKey p a = keysKey p b \<longleftrightarrow> a = b" "keyKey p a = keyKey p b \<longleftrightarrow> a = b" "lockKey p a = lockKey p b \<longleftrightarrow> a = b"
  "ownerKey p m = ownerKey p n \<longleftrightarrow> m = n"
  by (simp_all add: key_defs)

lemma last_append_neq: "last s \<noteq> last t \<Longrightarrow> s \<noteq> [] \<Longrightarrow> t \<noteq> [] \<Longrightarrow> a @ s \<noteq> b @ t"
  by (metis last_appendR)

lemma key_names_rows [simp]:
  "attrKey p a \<noteq> shaKey p b" "attrKey p a \<noteq> keysKey p b" "shaKey p a \<noteq> keysKey p b"
  "shaKey p a \<noteq> attrKey p b" "keysKey p a \<noteq> attrKey p b" "keysKey p a \<noteq> shaKey p b"
  using last_append_neq [of "'':attr''" "'':sha''"] last_append_neq [of "'':attr''" "'':keys''"] last_append_neq [of "'':sha''" "'':keys''"]
    last_append_neq [of "'':sha''" "'':attr''"] last_append_neq [of "'':keys''" "'':attr''"] last_append_neq [of "'':keys''" "'':sha''"]
  by (simp_all add: key_defs)

lemma key_names_sess [simp]:
  "plain a \<Longrightarrow> sessKey p a \<noteq> attrKey p b" "plain a \<Longrightarrow> sessKey p a \<noteq> shaKey p b" "plain a \<Longrightarrow> sessKey p a \<noteq> keysKey p b"
  "plain a \<Longrightarrow> attrKey p b \<noteq> sessKey p a" "plain a \<Longrightarrow> shaKey p b \<noteq> sessKey p a" "plain a \<Longrightarrow> keysKey p b \<noteq> sessKey p a"
  by (auto simp: key_defs plain_def)

definition ownerName :: "string \<Rightarrow> string \<Rightarrow> string" where
  "ownerName p t = p @ ''owner:'' @ t"

lemma ownerName_FormatInt: "ownerName p (FormatInt n) = ownerKey p n"
  by (simp add: ownerName_def ownerKey_def)

lemma ownerName_append: "(p @ ''owner:'') @ t = ownerName p t"
  by (simp add: ownerName_def)

lemma key_names_owner [simp]:
  "ownerName p t \<noteq> sessKey p a" "ownerName p t \<noteq> attrKey p a" "ownerName p t \<noteq> shaKey p a" "ownerName p t \<noteq> keysKey p a"
  "ownerName p t \<noteq> keyKey p a" "ownerName p t \<noteq> lockKey p a"
  "sessKey p a \<noteq> ownerName p t" "attrKey p a \<noteq> ownerName p t" "shaKey p a \<noteq> ownerName p t" "keysKey p a \<noteq> ownerName p t"
  "keyKey p a \<noteq> ownerName p t" "lockKey p a \<noteq> ownerName p t"
  by (simp_all add: key_defs ownerName_def)

lemmas key_names_ownerKey [simp] = key_names_owner [where t = "FormatInt n" for n, unfolded ownerName_FormatInt]

lemma key_names_key [simp]:
  "keyKey p k \<noteq> sessKey p a" "keyKey p k \<noteq> attrKey p a" "keyKey p k \<noteq> shaKey p a" "keyKey p k \<noteq> keysKey p a" "keyKey p k \<noteq> lockKey p a"
  "sessKey p a \<noteq> keyKey p k" "attrKey p a \<noteq> keyKey p k" "shaKey p a \<noteq> keyKey p k" "keysKey p a \<noteq> keyKey p k" "lockKey p a \<noteq> keyKey p k"
  by (simp_all add: key_defs)

lemma key_names_lock [simp]:
  "lockKey p k \<noteq> sessKey p a" "lockKey p k \<noteq> attrKey p a" "lockKey p k \<noteq> shaKey p a" "lockKey p k \<noteq> keysKey p a"
  "sessKey p a \<noteq> lockKey p k" "attrKey p a \<noteq> lockKey p k" "shaKey p a \<noteq> lockKey p k" "keysKey p a \<noteq> lockKey p k"
  by (simp_all add: key_defs)

section \<open>Rows\<close>

text \<open>Times that a double holds exactly, and the range of a stored row.\<close>

definition small :: "int \<Rightarrow> bool" where
  "small n \<longleftrightarrow> \<bar>n\<bar> \<le> 2 ^ 53"

lemma dbl_small [simp]: "small n \<Longrightarrow> dbl n = n"
  by (simp add: small_def dbl_def)

definition typed_row :: "Session \<Rightarrow> bool" where
  "typed_row s \<longleftrightarrow> is_i64 (s_Creation s) \<and> is_i64 (s_InactiveTimeout s) \<and> is_i64 (s_FinalTimeout s) \<and>
     small (s_LastAccess s) \<and> small (s_LastRotation s) \<and> is_i64 (s_OwnerID s) \<and> 0 \<le> s_OwnerID s"

definition row_map :: "Session \<Rightarrow> string \<rightharpoonup> string" where
  "row_map s = mget (row_fields s)"

lemma small_i64: "small n \<Longrightarrow> is_i64 n"
  by (auto simp: small_def is_i64_def abs_le_iff)

lemma row_of_map: "typed_row s \<Longrightarrow> row_of (s_ID s) (row_map s) = s"
  by (simp add: row_of_def row_map_def row_fields_def typed_row_def small_i64 atoi_FormatInt)

lemma row_map_inj: "row_map s = row_map t \<Longrightarrow> s_ID s = s_ID t \<Longrightarrow> typed_row s \<Longrightarrow> typed_row t \<Longrightarrow> s = t"
  by (metis row_of_map)

lemma row_map_at [simp]:
  "row_map s ''owner_id'' = Some (FormatInt (s_OwnerID s))" "row_map s ''last_access'' = Some (FormatInt (s_LastAccess s))"
  "row_map s ''last_rotation'' = Some (FormatInt (s_LastRotation s))"
  by (simp_all add: row_map_def row_fields_def)

lemma row_map_put:
  "hset_all (row_fields s) Map.empty = row_map s" "hset_all (row_fields s) (row_map s0) = row_map s"
  by (auto simp: hset_all_def row_fields_def row_map_def fun_eq_iff)

lemma row_map_update:
  "(row_map s)(''owner_id'' \<mapsto> FormatInt n) = row_map (s\<lparr>s_OwnerID := n\<rparr>)"
  "(row_map s)(''labels'' \<mapsto> l) = row_map (s\<lparr>s_Labels := l\<rparr>)"
  "(row_map s)(''last_access'' \<mapsto> FormatInt n) = row_map (s\<lparr>s_LastAccess := n\<rparr>)"
  "(row_map s)(''last_rotation'' \<mapsto> FormatInt n) = row_map (s\<lparr>s_LastRotation := n\<rparr>)"
  by (auto simp: row_fields_def row_map_def fun_eq_iff)

section \<open>View and invariant\<close>

definition redis_view :: "string \<Rightarrow> keyspace \<Rightarrow> view" where
  "redis_view p K = \<lparr>
     v_session = (\<lambda>sid. if plain sid \<and> K (sessKey p sid) \<noteq> None then Some (row_of sid (hash_of (K (sessKey p sid)))) else None),
     v_key = (\<lambda>k. string_of (K (keyKey p k))),
     v_cookie = (\<lambda>sid. if plain sid then hash_of (K (attrKey p sid)) else Map.empty),
     v_sha = (\<lambda>sid. if plain sid then hash_of (K (shaKey p sid)) else Map.empty),
     v_owner = (\<lambda>o'. set_of (K (ownerKey p o'))),
     v_lock = {sid. K (lockKey p sid) \<noteq> None}\<rparr>"

definition row_ok :: "string \<Rightarrow> keyspace \<Rightarrow> string \<Rightarrow> bool" where
  "row_ok p K sid \<longleftrightarrow> K (sessKey p sid) = None \<or>
     (\<exists>s. s_ID s = sid \<and> typed_row s \<and> K (sessKey p sid) = Some (RHash (row_map s)))"

definition redis_ok :: "string \<Rightarrow> keyspace \<Rightarrow> bool" where
  "redis_ok p K \<longleftrightarrow>
     (\<forall>sid. plain sid \<longrightarrow> row_ok p K sid \<and> typed ''hash'' (K (attrKey p sid)) \<and> typed ''hash'' (K (shaKey p sid)) \<and>
        typed ''set'' (K (keysKey p sid)) \<and> set_of (K (keysKey p sid)) = {k. K (keyKey p k) = Some (RString sid)}) \<and>
     (\<forall>k. typed ''string'' (K (keyKey p k)) \<and> (\<forall>sid. K (keyKey p k) = Some (RString sid) \<longrightarrow> plain sid)) \<and>
     (\<forall>o'. typed ''set'' (K (ownerKey p o'))) \<and> (\<forall>sid. typed ''string'' (K (lockKey p sid)))"

lemma redis_okD:
  assumes "redis_ok p K"
  shows "plain sid \<Longrightarrow> row_ok p K sid" "plain sid \<Longrightarrow> typed ''hash'' (K (attrKey p sid))" "plain sid \<Longrightarrow> typed ''hash'' (K (shaKey p sid))"
    "plain sid \<Longrightarrow> typed ''set'' (K (keysKey p sid))" "plain sid \<Longrightarrow> set_of (K (keysKey p sid)) = {k. K (keyKey p k) = Some (RString sid)}"
    "typed ''string'' (K (keyKey p k))" "K (keyKey p k) = Some (RString sid) \<Longrightarrow> plain sid"
    "typed ''set'' (K (ownerKey p o'))" "typed ''string'' (K (lockKey p sid))"
    "plain sid \<Longrightarrow> typed ''hash'' (K (sessKey p sid))"
  using assms unfolding redis_ok_def by (blast, blast, blast, blast, blast, blast, blast, blast, blast, force simp: row_ok_def)

lemma empty_redis: "redis_ok p Map.empty" "redis_view p Map.empty = empty_view"
  by (simp_all add: redis_ok_def row_ok_def redis_view_def empty_view_def fun_eq_iff)

lemma view_session_Some:
  assumes "redis_ok p K" "plain sid"
  shows "v_session (redis_view p K) sid = Some s \<longleftrightarrow> s_ID s = sid \<and> typed_row s \<and> K (sessKey p sid) = Some (RHash (row_map s))"
  using redis_okD(1) [OF assms] assms(2) row_map_inj by (auto simp: redis_view_def row_ok_def row_of_map)

lemma view_session_None: "plain sid \<Longrightarrow> v_session (redis_view p K) sid = None \<longleftrightarrow> K (sessKey p sid) = None"
  by (simp add: redis_view_def)

section \<open>Updates\<close>

lemma row_ok_other: "plain sid \<Longrightarrow> K' (sessKey p sid) = K (sessKey p sid) \<Longrightarrow> row_ok p K sid \<Longrightarrow> row_ok p K' sid"
  by (simp add: row_ok_def)

lemma put_row:
  assumes ok: "redis_ok p K" and s: "plain (s_ID s)" "typed_row s"
  defines "K' \<equiv> K(sessKey p (s_ID s) \<mapsto> RHash (row_map s))"
  shows "redis_ok p K' \<and> redis_view p K' = (redis_view p K)\<lparr>v_session := (v_session (redis_view p K))(s_ID s \<mapsto> s)\<rparr>"
proof
  have row: "row_ok p K' sid" if "plain sid" for sid
    using redis_okD(1) [OF ok that] s by (cases "sid = s_ID s") (auto simp: K'_def row_ok_def)
  show "redis_ok p K'"
    using ok s row unfolding redis_ok_def by (auto simp: K'_def)
  show "redis_view p K' = (redis_view p K)\<lparr>v_session := (v_session (redis_view p K))(s_ID s \<mapsto> s)\<rparr>"
    using s by (auto simp: K'_def redis_view_def row_of_map fun_eq_iff)
qed

lemma bind_key:
  assumes ok: "redis_ok p K" and sid: "plain sid" and free: "string_of (K (keyKey p k)) \<in> {None, Some sid}"
  defines "K' \<equiv> ks_sadd (keysKey p sid) k (ks_set (keyKey p k) sid K)"
  shows "redis_ok p K' \<and> redis_view p K' = (redis_view p K)\<lparr>v_key := (v_key (redis_view p K))(k \<mapsto> sid)\<rparr>"
proof
  have k: "K (keyKey p k) = None \<or> K (keyKey p k) = Some (RString sid)"
    using redis_okD(6) [OF ok, of k] free by (auto elim: typedE(3))
  have "row_ok p K' x" if "plain x" for x using redis_okD(1) [OF ok that] that by (simp add: K'_def row_ok_def)
  then show "redis_ok p K'"
    using ok sid k unfolding redis_ok_def by (auto simp: K'_def)
  show "redis_view p K' = (redis_view p K)\<lparr>v_key := (v_key (redis_view p K))(k \<mapsto> sid)\<rparr>"
    using sid by (auto simp: K'_def redis_view_def fun_eq_iff)
qed

lemma unbind_key:
  assumes ok: "redis_ok p K" and k: "K (keyKey p k) = Some (RString sid)"
  defines "K' \<equiv> ks_srem (keysKey p sid) k (ks_del {keyKey p k} K)"
  shows "redis_ok p K' \<and> redis_view p K' = (redis_view p K)\<lparr>v_key := (v_key (redis_view p K))(k := None)\<rparr>"
proof
  have sid: "plain sid" by (rule redis_okD(7) [OF ok k])
  have "row_ok p K' x" if "plain x" for x using redis_okD(1) [OF ok that] that by (simp add: K'_def row_ok_def)
  then show "redis_ok p K'"
    using ok sid k unfolding redis_ok_def by (auto simp: K'_def)
  show "redis_view p K' = (redis_view p K)\<lparr>v_key := (v_key (redis_view p K))(k := None)\<rparr>"
    using sid by (auto simp: K'_def redis_view_def fun_eq_iff)
qed

lemma swap_key:
  assumes ok: "redis_ok p K" and old: "K (keyKey p old) = Some (RString sid)" and new: "K (keyKey p new) = None"
  defines "K' \<equiv> ks_swap (keyKey p old) (keyKey p new) (keysKey p sid) sid old new K"
  shows "redis_ok p K' \<and> redis_view p K' = (redis_view p K)\<lparr>v_key := (v_key (redis_view p K))(new \<mapsto> sid, old := None)\<rparr>"
proof -
  have ne: "new \<noteq> old" using old new by auto
  define K1 where "K1 = ks_srem (keysKey p sid) old (ks_del {keyKey p old} K)"
  have K': "K' = ks_sadd (keysKey p sid) new (ks_set (keyKey p new) sid K1)"
    using ne by (auto simp: K'_def K1_def ks_swap_def fun_eq_iff)
  have one: "redis_ok p K1" "redis_view p K1 = (redis_view p K)\<lparr>v_key := (v_key (redis_view p K))(old := None)\<rparr>"
    using unbind_key [OF ok old] by (simp_all add: K1_def)
  have free: "string_of (K1 (keyKey p new)) \<in> {None, Some sid}" using new by (simp add: K1_def)
  show ?thesis unfolding K' using bind_key [OF one(1) redis_okD(7) [OF ok old] free] ne
    by (simp add: one(2) fun_upd_twist)
qed

lemma set_cookie:
  assumes ok: "redis_ok p K" and sid: "plain sid"
    and K': "K' = (if del then ks_hdel (shaKey p sid) name (ks_hdel (attrKey p sid) name K)
      else ks_hset (shaKey p sid) [(name, sha)] (ks_hset (attrKey p sid) [(name, val)] K))"
  shows "redis_ok p K' \<and> redis_view p K' = (redis_view p K)\<lparr>
    v_cookie := (v_cookie (redis_view p K))(sid := (v_cookie (redis_view p K) sid)(name := (if del then None else Some val))),
    v_sha := (v_sha (redis_view p K))(sid := (v_sha (redis_view p K) sid)(name := (if del then None else Some sha)))\<rparr>"
proof
  have "row_ok p K' x" if "plain x" for x using redis_okD(1) [OF ok that] that by (simp add: K' row_ok_def)
  then show "redis_ok p K'"
    using ok sid unfolding redis_ok_def by (auto simp: K')
  show "redis_view p K' = (redis_view p K)\<lparr>
    v_cookie := (v_cookie (redis_view p K))(sid := (v_cookie (redis_view p K) sid)(name := (if del then None else Some val))),
    v_sha := (v_sha (redis_view p K))(sid := (v_sha (redis_view p K) sid)(name := (if del then None else Some sha)))\<rparr>"
    using sid by (auto simp: K' redis_view_def fun_eq_iff hset_all_def)
qed

lemma set_cookies:
  fixes cs
  assumes "redis_ok p K" "plain sid"
  defines "K' \<equiv> ks_cookies (attrKey p sid) (shaKey p sid) cs K"
  shows "redis_ok p K' \<and> redis_view p K' = (redis_view p K)\<lparr>
    v_cookie := (v_cookie (redis_view p K))(sid := spec_values cs (v_cookie (redis_view p K) sid)),
    v_sha := (v_sha (redis_view p K))(sid := spec_hashes cs (v_sha (redis_view p K) sid))\<rparr>"
  unfolding K'_def using assms(1)
proof (induction cs arbitrary: K)
  case (Cons c cs)
  define K1 where "K1 = (if cm_Delete c then ks_hdel (shaKey p sid) (cm_Name c) (ks_hdel (attrKey p sid) (cm_Name c) K)
      else ks_hset (shaKey p sid) [(cm_Name c, cm_SHA c)] (ks_hset (attrKey p sid) [(cm_Name c, cm_Value c)] K))"
  note one = set_cookie [OF Cons.prems assms(2) K1_def]
  show ?case unfolding ks_cookies.simps K1_def [symmetric]
  proof
    show "redis_ok p (ks_cookies (attrKey p sid) (shaKey p sid) cs K1)" using Cons.IH [OF conjunct1 [OF one]] by blast
    show "redis_view p (ks_cookies (attrKey p sid) (shaKey p sid) cs K1) = (redis_view p K)\<lparr>
      v_cookie := (v_cookie (redis_view p K))(sid := spec_values (c # cs) (v_cookie (redis_view p K) sid)),
      v_sha := (v_sha (redis_view p K))(sid := spec_hashes (c # cs) (v_sha (redis_view p K) sid))\<rparr>"
      unfolding conjunct2 [OF Cons.IH [OF conjunct1 [OF one]]] conjunct2 [OF one] by (cases "cm_Delete c") simp_all
  qed
qed (auto intro: view_eqI)

lemma change_owner:
  fixes o' :: int64
  assumes ok: "redis_ok p K" and x: "typed ''set'' x"
  defines "K' \<equiv> K(ownerKey p o' := x)"
  shows "redis_ok p K' \<and> redis_view p K' = (redis_view p K)\<lparr>v_owner := (v_owner (redis_view p K))(o' := set_of x)\<rparr>"
proof
  have "row_ok p K' y" if "plain y" for y using redis_okD(1) [OF ok that] that by (simp add: K'_def row_ok_def)
  then show "redis_ok p K'" using ok x unfolding redis_ok_def by (auto simp: K'_def)
  show "redis_view p K' = (redis_view p K)\<lparr>v_owner := (v_owner (redis_view p K))(o' := set_of x)\<rparr>"
    by (auto simp: K'_def redis_view_def fun_eq_iff)
qed

lemma remove_rows:
  assumes ok: "redis_ok p K" and sid: "plain sid"
  defines "K' \<equiv> ks_del {sessKey p sid, attrKey p sid, shaKey p sid, keysKey p sid} (ks_del (keyKey p ` set_of (K (keysKey p sid))) K)"
  shows "redis_ok p K' \<and> redis_view p K' = (redis_view p K)\<lparr>v_session := (v_session (redis_view p K))(sid := None),
    v_key := (\<lambda>k. if v_key (redis_view p K) k = Some sid then None else v_key (redis_view p K) k),
    v_cookie := (v_cookie (redis_view p K))(sid := Map.empty), v_sha := (v_sha (redis_view p K))(sid := Map.empty)\<rparr>"
proof
  have S: "set_of (K (keysKey p sid)) = {k. K (keyKey p k) = Some (RString sid)}" by (rule redis_okD(5) [OF ok sid])
  have "row_ok p K' y" if "plain y" for y using redis_okD(1) [OF ok that] that by (auto simp: K'_def row_ok_def)
  then show "redis_ok p K'" using ok sid S unfolding redis_ok_def by (auto simp: K'_def)
  have "string_of (K (keyKey p k)) = Some sid \<longleftrightarrow> K (keyKey p k) = Some (RString sid)" for k
    using redis_okD(6) [OF ok, of k] by (auto elim: typedE(3))
  then show "redis_view p K' = (redis_view p K)\<lparr>v_session := (v_session (redis_view p K))(sid := None),
    v_key := (\<lambda>k. if v_key (redis_view p K) k = Some sid then None else v_key (redis_view p K) k),
    v_cookie := (v_cookie (redis_view p K))(sid := Map.empty), v_sha := (v_sha (redis_view p K))(sid := Map.empty)\<rparr>"
    using sid S by (auto simp: K'_def redis_view_def fun_eq_iff)
qed

end
