(* ===== verification/Redis_Refinement.thy ===== *)
theory Redis_Refinement
  imports Redis_View
begin

text \<open>
  The Redis store implements the abstract calls: on every server that obeys the laws, each admissible
  call either has exactly its abstract effect or changes nothing.
\<close>

section \<open>Writing one row\<close>

lemma typed_row_update:
  "typed_row s \<Longrightarrow> small n \<Longrightarrow> typed_row (s\<lparr>s_LastAccess := n\<rparr>)" "typed_row s \<Longrightarrow> small n \<Longrightarrow> typed_row (s\<lparr>s_LastRotation := n\<rparr>)"
  "typed_row s \<Longrightarrow> is_i64 n \<Longrightarrow> 0 \<le> n \<Longrightarrow> typed_row (s\<lparr>s_OwnerID := n\<rparr>)" "typed_row s \<Longrightarrow> typed_row (s\<lparr>s_Labels := l\<rparr>)"
  by (simp_all add: typed_row_def)

text \<open>The index sets.\<close>

lemma add_owner:
  "redis_ok p K \<Longrightarrow> redis_ok p (ks_sadd (ownerKey p o') sid K) \<and> redis_view p (ks_sadd (ownerKey p o') sid K) =
     (redis_view p K)\<lparr>v_owner := (v_owner (redis_view p K))(o' := insert sid (v_owner (redis_view p K) o'))\<rparr>"
  using change_owner [of p K "Some (RSet (insert sid (set_of (K (ownerKey p o')))))" o']
  by (simp add: ks_sadd_def redis_view_def)

lemma remove_owner:
  "redis_ok p K \<Longrightarrow> redis_ok p (ks_srem (ownerKey p o') sid K) \<and> redis_view p (ks_srem (ownerKey p o') sid K) =
     (redis_view p K)\<lparr>v_owner := (v_owner (redis_view p K))(o' := v_owner (redis_view p K) o' - {sid})\<rparr>"
  using change_owner [of p K "set_value (set_of (K (ownerKey p o')) - {sid})" o'] by (simp add: ks_srem_def redis_view_def)

definition row_owner :: "view \<Rightarrow> string \<Rightarrow> int64" where
  "row_owner v sid = (case v_session v sid of None \<Rightarrow> 0 | Some r \<Rightarrow> s_OwnerID r)"

lemma FormatInt_0: "FormatInt 0 = ''0''"
  by (simp only: FormatInt_zero)

lemma owner_append: "(p @ ''owner:'') @ FormatInt n = ownerKey p n"
  by (simp add: ownerKey_def)

lemma stored_owner:
  assumes "redis_ok p K" "plain sid"
  shows "or0 (hash_of (K (sessKey p sid)) ''owner_id'') = FormatInt (row_owner (redis_view p K) sid)"
  using redis_okD(1) [OF assms] view_session_Some [OF assms] view_session_None [OF assms(2), of p K]
  by (auto simp: row_ok_def row_owner_def or0_def FormatInt_0 split: option.splits)

lemma key_image: "(@) (p @ ''key:'') ` S = keyKey p ` S"
  by (simp add: keyKey_def)

text \<open>The keyspace shows \<open>v\<close>, with the row \<open>r\<close> for one session.\<close>

definition at_row :: "string \<Rightarrow> keyspace \<Rightarrow> view \<Rightarrow> string \<Rightarrow> Session \<Rightarrow> bool" where
  "at_row p K v sid r \<longleftrightarrow> redis_ok p K \<and> redis_view p K = v\<lparr>v_session := (v_session v)(sid \<mapsto> r)\<rparr> \<and>
     plain sid \<and> typed_row r \<and> s_ID r = sid"

lemma at_row_start:
  assumes "redis_ok p K" "plain sid" "v_session (redis_view p K) sid = Some r"
  shows "at_row p K (redis_view p K) sid r" "K (sessKey p sid) = Some (RHash (row_map r))"
  using iffD1 [OF view_session_Some [OF assms(1,2)] assms(3)] assms by (auto simp: at_row_def fun_upd_idem intro!: view_eqI)

lemma at_row_put:
  assumes "at_row p K v sid r" and new: "(row_map r)(f \<mapsto> t) = row_map r'" "typed_row r'" "s_ID r' = sid"
  shows "at_row p (ks_hset (sessKey p sid) [(f, t)] K) v sid r'"
proof -
  have ok: "redis_ok p K" "plain sid" and v: "redis_view p K = v\<lparr>v_session := (v_session v)(sid \<mapsto> r)\<rparr>"
    using assms(1) by (simp_all add: at_row_def)
  have "K (sessKey p sid) = Some (RHash (row_map r))" by (rule at_row_start(2) [OF ok]) (simp add: v)
  then have "ks_hset (sessKey p sid) [(f, t)] K = K(sessKey p (s_ID r') \<mapsto> RHash (row_map r'))"
    using new by (simp add: ks_hset_def hset_all_def)
  with put_row [OF ok(1), of r'] ok(2) new v show ?thesis by (simp add: at_row_def)
qed

lemma at_row_field:
  assumes "at_row p K v sid r"
  shows "is_i64 n \<Longrightarrow> 0 \<le> n \<Longrightarrow> at_row p (ks_hset (sessKey p sid) [(''owner_id'', FormatInt n)] K) v sid (r\<lparr>s_OwnerID := n\<rparr>)"
    "at_row p (ks_hset (sessKey p sid) [(''labels'', l)] K) v sid (r\<lparr>s_Labels := l\<rparr>)"
    "small n \<Longrightarrow> at_row p (ks_hset (sessKey p sid) [(''last_access'', FormatInt n)] K) v sid (r\<lparr>s_LastAccess := n\<rparr>)"
    "small n \<Longrightarrow> at_row p (ks_hset (sessKey p sid) [(''last_rotation'', FormatInt n)] K) v sid (r\<lparr>s_LastRotation := n\<rparr>)"
proof -
  have r: "typed_row r" "s_ID r = sid" using assms by (simp_all add: at_row_def)
  note put = at_row_put [OF assms row_map_update(1)] at_row_put [OF assms row_map_update(2)]
    at_row_put [OF assms row_map_update(3)] at_row_put [OF assms row_map_update(4)]
  show "is_i64 n \<Longrightarrow> 0 \<le> n \<Longrightarrow> at_row p (ks_hset (sessKey p sid) [(''owner_id'', FormatInt n)] K) v sid (r\<lparr>s_OwnerID := n\<rparr>)"
    "at_row p (ks_hset (sessKey p sid) [(''labels'', l)] K) v sid (r\<lparr>s_Labels := l\<rparr>)"
    "small n \<Longrightarrow> at_row p (ks_hset (sessKey p sid) [(''last_access'', FormatInt n)] K) v sid (r\<lparr>s_LastAccess := n\<rparr>)"
    "small n \<Longrightarrow> at_row p (ks_hset (sessKey p sid) [(''last_rotation'', FormatInt n)] K) v sid (r\<lparr>s_LastRotation := n\<rparr>)"
    using put r by (simp_all add: typed_row_update)
qed

lemma at_row_raise:
  assumes "at_row p K v sid r"
  shows "s_Labels r = m \<Longrightarrow> at_row p (raise (sessKey p sid) ''labels'' l b K) v sid (r\<lparr>s_Labels := if b then l else m\<rparr>)"
    "small n \<Longrightarrow> s_LastAccess r = k \<Longrightarrow>
      at_row p (raise (sessKey p sid) ''last_access'' (FormatInt n) (k < n) K) v sid (r\<lparr>s_LastAccess := max k n\<rparr>)"
    "small n \<Longrightarrow> s_LastRotation r = k \<Longrightarrow>
      at_row p (raise (sessKey p sid) ''last_rotation'' (FormatInt n) (k < n) K) v sid (r\<lparr>s_LastRotation := max k n\<rparr>)"
    "small n \<Longrightarrow> s_LastRotation r = k \<Longrightarrow>
      at_row p (raise (sessKey p sid) ''last_rotation'' (FormatInt n) (k = 0) K) v sid (r\<lparr>s_LastRotation := if k = 0 then n else k\<rparr>)"
  using assms at_row_field [OF assms] by (auto simp: ks_if_def max_def)

lemma at_row_owner:
  assumes "at_row p K v sid r"
  shows "at_row p (ks_sadd (ownerKey p o') x K) (v\<lparr>v_owner := (v_owner v)(o' := insert x (v_owner v o'))\<rparr>) sid r"
    "at_row p (ks_srem (ownerKey p o') x K) (v\<lparr>v_owner := (v_owner v)(o' := v_owner v o' - {x})\<rparr>) sid r"
  using assms add_owner [of p K o' x] remove_owner [of p K o' x] by (simp_all add: at_row_def)

section \<open>Admissible calls\<close>

text \<open>
  Ids without a colon, times a double holds, owners that are not negative (and positive where an owner
  is named for deletion), and no key that already leads to another session.
\<close>

fun admissible :: "store_call \<Rightarrow> view \<Rightarrow> bool" where
  "admissible (CPutSession s) v \<longleftrightarrow> plain (s_ID s) \<and> typed_row s"
| "admissible (CTouchSession sid key la lr) v \<longleftrightarrow> plain sid \<and> small la \<and> small lr"
| "admissible (CApplyControls sid c) v \<longleftrightarrow> plain sid \<and> small (c_LastAccess c) \<and> small (c_LastRotation c) \<and>
     (c_SetOwner c \<longrightarrow> is_i64 (c_OwnerID c) \<and> 0 \<le> c_OwnerID c)"
| "admissible (CDeleteSession sid) v \<longleftrightarrow> plain sid"
| "admissible (CPutKey key sid) v \<longleftrightarrow> plain sid \<and> v_key v key \<in> {None, Some sid}"
| "admissible (CReplaceKey old new sid) v \<longleftrightarrow> plain sid"
| "admissible (CDeleteKey key) v \<longleftrightarrow> True"
| "admissible (CPutCookie sid name val sha) v \<longleftrightarrow> plain sid"
| "admissible (CDeleteCookie sid name) v \<longleftrightarrow> plain sid"
| "admissible (CAddOwner o' sid) v \<longleftrightarrow> True"
| "admissible (CRemoveOwner o' sid) v \<longleftrightarrow> True"
| "admissible (CReassignOwner s) v \<longleftrightarrow> plain (s_ID s) \<and> small (s_LastAccess s) \<and> small (s_LastRotation s) \<and>
     is_i64 (s_OwnerID s) \<and> 0 \<le> s_OwnerID s"
| "admissible (CDeleteByOwner o' sid) v \<longleftrightarrow> plain sid \<and> 0 < o'"

text \<open>The row's lifetime has run out by the server's clock, or the caller proposes none.\<close>

fun lapsed :: "'s Commands \<Rightarrow> string \<Rightarrow> duration \<Rightarrow> keyspace \<Rightarrow> 's \<Rightarrow> store_call \<Rightarrow> bool" where
  "lapsed R p t K s (CTouchSession sid key la lr) \<longleftrightarrow>
     row_ttl R (hash_of (K (sessKey p sid))) (FormatInt la) (FormatInt (Milliseconds t)) (r_TIME R s) \<le> 0"
| "lapsed R p t K s (CApplyControls sid c) \<longleftrightarrow> dbl (Milliseconds t) \<le> 0 \<or>
     row_ttl R (hash_of (K (sessKey p sid))) (FormatInt (c_LastAccess c)) (FormatInt (Milliseconds t)) (r_TIME R s) \<le> 0"
| "lapsed R p t K s (CReassignOwner r) \<longleftrightarrow>
     row_ttl R (hash_of (K (sessKey p (s_ID r)))) (FormatInt (s_LastAccess r)) (FormatInt (Milliseconds t)) (r_TIME R s) \<le> 0"
| "lapsed R p t K s (CPutKey key sid) \<longleftrightarrow> r_PTTL R (sessKey p sid) s = 0"
| "lapsed R p t K s (CReplaceKey old new sid) \<longleftrightarrow> r_PTTL R (sessKey p sid) s = 0"
| "lapsed R p t K s (CPutCookie sid name val sha) \<longleftrightarrow> r_PTTL R (sessKey p sid) s = 0"
| "lapsed R p t K s _ \<longleftrightarrow> False"

text \<open>A script that implements a call: exactly its effect when the call is allowed and the row is live,
  and otherwise no change, with the reply 0 for a missing session and -1 for a lost comparison.\<close>

definition implements :: "('s \<Rightarrow> keyspace) \<Rightarrow> string \<Rightarrow> store_call \<Rightarrow> bool \<Rightarrow> 's script \<Rightarrow> 's \<Rightarrow> bool" where
  "implements ks p c late f s \<longleftrightarrow>
     (let v = redis_view p (ks s); K' = ks (fst (f s))
      in if call_ok c v \<and> \<not> late then redis_ok p K' \<and> redis_view p K' = call_effect c v \<and> snd (f s) = Inr 1
         else K' = ks s \<and> (late \<and> snd (f s) = Inr 0 \<or>
           \<not> call_ok c v \<and> snd (f s) = Inr (if v_session v (call_session c) = None then 0 else - 1)))"

lemma reassign_view:
  assumes ok: "redis_ok p K" and a: "admissible (CReassignOwner r) v" and q: "v_session (redis_view p K) (s_ID r) = Some q"
  defines "sk \<equiv> sessKey p (s_ID r)"
  defines "K1 \<equiv> ks_hset sk [(''owner_id'', FormatInt (s_OwnerID r))] K"
  defines "K2 \<equiv> raise sk ''last_access'' (FormatInt (s_LastAccess r)) (s_LastAccess q < s_LastAccess r) K1"
  defines "K3 \<equiv> raise sk ''last_rotation'' (FormatInt (s_LastRotation r)) (s_LastRotation q < s_LastRotation r) K2"
  defines "K4 \<equiv> ks_sadd (ownerKey p (s_OwnerID r)) (s_ID r) K3"
  defines "K5 \<equiv> ks_if (FormatInt (s_OwnerID q) \<noteq> ''0'' \<and> FormatInt (s_OwnerID q) \<noteq> FormatInt (s_OwnerID r))
    (ks_srem (ownerKey p (s_OwnerID q)) (s_ID r)) K4"
  shows "redis_ok p K5 \<and> redis_view p K5 = call_effect (CReassignOwner r) (redis_view p K)"
proof -
  let ?v = "redis_view p K" and ?sid = "s_ID r"
  have sid: "plain ?sid" using a by simp
  note start = at_row_start [OF ok sid q]
  have row: "typed_row q" using start(1) by (simp add: at_row_def)
  have 1: "at_row p K1 ?v ?sid (q\<lparr>s_OwnerID := s_OwnerID r\<rparr>)" unfolding K1_def sk_def using a by (intro at_row_field(1) [OF start(1)]) simp_all
  have 2: "at_row p K2 ?v ?sid (q\<lparr>s_OwnerID := s_OwnerID r, s_LastAccess := max (s_LastAccess q) (s_LastAccess r)\<rparr>)"
    using at_row_raise(2) [OF 1, of "s_LastAccess r" "s_LastAccess q"] a by (simp add: K2_def sk_def)
  let ?q = "q\<lparr>s_OwnerID := s_OwnerID r, s_LastAccess := max (s_LastAccess q) (s_LastAccess r),
      s_LastRotation := max (s_LastRotation q) (s_LastRotation r)\<rparr>"
  have 3: "at_row p K3 ?v ?sid ?q"
    using at_row_raise(3) [OF 2, of "s_LastRotation r" "s_LastRotation q"] a by (simp add: K3_def sk_def)
  note 4 = at_row_owner(1) [OF 3, of "s_OwnerID r" ?sid, folded K4_def]
  have pos: "0 < s_OwnerID q \<longleftrightarrow> s_OwnerID q \<noteq> 0" using row by (auto simp: typed_row_def)
  show ?thesis
  proof (cases "s_OwnerID q \<noteq> 0 \<and> s_OwnerID q \<noteq> s_OwnerID r")
    case True
    then have "K5 = ks_srem (ownerKey p (s_OwnerID q)) ?sid K4" by (simp add: K5_def ks_if_def)
    with at_row_owner(2) [OF 4, of "s_OwnerID q" ?sid] True show ?thesis
      by (simp add: at_row_def q pos Let_def fun_upd_twist)
  next
    case False
    then have "K5 = K4" by (auto simp: K5_def ks_if_def)
    moreover have "(0 < s_OwnerID q \<and> s_OwnerID q \<noteq> s_OwnerID r) = False" using False pos by simp
    ultimately show ?thesis using 4 by (simp add: at_row_def q Let_def)
  qed
qed

text \<open>The writes of \<open>applySessionControlsScript\<close>: owner, labels and times of the row, then the keys, then the cookies.\<close>

lemma redis_move_owner:
  assumes at: "at_row p K v sid r" and n: "is_i64 n" "0 \<le> n" "n \<noteq> s_OwnerID r"
  shows "at_row p (ks_move_owner (sessKey p sid) (p @ ''owner:'') (FormatInt (s_OwnerID r)) (FormatInt n) sid K)
    (v\<lparr>v_owner := spec_move_owner sid (s_OwnerID r) n (v_owner v)\<rparr>) sid (r\<lparr>s_OwnerID := n\<rparr>)"
proof -
  note 2 = at_row_owner(1) [OF at_row_field(1) [OF at n(1,2)], of n sid]
  show ?thesis
    using 2 at_row_owner(2) [OF 2, of "s_OwnerID r" sid] n(3)
    unfolding ks_move_owner_def owner_append by (simp add: ks_if_def spec_move_owner_def Let_def fun_upd_twist)
qed

lemma row_view:
  fixes t t' :: duration
  assumes at: "at_row p K v sid r" and c: "admissible (CApplyControls sid c) v'"
  defines "a \<equiv> control_args p sid c t t'"
  shows "at_row p (ks_row (sessKey p sid) a (FormatInt (s_OwnerID r)) (s_LastAccess r < c_LastAccess c) (s_LastRotation r < c_LastRotation c) K)
    (v\<lparr>v_owner := (if c_SetOwner c \<and> c_OwnerID c \<noteq> s_OwnerID r then spec_move_owner sid (s_OwnerID r) (c_OwnerID c) (v_owner v)
       else v_owner v)\<rparr>) sid (spec_row c r)"
proof -
  let ?v = "v\<lparr>v_owner := (if c_SetOwner c \<and> c_OwnerID c \<noteq> s_OwnerID r then spec_move_owner sid (s_OwnerID r) (c_OwnerID c) (v_owner v)
       else v_owner v)\<rparr>"
  let ?r = "r\<lparr>s_OwnerID := (if c_SetOwner c then c_OwnerID c else s_OwnerID r)\<rparr>"
  let ?K1 = "ks_if (c_SetOwner c \<and> FormatInt (s_OwnerID r) \<noteq> FormatInt (c_OwnerID c))
      (ks_move_owner (sessKey p sid) (p @ ''owner:'') (FormatInt (s_OwnerID r)) (FormatInt (c_OwnerID c)) sid) K"
  have 1: "at_row p ?K1 ?v sid ?r"
  proof (cases "c_SetOwner c \<and> c_OwnerID c \<noteq> s_OwnerID r")
    case True
    with redis_move_owner [OF at, of "c_OwnerID c"] c show ?thesis by (simp add: ks_if_def)
  next
    case False
    then have "?K1 = K" "?v = v" "?r = r" by (auto simp: ks_if_def)
    with at show ?thesis by simp
  qed
  have sm: "small (c_LastAccess c)" "small (c_LastRotation c)" using c by simp_all
  note 2 = at_row_raise(1) [OF 1, where m = "s_Labels r" and l = "c_Labels c" and b = "c_SetLabels c"]
  note 3 = at_row_raise(2) [OF 2 sm(1), of "s_LastAccess r"]
  note 4 = at_row_raise(3) [OF 3 sm(2), of "s_LastRotation r"]
  from 4 show ?thesis by (simp add: ks_row_def a_def control_args_def spec_row_def)
qed

lemma controls_view:
  fixes t t' :: duration
  assumes ok: "redis_ok p K" and c: "admissible (CApplyControls sid c) v'" and r: "v_session (redis_view p K) sid = Some r"
    and live: "call_ok (CApplyControls sid c) (redis_view p K)"
  defines "a \<equiv> control_args p sid c t t'"
  defines "K' \<equiv> ks_controls (sessKey p sid) (keyKey p (ca_old a)) (keyKey p (ca_new a)) (attrKey p sid) (shaKey p sid) (keysKey p sid) a
    (FormatInt (s_OwnerID r)) (s_LastAccess r < c_LastAccess c) (s_LastRotation r < c_LastRotation c) K"
  shows "redis_ok p K' \<and> redis_view p K' = call_effect (CApplyControls sid c) (redis_view p K)"
proof -
  let ?v = "redis_view p K"
  have sid: "plain sid" using c by simp
  define K1 where "K1 = ks_row (sessKey p sid) a (FormatInt (s_OwnerID r)) (s_LastAccess r < c_LastAccess c) (s_LastRotation r < c_LastRotation c) K"
  define K2 where "K2 = ks_if (c_Rotate c) (ks_swap (keyKey p (ca_old a)) (keyKey p (ca_new a)) (keysKey p sid) sid (ca_old a) (ca_new a)) K1"
  have 1: "redis_ok p K1" "redis_view p K1 = ?v\<lparr>v_session := (v_session ?v)(sid \<mapsto> spec_row c r),
      v_owner := (if c_SetOwner c \<and> c_OwnerID c \<noteq> s_OwnerID r then spec_move_owner sid (s_OwnerID r) (c_OwnerID c) (v_owner ?v) else v_owner ?v)\<rparr>"
    using row_view [OF at_row_start(1) [OF ok sid r] c, of t t'] by (simp_all add: at_row_def K1_def a_def)
  have key: "string_of (K1 (keyKey p k)) = v_key ?v k" for k
    using arg_cong [OF 1(2), where f = "\<lambda>v. v_key v k"] by (simp add: redis_view_def)
  have old: "K1 (keyKey p (c_OldKeyID c)) = Some (RString sid)"
    using key [of "c_OldKeyID c"] live redis_okD(6) [OF 1(1), of "c_OldKeyID c"] by (auto elim: typedE(3))
  have new: "K1 (keyKey p (c_NewKeyID c)) = None" if "c_Rotate c"
    using key [of "c_NewKeyID c"] live that redis_okD(6) [OF 1(1), of "c_NewKeyID c"] by (auto elim: typedE(3))
  have 2: "redis_ok p K2" "redis_view p K2 = (redis_view p K1)\<lparr>
      v_key := (if c_Rotate c then (v_key ?v)(c_NewKeyID c \<mapsto> sid, c_OldKeyID c := None) else v_key ?v)\<rparr>"
    using swap_key [OF 1(1) old new] 1 by (cases "c_Rotate c"; simp add: K2_def ks_if_def a_def control_args_def)+
  have K': "K' = ks_cookies (attrKey p sid) (shaKey p sid) (c_Cookies c) K2"
    by (simp add: K'_def ks_controls_def K1_def K2_def a_def control_args_def)
  show ?thesis unfolding K' using set_cookies [OF 2(1) sid, of "c_Cookies c"] r
    by (simp add: 2(2) 1(2) spec_controls_def)
qed

context redis_server
begin

section \<open>One call at a time\<close>

lemma put_implements:
  assumes ok: "redis_ok p (ks s)" and r: "plain (s_ID r)" "typed_row r"
  shows "implements ks p (CPutSession r) False (putSessionScript R (sessKey p (s_ID r)) (row_fields r) (FormatInt n)) s"
proof -
  let ?K = "ks s" and ?k = "sessKey p (s_ID r)"
  have "row_ok p ?K (s_ID r)" by (rule redis_okD(1) [OF ok r(1)])
  then have "ks_hset ?k (row_fields r) ?K = ?K(?k \<mapsto> RHash (row_map r))"
    by (auto simp: row_ok_def ks_hset_def row_map_put)
  moreover have "row_fields r \<noteq> []" by (simp add: row_fields_def)
  ultimately show ?thesis
    using putSession_run [of s ?k "row_fields r" n] redis_okD(10) [OF ok r(1)] put_row [OF ok r]
    by (simp add: implements_def Let_def)
qed

lemma touch_implements:
  assumes ok: "redis_ok p (ks s)" and a: "plain sid" "small la" "small lr"
  shows "implements ks p (CTouchSession sid key la lr) (lapsed R p t (ks s) s (CTouchSession sid key la lr))
    (touchSessionScript R (sessKey p sid) (keyKey p key) (attrKey p sid) (shaKey p sid) (keysKey p sid)
       (FormatInt la) (FormatInt lr) (FormatInt (Milliseconds t)) sid) s"
proof -
  let ?K = "ks s" and ?v = "redis_view p (ks s)" and ?c = "CTouchSession sid key la lr"
  let ?f = "touchSessionScript R (sessKey p sid) (keyKey p key) (attrKey p sid) (shaKey p sid) (keysKey p sid)
       (FormatInt la) (FormatInt lr) (FormatInt (Milliseconds t)) sid"
  let ?late = "lapsed R p t ?K s ?c"
  note T = redis_okD(10,6,2,3,4) [OF ok] a(1)
  have run: "?f s = (if ?K (sessKey p sid) = None then (s, Inr 0) else if string_of (?K (keyKey p key)) \<noteq> Some sid then (s, Inr (- 1))
     else if ?late then (s, Inr 0) else write_touch R (sessKey p sid) (keyKey p key) (attrKey p sid) (shaKey p sid) (keysKey p sid)
       (FormatInt la) (FormatInt lr) (number_or0 R (or0 (hash_of (?K (sessKey p sid)) ''last_access''))) (number_or0 R (FormatInt la))
       (row_ttl R (hash_of (?K (sessKey p sid))) (FormatInt la) (FormatInt (Milliseconds t)) (r_TIME R s)) s)"
    using T by (simp add: touch_checks)
  show ?thesis
  proof (cases "call_ok ?c ?v \<and> \<not> ?late")
    case False
    with run a(1) show ?thesis by (auto simp: implements_def Let_def redis_view_def split: if_splits)
  next
    case True
    then obtain r where r: "v_session ?v sid = Some r" by auto
    note start = at_row_start [OF ok a(1) r]
    have row: "typed_row r" using start(1) by (simp add: at_row_def)
    have sm: "small (s_LastAccess r)" "small (s_LastRotation r)" using row by (simp_all add: typed_row_def)
    let ?K1 = "raise (sessKey p sid) ''last_access'' (FormatInt la) (s_LastAccess r < la) ?K"
    let ?K2 = "raise (sessKey p sid) ''last_rotation'' (FormatInt lr) (s_LastRotation r = 0) ?K1"
    have at: "at_row p ?K2 ?v sid (spec_touch la lr r)"
      using at_row_raise(4) [OF at_row_raise(2) [OF start(1) a(2) refl] a(3), of "s_LastRotation r"] by (simp add: spec_touch_def)
    have "redis_ok p ?K2 \<and> redis_view p ?K2 = call_effect ?c ?v"
      using at r by (simp add: at_row_def)
    moreover have "ks (fst (?f s)) = ?K2 \<and> snd (?f s) = Inr 1"
    proof -
      have "leads ks (write_touch R (sessKey p sid) (keyKey p key) (attrKey p sid) (shaKey p sid) (keysKey p sid)
         (FormatInt la) (FormatInt lr) (number_or0 R (or0 (hash_of (?K (sessKey p sid)) ''last_access''))) (number_or0 R (FormatInt la))
         (row_ttl R (hash_of (?K (sessKey p sid))) (FormatInt la) (FormatInt (Milliseconds t)) (r_TIME R s))) ?K 1 ?K2"
        using touch_writes [of ?K "sessKey p sid"] True T(1) [OF a(1)] sm a
        by (simp add: start(2) or0_def tonumber not_le)
      from leads_run [OF this] run True start(2) show ?thesis by (simp add: redis_view_def)
    qed
    ultimately show ?thesis using True by (simp add: implements_def Let_def)
  qed
qed

lemma putKey_implements:
  assumes ok: "redis_ok p (ks s)" and a: "plain sid" "v_key (redis_view p (ks s)) key \<in> {None, Some sid}"
  shows "implements ks p (CPutKey key sid) (lapsed R p t (ks s) s (CPutKey key sid))
    (putKeyScript R (sessKey p sid) (keyKey p key) (keysKey p sid) sid key) s"
proof -
  have free: "string_of (ks s (keyKey p key)) \<in> {None, Some sid}" using a(2) by (simp add: redis_view_def)
  show ?thesis
    using putKey_runs [of s "sessKey p sid" "keyKey p key" "keysKey p sid" sid key] redis_okD(10,4) [OF ok a(1)] redis_okD(6) [OF ok]
      bind_key [OF ok a(1) free] view_session_None [OF a(1), of p "ks s"]
    by (simp add: implements_def Let_def split: if_splits)
qed

lemma replaceKey_implements:
  assumes ok: "redis_ok p (ks s)" and a: "plain sid"
  shows "implements ks p (CReplaceKey old new sid) (lapsed R p t (ks s) s (CReplaceKey old new sid))
    (replaceKeyScript R (sessKey p sid) (keyKey p old) (keyKey p new) (keysKey p sid) sid old new) s"
proof -
  let ?K = "ks s"
  have key: "string_of (?K (keyKey p k)) = Some x \<longleftrightarrow> ?K (keyKey p k) = Some (RString x)"
    "string_of (?K (keyKey p k)) = None \<longleftrightarrow> ?K (keyKey p k) = None" for k x
    using redis_okD(6) [OF ok, of k] by (auto elim: typedE(3))
  have v: "v_key (redis_view p ?K) k = string_of (?K (keyKey p k))" for k by (simp add: redis_view_def)
  note run = replaceKey_runs [of s "sessKey p sid" "keyKey p old" "keyKey p new" "keysKey p sid" sid old new]
  show ?thesis
    using run redis_okD(10,4) [OF ok a] redis_okD(6) [OF ok] swap_key [OF ok, of old sid new] view_session_None [OF a, of p ?K]
    by (simp add: implements_def Let_def v key split: if_splits)
qed

lemma putCookie_implements:
  assumes ok: "redis_ok p (ks s)" and a: "plain sid"
  shows "implements ks p (CPutCookie sid name val sha) (lapsed R p t (ks s) s (CPutCookie sid name val sha))
    (putCookieScript R (sessKey p sid) (attrKey p sid) (shaKey p sid) name val sha) s"
  using putCookie_runs [of s "sessKey p sid" "attrKey p sid" "shaKey p sid" name val sha] redis_okD(10,2,3) [OF ok a]
    set_cookie [OF ok a, of _ False name sha val, OF refl] view_session_None [OF a, of p "ks s"]
  by (simp add: implements_def Let_def split: if_splits)

lemma deleteKey_implements:
  assumes ok: "redis_ok p (ks s)"
  shows "implements ks p (CDeleteKey key) False (deleteKeyScript R (keyKey p key) (p @ ''sess:'') key) s"
proof -
  let ?K = "ks s" and ?f = "deleteKeyScript R (keyKey p key) (p @ ''sess:'') key"
  have rk: "(p @ ''sess:'') @ sid @ '':keys'' = keysKey p sid" for sid by (simp add: key_defs)
  have T: "typed ''set'' (?K ((p @ ''sess:'') @ sid @ '':keys''))" if "?K (keyKey p key) = Some (RString sid)" for sid
    unfolding rk using redis_okD(4) [OF ok redis_okD(7) [OF ok that]] .
  have "keyKey p key \<noteq> (p @ ''sess:'') @ x" for x by (simp add: keyKey_def)
  note run = deleteKey_runs [where kk = "keyKey p key" and sp = "p @ ''sess:''" and keyID = key, OF redis_okD(6) [OF ok] T this, unfolded rk]
  show ?thesis
  proof (rule typedE(3) [OF redis_okD(6) [OF ok, of key]])
    assume k: "?K (keyKey p key) = None"
    then have "redis_view p ?K = (redis_view p ?K)\<lparr>v_key := (v_key (redis_view p ?K))(key := None)\<rparr>"
      by (auto simp: redis_view_def fun_eq_iff)
    with run k ok show ?thesis by (simp add: implements_def Let_def)
  next
    fix sid assume k: "?K (keyKey p key) = Some (RString sid)"
    with run unbind_key [OF ok k] show ?thesis by (simp add: implements_def Let_def)
  qed
qed

lemma deleteCookie_implements:
  assumes ok: "redis_ok p (ks s)" and a: "plain sid"
  shows "implements ks p (CDeleteCookie sid name) False (deleteCookieScript R (attrKey p sid) (shaKey p sid) name) s"
  using leads_run [OF deleteCookie_runs [where ak = "attrKey p sid" and hk = "shaKey p sid" and K = "ks s" and name = name]]
    redis_okD(2,3) [OF ok a] set_cookie [OF ok a, of _ True name, OF refl] by (simp add: implements_def Let_def)

lemma addOwner_implements:
  assumes ok: "redis_ok p (ks s)"
  shows "implements ks p (CAddOwner o' sid) False (addOwnerIndexScript R (ownerKey p o') sid (FormatInt n)) s"
  using leads_run [OF addOwner_runs [where k = "ownerKey p o'" and K = "ks s" and sid = sid and n = n]]
    redis_okD(8) [OF ok, of o'] add_owner [OF ok, of o' sid] by (simp add: implements_def Let_def)

lemma delete_implements:
  assumes ok: "redis_ok p (ks s)" and a: "plain sid"
  shows "implements ks p (CDeleteSession sid) False
    (deleteSessionScript R (sessKey p sid) (attrKey p sid) (shaKey p sid) (keysKey p sid) (p @ ''key:'') (p @ ''owner:'') sid) s"
proof -
  let ?K = "ks s" and ?v = "redis_view p (ks s)"
  define own where "own = row_owner ?v sid"
  have own: "or0 (hash_of (?K (sessKey p sid)) ''owner_id'') = FormatInt own" unfolding own_def by (rule stored_owner [OF ok a])
  let ?K1 = "ks_del {sessKey p sid, attrKey p sid, shaKey p sid, keysKey p sid} (ks_del (keyKey p ` set_of (?K (keysKey p sid))) ?K)"
  let ?K2 = "ks_if (own \<noteq> 0) (ks_srem (ownerKey p own) sid) ?K1"
  have T: "typed ''set'' (?K (ownerKey p own))" by (rule redis_okD(8) [OF ok])
  have "leads ks (deleteSessionScript R (sessKey p sid) (attrKey p sid) (shaKey p sid) (keysKey p sid) (p @ ''key:'') (p @ ''owner:'') sid)
      ?K 1 ?K2"
    using delete_runs [where K = ?K and sk = "sessKey p sid" and ak = "attrKey p sid" and hk = "shaKey p sid" and rk = "keysKey p sid"
        and kp = "p @ ''key:''" and op = "p @ ''owner:''" and sid = sid] redis_okD(10,2,3,4) [OF ok a] T
    unfolding own key_image owner_append by simp
  moreover have "redis_ok p ?K2 \<and> redis_view p ?K2 = spec_delete sid ?v"
    using remove_rows [OF ok a] remove_owner [of p ?K1 own sid]
    by (auto simp: ks_if_def spec_delete_def own_def row_owner_def split: option.splits)
  ultimately show ?thesis using leads_run by (simp add: implements_def Let_def leads_def)
qed

lemma deleteByOwner_runs:
  assumes ok: "redis_ok p K" and a: "plain sid" "0 < o'"
  shows "\<exists>n K'. leads ks (deleteSessionByOwnerScript R (sessKey p sid) (ownerKey p o') (attrKey p sid) (shaKey p sid) (keysKey p sid)
      (FormatInt o') sid (p @ ''key:'')) K n K' \<and> redis_ok p K' \<and> redis_view p K' = call_effect (CDeleteByOwner o' sid) (redis_view p K)"
proof -
  let ?v = "redis_view p K" and ?hit = "row_owner (redis_view p K) sid = o'"
  let ?K1 = "ks_if ?hit (\<lambda>K. ks_del {sessKey p sid, attrKey p sid, shaKey p sid, keysKey p sid} (ks_del (keyKey p ` set_of (K (keysKey p sid))) K)) K"
  let ?K2 = "ks_srem (ownerKey p o') sid ?K1"
  have "leads ks (deleteSessionByOwnerScript R (sessKey p sid) (ownerKey p o') (attrKey p sid) (shaKey p sid) (keysKey p sid)
      (FormatInt o') sid (p @ ''key:'')) K (if ?hit then 1 else 0) ?K2"
    using delete_by_owner_runs [where K = K and sk = "sessKey p sid" and okey = "ownerKey p o'" and ak = "attrKey p sid" and hk = "shaKey p sid"
        and rk = "keysKey p sid" and kp = "p @ ''key:''" and sid = sid and owner = "FormatInt o'"] redis_okD(10,2,3,4) [OF ok a(1)] redis_okD(8) [OF ok, of o']
    unfolding stored_owner [OF ok a(1)] key_image by simp
  moreover have "redis_ok p ?K2 \<and> redis_view p ?K2 = call_effect (CDeleteByOwner o' sid) ?v"
    using remove_rows [OF ok a(1)] remove_owner [of p ?K1 o' sid] ok a(2)
    by (auto simp: ks_if_def spec_delete_def row_owner_def Let_def split: option.splits if_splits)
  ultimately show ?thesis by blast
qed

lemma reassign_implements:
  assumes ok: "redis_ok p (ks s)" and a: "admissible (CReassignOwner r) (redis_view p (ks s))"
  shows "implements ks p (CReassignOwner r) (lapsed R p t (ks s) s (CReassignOwner r))
    (reassignOwnerScript R (sessKey p (s_ID r)) (ownerKey p (s_OwnerID r)) (FormatInt (s_LastAccess r)) (s_ID r) (FormatInt (s_OwnerID r))
       (FormatInt (s_LastRotation r)) (FormatInt (Milliseconds t)) (FormatInt (Milliseconds t')) (p @ ''owner:'')) s"
proof -
  let ?K = "ks s" and ?v = "redis_view p (ks s)" and ?c = "CReassignOwner r" and ?sk = "sessKey p (s_ID r)" and ?ok = "ownerKey p (s_OwnerID r)"
  let ?f = "reassignOwnerScript R ?sk ?ok (FormatInt (s_LastAccess r)) (s_ID r) (FormatInt (s_OwnerID r))
       (FormatInt (s_LastRotation r)) (FormatInt (Milliseconds t)) (FormatInt (Milliseconds t')) (p @ ''owner:'')"
  let ?late = "lapsed R p t ?K s ?c"
  have sid: "plain (s_ID r)" using a by simp
  note T = redis_okD(10) [OF ok sid] redis_okD(8) [OF ok]
  note run = reassign_checks [where sk = ?sk and okey = ?ok and s = s, OF T(1) T(2)]
  show ?thesis
  proof (cases "call_ok ?c ?v \<and> \<not> ?late")
    case False
    with run view_session_None [OF sid, of p ?K] show ?thesis by (auto simp: implements_def Let_def)
  next
    case True
    then obtain q where q: "v_session ?v (s_ID r) = Some q" by auto
    then have row: "s_ID q = s_ID r" "typed_row q" "?K ?sk = Some (RHash (row_map q))" using view_session_Some [OF ok sid] by blast+
    have sm: "small (s_LastAccess q)" "small (s_LastRotation q)" "0 \<le> s_OwnerID q" using row(2) by (simp_all add: typed_row_def)
    let ?K' = "ks_reassign ?sk ?ok (FormatInt (s_LastAccess r)) (s_ID r) (FormatInt (s_OwnerID r)) (FormatInt (s_LastRotation r)) (p @ ''owner:'')
      (FormatInt (s_OwnerID q)) (s_LastAccess q < s_LastAccess r) (s_LastRotation q < s_LastRotation r) ?K"
    have h: "or0 (hash_of (?K ?sk) ''owner_id'') = FormatInt (s_OwnerID q)" by (simp add: row(3) or0_def)
    have w: "leads ks (write_reassigned R ?sk ?ok (FormatInt (s_LastAccess r)) (s_ID r) (FormatInt (s_OwnerID r)) (FormatInt (s_LastRotation r))
        (FormatInt (Milliseconds t')) (p @ ''owner:'') (FormatInt (s_OwnerID q)) (s_LastAccess q) (s_LastAccess r) n) ?K 1 ?K'" if "0 < n" for n
      using reassign_writes [where K = ?K and sk = ?sk and okey = ?ok and prefix = "p @ ''owner:''" and previous = "FormatInt (s_OwnerID q)"
          and owner = "FormatInt (s_OwnerID r)" and rotation = "FormatInt (s_LastRotation r)" and t = n and cur = "s_LastAccess q"
          and proposed = "s_LastAccess r" and n = "Milliseconds t'" and access = "FormatInt (s_LastAccess r)" and sid = "s_ID r"] that T sm a
      unfolding owner_append by (simp add: row(3) or0_def)
    have "ks (fst (?f s)) = ?K' \<and> snd (?f s) = Inr 1"
      using run [where access = "FormatInt (s_LastAccess r)" and sid = "s_ID r" and owner = "FormatInt (s_OwnerID r)"
          and rotation = "FormatInt (s_LastRotation r)" and ttl = "FormatInt (Milliseconds t)" and ownerTTL = "FormatInt (Milliseconds t')"
          and prefix = "p @ ''owner:''"] leads_run [OF w] True row(3) sm a T(2) [of "s_OwnerID q"]
      unfolding h owner_append by (simp add: or0_def require_type_run not_le)
    moreover have "redis_ok p ?K' \<and> redis_view p ?K' = call_effect ?c ?v"
      using reassign_view [OF ok a q] unfolding ks_reassign_def owner_append by simp
    ultimately show ?thesis using True by (simp add: implements_def Let_def)
  qed
qed

lemma controls_implements:
  fixes t t' :: duration
  assumes ok: "redis_ok p (ks s)" and c: "admissible (CApplyControls sid c) (redis_view p (ks s))"
  defines "a \<equiv> control_args p sid c t t'"
  shows "implements ks p (CApplyControls sid c) (lapsed R p t (ks s) s (CApplyControls sid c))
    (applySessionControlsScript R (sessKey p sid) (keyKey p (ca_old a)) (keyKey p (ca_new a)) (attrKey p sid) (shaKey p sid) (keysKey p sid) a) s"
proof -
  let ?K = "ks s" and ?v = "redis_view p (ks s)" and ?c = "CApplyControls sid c" and ?sk = "sessKey p sid"
  let ?f = "applySessionControlsScript R ?sk (keyKey p (ca_old a)) (keyKey p (ca_new a)) (attrKey p sid) (shaKey p sid) (keysKey p sid) a"
  let ?late = "lapsed R p t ?K s ?c"
  have sid: "plain sid" using c by simp
  note T = redis_okD(10) [OF ok sid] redis_okD(6) [OF ok] redis_okD(6) [OF ok] redis_okD(2,3,4) [OF ok sid]
  have A: "ca_ttl a = FormatInt (Milliseconds t)" "ca_old a = c_OldKeyID c" "ca_new a = (if c_Rotate c then c_NewKeyID c else c_OldKeyID c)"
    "ca_rotate a = c_Rotate c" "ca_access a = FormatInt (c_LastAccess c)" "ca_id a = sid" "ca_prefix a = p @ ''owner:''"
    "ca_owner a = FormatInt (c_OwnerID c)" "ca_rotation a = FormatInt (c_LastRotation c)" "ca_ownerTTL a = FormatInt (Milliseconds t')"
    by (simp_all add: a_def control_args_def)
  have key: "v_key ?v k = string_of (?K (keyKey p k))" "string_of (?K (keyKey p k)) = None \<longleftrightarrow> ?K (keyKey p k) = None" for k
    using redis_okD(6) [OF ok, of k] by (auto simp: redis_view_def elim: typedE(3))
  have names: "keyKey p (ca_new a) = keyKey p (ca_old a) \<longleftrightarrow> ca_new a = ca_old a" by simp
  note run = controls_checks [OF T A(1) names]
  show ?thesis
  proof (cases "call_ok ?c ?v \<and> \<not> ?late")
    case False
    with run view_session_None [OF sid, of p ?K] show ?thesis by (auto simp: implements_def Let_def A key)
  next
    case True
    then obtain r where r: "v_session ?v sid = Some r" by auto
    note start = at_row_start [OF ok sid r]
    have sm: "small (s_LastAccess r)" "small (s_LastRotation r)" using start(1) by (simp_all add: at_row_def typed_row_def)
    have h: "or0 (hash_of (?K ?sk) ''owner_id'') = FormatInt (s_OwnerID r)" by (simp add: start(2) or0_def)
    let ?K' = "ks_controls ?sk (keyKey p (ca_old a)) (keyKey p (ca_new a)) (attrKey p sid) (shaKey p sid) (keysKey p sid) a
      (FormatInt (s_OwnerID r)) (s_LastAccess r < c_LastAccess c) (s_LastRotation r < c_LastRotation c) ?K"
    have w: "leads ks (write_controls R ?sk (keyKey p (ca_old a)) (keyKey p (ca_new a)) (attrKey p sid) (shaKey p sid) (keysKey p sid) a
        (FormatInt (s_OwnerID r)) (s_LastAccess r) (c_LastAccess c) n) ?K 1 ?K'" if "0 < n" for n
    proof -
      have nm: "ca_prefix a @ x \<notin> {?sk, attrKey p sid, shaKey p sid, keysKey p sid}" for x
        unfolding A(7) ownerName_append by simp
      have own: "typed ''set'' (?K (ca_prefix a @ FormatInt o'))" for o' unfolding A(7) owner_append by (rule redis_okD(8) [OF ok])
      show ?thesis
        using controls_writes [where K = ?K and sk = ?sk and ak = "attrKey p sid" and hk = "shaKey p sid" and rk = "keysKey p sid"
            and a = a and previous = "FormatInt (s_OwnerID r)" and okk = "keyKey p (ca_old a)" and nkk = "keyKey p (ca_new a)"
            and cur = "s_LastAccess r" and proposed = "c_LastAccess c" and t = n, OF T(1,4,5,6) _ _ nm _ _ A(9,10) that] own sid sm c
        by (simp add: A(8) start(2) or0_def)
    qed
    have chk: "check_owner_sets R (ca_setOwner a) (ca_prefix a) (FormatInt (s_OwnerID r)) (ca_owner a) rest s = rest s" for rest
      unfolding A(7,8) by (rule check_owner_run) (simp_all only: owner_append redis_okD(8) [OF ok])
    have "ks (fst (?f s)) = ?K' \<and> snd (?f s) = Inr 1"
      using run leads_run [OF w] True sm c unfolding h chk by (simp add: start(2) A key or0_def not_le)
    with controls_view [OF ok c r, of t t', folded a_def] True show ?thesis by (simp add: implements_def Let_def)
  qed
qed

end

end
