(* ===== verification/Redis_Properties.thy ===== *)
theory Redis_Properties
  imports Redis_Refinement Contract_Suite
begin

text \<open>
  The Redis store behind the store interface: it refines the abstract calls, a call that fails leaves
  nothing half written whatever is stored, and it passes the contract suite.
\<close>

section \<open>Refinement\<close>

definition outcome :: "'s Commands \<Rightarrow> ('s \<Rightarrow> keyspace) \<Rightarrow> string \<Rightarrow> store_call \<Rightarrow> bool \<Rightarrow> 's RedisState \<Rightarrow> 's RedisState \<Rightarrow> error + unit \<Rightarrow> bool" where
  "outcome R ks p c late st st' r \<longleftrightarrow>
     (let K = ks (rs_server st); K' = ks (rs_server st'); v = redis_view p K; v' = redis_view p K'
      in redis_ok p K' \<and> vstep v c v' \<and>
        (case r_link R (rs_server st) of
           LinkDown \<Rightarrow> K' = K \<and> r = Inl link_error
         | ReplyLost \<Rightarrow> r = Inl link_error
         | LinkUp \<Rightarrow> if call_ok c v \<and> \<not> late then r = Inr () \<and> v' = call_effect c v
             else K' = K \<and> (late \<and> r = Inl ErrNotFound \<or> \<not> call_ok c v \<and> r = Inl (call_error c v))))"

lemma outcome_round_trip:
  assumes f: "implements ks p c late f (rs_server st)" and ok: "redis_ok p (ks (rs_server st))"
    and g: "g (round_trip R f) st = (st', r)"
    and kind: "g = status \<or> g = found \<and> (call_ok c (redis_view p (ks (rs_server st))) \<longleftrightarrow>
          v_session (redis_view p (ks (rs_server st))) (call_session c) \<noteq> None)
        \<or> g = ignore_value \<and> call_ok c (redis_view p (ks (rs_server st))) \<and> \<not> late"
  shows "outcome R ks p c late st st' r"
proof -
  obtain s' x where x: "f (rs_server st) = (s', x)" by fastforce
  show ?thesis
    using assms x vstep.intros
    by (cases "r_link R (rs_server st)")
      (auto simp: outcome_def implements_def Let_def round_trip_def status_def found_def ignore_value_def andThen_def call_error_def
        split: if_splits)
qed

lemma ignore_unit:
  "round_trip R f st = ignore_value (round_trip R (doing f (ret 1))) st"
  by (auto simp: round_trip_def ignore_value_def doing_def ret_def andThen_def split: link.splits prod.splits sum.splits)

lemma ignore_bool:
  "andThen (andThen (round_trip R f st) (\<lambda>st' n. (st', Inr (n = 1)))) (\<lambda>st' _. (st', Inr ())) =
     ignore_value (round_trip R (\<lambda>s. andThen (f s) (\<lambda>s' _. (s', Inr 1)))) st" for f :: "'s script"
  by (auto simp: round_trip_def ignore_value_def andThen_def split: link.splits prod.splits sum.splits)

lemmas store_defs = RedisStore_def NewRedis_def redis_PutSession_def redis_TouchSession_def redis_ApplySessionControls_def
  redis_DeleteSession_def redis_PutKey_def redis_ReplaceKey_def redis_DeleteKey_def redis_PutCookie_def redis_DeleteCookie_def
  redis_AddOwnerIndex_def redis_RemoveOwnerIndex_def redis_ReassignOwner_def redis_DeleteSessionByOwner_def Let_def

context redis_server
begin

lemma implements_SREM:
  assumes ok: "redis_ok p (ks s)"
  shows "implements ks p (CRemoveOwner o' sid) False (doing (r_SREM R (ownerKey p o') sid) (ret 1)) s"
proof -
  have "leads ks (doing (r_SREM R (ownerKey p o') sid) (ret 1)) (ks s) (1 :: int) (ks_srem (ownerKey p o') sid (ks s))"
    by (rule leads_doing [OF leads_SREM leads_ret], rule redis_okD(8) [OF ok])
  from leads_run [OF this] remove_owner [OF ok, of o' sid] show ?thesis by (simp add: implements_def Let_def)
qed

lemma implements_delete_by_owner:
  assumes "redis_ok p (ks s)" "plain sid" "0 < o'"
  shows "implements ks p (CDeleteByOwner o' sid) False
    (\<lambda>s. andThen (deleteSessionByOwnerScript R (sessKey p sid) (ownerKey p o') (attrKey p sid) (shaKey p sid) (keysKey p sid)
      (FormatInt o') sid (p @ ''key:'') s) (\<lambda>s' _. (s', Inr 1))) s"
proof -
  let ?f = "deleteSessionByOwnerScript R (sessKey p sid) (ownerKey p o') (attrKey p sid) (shaKey p sid) (keysKey p sid) (FormatInt o') sid (p @ ''key:'')"
  obtain n K' where "leads ks ?f (ks s) n K'" "redis_ok p K'" "redis_view p K' = call_effect (CDeleteByOwner o' sid) (redis_view p (ks s))"
    using deleteByOwner_runs [OF assms] by blast
  with leads_run [OF this(1)] show ?thesis
    by (cases "?f s") (simp add: implements_def Let_def andThen_def)
qed

lemma exec_outcome:
  assumes ok: "redis_ok p (ks (rs_server st))" and c: "admissible c (redis_view p (ks (rs_server st)))"
    and e: "exec (RedisStore (NewRedis R p)) t t' c st = (st', r)"
  shows "outcome R ks p c (lapsed R p t (ks (rs_server st)) (rs_server st) c) st st' r"
proof (cases c)
  case (CPutSession s)
  with c e show ?thesis
    using outcome_round_trip [OF put_implements [OF ok, of s "Milliseconds t"] ok, of ignore_value R st' r] by (simp add: store_defs)
next
  case (CTouchSession sid key la lr)
  with c e show ?thesis
    using outcome_round_trip [OF touch_implements [OF ok, of sid la lr key t] ok, of status R st' r] by (simp add: store_defs)
next
  case (CApplyControls sid d)
  with c e show ?thesis
    using outcome_round_trip [OF controls_implements [OF ok, of sid d t t'] ok, of status R st' r] by (simp add: store_defs)
next
  case (CDeleteSession sid)
  with c e show ?thesis
    using outcome_round_trip [OF delete_implements [OF ok, of sid] ok, of ignore_value R st' r] by (simp add: store_defs)
next
  case (CPutKey key sid)
  with c e show ?thesis
    using outcome_round_trip [OF putKey_implements [OF ok, of sid key t] ok, of found R st' r] by (simp add: store_defs)
next
  case (CReplaceKey old new sid)
  with c e show ?thesis
    using outcome_round_trip [OF replaceKey_implements [OF ok, of sid old new t] ok, of status R st' r] by (simp add: store_defs)
next
  case (CDeleteKey key)
  with c e show ?thesis
    using outcome_round_trip [OF deleteKey_implements [OF ok, of key] ok, of ignore_value R st' r] by (simp add: store_defs)
next
  case (CPutCookie sid name val sha)
  with c e show ?thesis
    using outcome_round_trip [OF putCookie_implements [OF ok, of sid name val sha t] ok, of found R st' r] by (simp add: store_defs)
next
  case (CDeleteCookie sid name)
  with c e show ?thesis
    using outcome_round_trip [OF deleteCookie_implements [OF ok, of sid name] ok, of ignore_value R st' r] by (simp add: store_defs)
next
  case (CAddOwner o' sid)
  with e show ?thesis
    using outcome_round_trip [OF addOwner_implements [OF ok, of o' sid "Milliseconds t"] ok, of ignore_value R st' r] by (simp add: store_defs)
next
  case (CRemoveOwner o' sid)
  with e show ?thesis
    using outcome_round_trip [OF implements_SREM [OF ok, of o' sid] ok, of ignore_value R st' r] by (simp add: store_defs ignore_unit [of R])
next
  case (CReassignOwner s)
  with c e show ?thesis
    using outcome_round_trip [OF reassign_implements [OF ok, of s t t'] ok, of found R st' r] by (simp add: store_defs)
next
  case (CDeleteByOwner o' sid)
  with c e show ?thesis
    using outcome_round_trip [OF implements_delete_by_owner [OF ok, of sid o'] ok, of ignore_value R st' r] by (simp add: store_defs ignore_bool)
qed

end

section \<open>All or nothing\<close>

text \<open>A script that does not return 1 has changed no key: on any keyspace, whatever types its values have.\<close>

definition tidy :: "('s \<Rightarrow> keyspace) \<Rightarrow> 's script \<Rightarrow> 's \<Rightarrow> bool" where
  "tidy ks f s \<longleftrightarrow> snd (f s) = Inr 1 \<or> ks (fst (f s)) = ks s"

context redis_server
begin

lemma tidy_checked:
  assumes "f = require_types R kts rest" "\<forall>(k, t) \<in> set kts. typed t (ks s k) \<Longrightarrow> tidy ks f s"
  shows "tidy ks f s"
proof (cases "\<forall>(k, t) \<in> set kts. typed t (ks s k)")
  case False
  then obtain e where "f s = (s, Inl e)" using require_types_fail assms(1) by blast
  then show ?thesis by (simp add: tidy_def)
qed (rule assms(2))

lemma tidy_leads: "leads ks f (ks s) 1 K' \<Longrightarrow> tidy ks f s"
  using leads_run by (fastforce simp: tidy_def)

lemma tidy_put: "tidy ks (putSessionScript R k (row_fields r) (FormatInt n)) s"
proof (rule tidy_checked)
  show "putSessionScript R k (row_fields r) (FormatInt n) = require_types R [(k, ''hash'')]
      (doing (r_HSET R k (row_fields r)) (doing (expire_if_positive R k (FormatInt n)) (ret 1)))"
    by (simp add: putSessionScript_def)
  assume "\<forall>(k, t) \<in> set [(k, ''hash'')]. typed t (ks s k)"
  then show "tidy ks (putSessionScript R k (row_fields r) (FormatInt n)) s"
    using putSession_run [of s k "row_fields r" n] by (simp add: tidy_def row_fields_def)
qed

lemma tidy_touch: "tidy ks (touchSessionScript R sk kk ak hk rk access rotation ttl sid) s"
proof (rule tidy_checked [OF touchSessionScript_def])
  assume T: "\<forall>(k, t) \<in> set [(sk, ''hash''), (kk, ''string''), (ak, ''hash''), (hk, ''hash''), (rk, ''set'')]. typed t (ks s k)"
  let ?t = "row_ttl R (hash_of (ks s sk)) access ttl (r_TIME R s)"
  have "tidy ks (write_touch R sk kk ak hk rk access rotation cur proposed ?t) s" if "0 < ?t" for cur proposed
    by (rule tidy_leads [OF touch_writes [OF _ that]]) (use T in simp)
  then show "tidy ks (touchSessionScript R sk kk ak hk rk access rotation ttl sid) s"
    using T touch_checks [of s sk kk ak hk rk access rotation ttl sid] by (simp add: tidy_def not_le)
qed

lemma tidy_put_key: "tidy ks (putKeyScript R sk (keyKey p key) (keysKey p sid) sid key) s"
  by (rule tidy_checked [OF putKeyScript_def])
    (use putKey_runs [of s sk "keyKey p key" "keysKey p sid" sid key] in \<open>simp add: tidy_def split: if_splits\<close>)

lemma tidy_replace_key: "tidy ks (replaceKeyScript R sk (keyKey p old) (keyKey p new) (keysKey p sid) sid old new) s"
  by (rule tidy_checked [OF replaceKeyScript_def])
    (use replaceKey_runs [of s sk "keyKey p old" "keyKey p new" "keysKey p sid" sid old new] in \<open>simp add: tidy_def split: if_splits\<close>)

lemma tidy_put_cookie: "tidy ks (putCookieScript R sk (attrKey p sid) (shaKey p sid) name val sha) s"
  by (rule tidy_checked [OF putCookieScript_def])
    (use putCookie_runs [of s sk "attrKey p sid" "shaKey p sid" name val sha] in \<open>simp add: tidy_def split: if_splits\<close>)

lemma tidy_delete_cookie: "tidy ks (deleteCookieScript R (attrKey p sid) (shaKey p sid) name) s"
  by (rule tidy_checked [OF deleteCookieScript_def], rule tidy_leads, rule deleteCookie_runs) simp_all

lemma tidy_add_owner: "tidy ks (addOwnerIndexScript R k sid (FormatInt n)) s"
proof (rule tidy_checked)
  show "addOwnerIndexScript R k sid (FormatInt n) = require_types R [(k, ''set'')]
      (doing (r_SADD R k sid) (doing (expire_if_positive R k (FormatInt n)) (ret 1)))"
    by (simp add: addOwnerIndexScript_def)
qed (rule tidy_leads, rule addOwner_runs, simp)

lemma tidy_delete_by_owner:
  "tidy ks (\<lambda>s. andThen (deleteSessionByOwnerScript R sk okey ak hk rk owner sid kp s) (\<lambda>s' _. (s', Inr 1))) s"
proof (cases "\<forall>(k, t) \<in> set [(sk, ''hash''), (okey, ''set''), (ak, ''hash''), (hk, ''hash''), (rk, ''set'')]. typed t (ks s k)")
  case True
  then have "\<exists>n. snd (deleteSessionByOwnerScript R sk okey ak hk rk owner sid kp s) = Inr n"
    using leads_run [OF delete_by_owner_runs [of "ks s" sk okey ak hk rk owner sid kp]] by simp
  then show ?thesis by (cases "deleteSessionByOwnerScript R sk okey ak hk rk owner sid kp s") (auto simp: tidy_def andThen_def)
next
  case False
  then obtain e where "deleteSessionByOwnerScript R sk okey ak hk rk owner sid kp s = (s, Inl e)"
    unfolding deleteSessionByOwnerScript_def using require_types_fail by blast
  then show ?thesis by (simp add: tidy_def andThen_def)
qed

lemma tidy_delete: "tidy ks (deleteSessionScript R sk ak hk rk kp op sid) s"
proof (rule tidy_checked [OF deleteSessionScript_def])
  assume T: "\<forall>(k, t) \<in> set [(sk, ''hash''), (ak, ''hash''), (hk, ''hash''), (rk, ''set'')]. typed t (ks s k)"
  let ?own = "or0 (hash_of (ks s sk) ''owner_id'')"
  show "tidy ks (deleteSessionScript R sk ak hk rk kp op sid) s"
  proof (cases "?own = ''0'' \<or> typed ''set'' (ks s (op @ ?own))")
    case True
    show ?thesis by (rule tidy_leads, rule delete_runs) (use T True in auto)
  next
    case False
    with T have "\<exists>e. deleteSessionScript R sk ak hk rk kp op sid s = (s, Inl e)"
      unfolding deleteSessionScript_def by (simp add: require_type_run reply_HGET)
    then show ?thesis by (auto simp: tidy_def)
  qed
qed

lemma tidy_delete_key: "tidy ks (deleteKeyScript R (keyKey p key) (p @ ''sess:'') key) s"
proof -
  let ?f = "deleteKeyScript R (keyKey p key) (p @ ''sess:'') key" and ?K = "ks s" and ?kk = "keyKey p key"
  consider "\<not> typed ''string'' (?K ?kk)" | "?K ?kk = None"
    | sid where "?K ?kk = Some (RString sid)" "\<not> typed ''set'' (?K ((p @ ''sess:'') @ sid @ '':keys''))"
    | sid where "?K ?kk = Some (RString sid)" "typed ''set'' (?K ((p @ ''sess:'') @ sid @ '':keys''))"
    by (metis typedE(3))
  then show ?thesis
  proof cases
    case (4 sid)
    have "?kk \<noteq> (p @ ''sess:'') @ x" for x by (simp add: keyKey_def)
    with 4 deleteKey_runs [of s ?kk "p @ ''sess:''" key] show ?thesis by (simp add: tidy_def)
  qed (simp_all add: deleteKeyScript_def tidy_def require_type_run return_if_def TYPE reply_GET Let_def)
qed

lemma tidy_reassign:
  "tidy ks (reassignOwnerScript R (sessKey p sid) (ownerKey p o') access sid owner rotation ttl (FormatInt n) (p @ ''owner:'')) s"
proof (rule tidy_checked [OF reassignOwnerScript_def])
  let ?sk = "sessKey p sid" and ?ok = "ownerKey p o'" and ?own = "or0 (hash_of (ks s (sessKey p sid)) ''owner_id'')"
  let ?t = "row_ttl R (hash_of (ks s ?sk)) access ttl (r_TIME R s)"
  let ?kts = "if ?own \<noteq> ''0'' \<and> ?own \<noteq> owner then [((p @ ''owner:'') @ ?own, ''set'')] else []"
  assume T: "\<forall>(k, t) \<in> set [(?sk, ''hash''), (?ok, ''set'')]. typed t (ks s k)"
  have "tidy ks (require_types R ?kts (write_reassigned R ?sk ?ok access sid owner rotation (FormatInt n) (p @ ''owner:'') ?own cur proposed ?t)) s"
    if "0 < ?t" for cur proposed
  proof (rule tidy_checked [OF refl])
    assume typed: "\<forall>(k, t) \<in> set ?kts. typed t (ks s k)"
    show "tidy ks (require_types R ?kts (write_reassigned R ?sk ?ok access sid owner rotation (FormatInt n) (p @ ''owner:'') ?own cur proposed ?t)) s"
      by (rule tidy_leads, rule leads_require [OF typed], rule reassign_writes)
        (use T typed that in \<open>auto simp: ownerName_append simp del: append_assoc\<close>)
  qed
  then show "tidy ks (reassignOwnerScript R ?sk ?ok access sid owner rotation ttl (FormatInt n) (p @ ''owner:'')) s"
    using T reassign_checks [of s ?sk ?ok access sid owner rotation ttl "FormatInt n" "p @ ''owner:''"] by (simp add: tidy_def not_le)
qed

lemma tidy_check_owner:
  assumes "b \<Longrightarrow> typed ''set'' (ks s (prefix @ owner)) \<and> (previous \<noteq> ''0'' \<and> previous \<noteq> owner \<longrightarrow> typed ''set'' (ks s (prefix @ previous)))
    \<Longrightarrow> tidy ks rest s" "\<not> b \<Longrightarrow> tidy ks rest s"
  shows "tidy ks (check_owner_sets R b prefix previous owner rest) s"
  using assms by (auto simp: check_owner_sets_def require_type_run tidy_def)

lemma own_names: "distinct [sessKey p sid, attrKey p sid, shaKey p sid, keysKey p sid]"
  by (simp add: key_defs)

lemma tidy_controls:
  fixes p sid c and t t' :: duration
  defines "a \<equiv> control_args p sid c t t'"
  shows "tidy ks (applySessionControlsScript R (sessKey p sid) (keyKey p (ca_old a)) (keyKey p (ca_new a)) (attrKey p sid) (shaKey p sid)
    (keysKey p sid) a) s"
proof (rule tidy_checked [OF applySessionControlsScript_def])
  let ?sk = "sessKey p sid" and ?ok = "keyKey p (ca_old a)" and ?nk = "keyKey p (ca_new a)" and ?ak = "attrKey p sid" and ?hk = "shaKey p sid"
    and ?rk = "keysKey p sid" and ?own = "or0 (hash_of (ks s (sessKey p sid)) ''owner_id'')"
  let ?t = "row_ttl R (hash_of (ks s ?sk)) (ca_access a) (ca_ttl a) (r_TIME R s)"
  assume T: "\<forall>(k, t) \<in> set [(?sk, ''hash''), (?ok, ''string''), (?nk, ''string''), (?ak, ''hash''), (?hk, ''hash''), (?rk, ''set'')]. typed t (ks s k)"
  have A: "ca_ttl a = FormatInt (Milliseconds t)" "ca_rotation a = FormatInt (c_LastRotation c)" "ca_ownerTTL a = FormatInt (Milliseconds t')"
    "ca_prefix a = p @ ''owner:''" by (simp_all add: a_def control_args_def)
  have nm: "ca_prefix a @ x \<notin> {?sk, ?ak, ?hk, ?rk}" for x unfolding A(4) ownerName_append by simp
  have writes: "tidy ks (write_controls R ?sk ?ok ?nk ?ak ?hk ?rk a ?own cur proposed ?t) s"
    if "0 < ?t" "ca_setOwner a \<Longrightarrow> typed ''set'' (ks s (ca_prefix a @ ca_owner a)) \<and>
      (?own \<noteq> ''0'' \<and> ?own \<noteq> ca_owner a \<longrightarrow> typed ''set'' (ks s (ca_prefix a @ ?own)))" for cur proposed
    by (rule tidy_leads [OF controls_writes [OF _ _ _ _ _ _ nm own_names _ A(2,3) that(1)]]) (use T that(2) in auto)
  have names: "?nk = ?ok \<longleftrightarrow> ca_new a = ca_old a" by simp
  have "tidy ks (check_owner_sets R (ca_setOwner a) (ca_prefix a) ?own (ca_owner a)
      (write_controls R ?sk ?ok ?nk ?ak ?hk ?rk a ?own cur proposed ?t)) s" if "0 < ?t" for cur proposed
    by (rule tidy_check_owner; rule writes [OF that]) simp_all
  then show "tidy ks (applySessionControlsScript R ?sk ?ok ?nk ?ak ?hk ?rk a) s"
    using T controls_checks [where s = s and sk = ?sk and okk = ?ok and nkk = ?nk and ak = ?ak and hk = ?hk and rk = ?rk, OF _ _ _ _ _ _ A(1) names]
    by (simp add: tidy_def not_le)
qed

text \<open>Every call of the interface is one such script, and only a lost reply can hide what it did.\<close>

lemma tidy_SREM: "tidy ks (doing (r_SREM R k x) (ret 1)) s"
proof (cases "typed ''set'' (ks s k)")
  case True
  show ?thesis by (rule tidy_leads, rule leads_doing [OF leads_SREM leads_ret], rule True)
next
  case False
  then show ?thesis
    using SREM_wrong [of s k x] by (cases "r_SREM R k x s") (auto simp: tidy_def doing_def andThen_def split: sum.splits)
qed

lemma tidy_round_trip:
  assumes "tidy ks f (rs_server st)" "g \<in> {status, found, ignore_value}" "g (round_trip R f) st = (st', Inl e)"
    "r_link R (rs_server st) \<noteq> ReplyLost"
  shows "ks (rs_server st') = ks (rs_server st)"
proof -
  obtain s' x where "f (rs_server st) = (s', x)" by fastforce
  with assms show ?thesis
    by (cases "r_link R (rs_server st)")
      (auto simp: tidy_def round_trip_def status_def found_def ignore_value_def andThen_def split: sum.splits)
qed

lemma exec_tidy:
  assumes e: "exec (RedisStore (NewRedis R p)) t t' c st = (st', Inl e)" and l: "r_link R (rs_server st) \<noteq> ReplyLost"
  shows "ks (rs_server st') = ks (rs_server st)"
proof -
  have "\<exists>f g. tidy ks f (rs_server st) \<and> g \<in> {status, found, ignore_value} \<and> exec (RedisStore (NewRedis R p)) t t' c st = g (round_trip R f) st"
  proof (cases c)
    case (CRemoveOwner o' sid)
    then show ?thesis using tidy_SREM by (auto simp: store_defs ignore_unit [of R])
  next
    case (CDeleteByOwner o' sid)
    then show ?thesis using tidy_delete_by_owner by (fastforce simp: store_defs ignore_bool)
  qed (use tidy_put tidy_touch tidy_controls tidy_delete tidy_put_key tidy_replace_key tidy_delete_key tidy_put_cookie
      tidy_delete_cookie tidy_add_owner tidy_reassign in \<open>fastforce simp: store_defs\<close>)+
  with tidy_round_trip e l show ?thesis by metis
qed

end

section \<open>A running server\<close>

definition fresh_server :: "(string, cell \<times> int option) gomap \<Rightarrow> RefServer RedisState" where
  "fresh_server cells = \<lparr>rs_server = \<lparr>rf_cells = cells, rf_clock = 1000000, rf_link = LinkUp\<rparr>, rs_rand = replicate 64 (CHR ''x'')\<rparr>"

definition sample_row :: Session where
  "sample_row = \<lparr>s_ID = ''s'', s_Creation = 1, s_LastAccess = 1, s_InactiveTimeout = 60, s_FinalTimeout = 600, s_OwnerID = 7,
     s_LastRotation = 1, s_Labels = ''user''\<rparr>"

abbreviation "sample_redis \<equiv> RedisStore (NewRedis reference ''gs:'')"

definition sample_state :: "RefServer RedisState" where
  "sample_state = fst (exec sample_redis 60000000000 0 (CPutSession sample_row) (fresh_server []))"

lemma fresh_keyspace: "ref_keyspace (rs_server (fresh_server [])) = Map.empty"
  by (simp add: fresh_server_def ref_keyspace_def live_cell_def fun_eq_iff)

lemma sample_ok: "redis_ok ''gs:'' (ref_keyspace (rs_server sample_state))"
  "redis_view ''gs:'' (ref_keyspace (rs_server sample_state)) = call_effect (CPutSession sample_row) empty_view"
proof -
  have "admissible (CPutSession sample_row) v" for v
    by (simp add: sample_row_def plain_def typed_row_def small_def is_i64_def)
  from ref.exec_outcome [OF _ this, of "''gs:''" "fresh_server []" 60000000000 0, OF _ surjective_pairing]
  have "outcome reference ref_keyspace ''gs:'' (CPutSession sample_row) False (fresh_server []) sample_state
      (snd (exec sample_redis 60000000000 0 (CPutSession sample_row) (fresh_server [])))"
    by (simp add: fresh_keyspace empty_redis sample_state_def)
  moreover have "r_link reference (rs_server (fresh_server [])) = LinkUp" by (simp add: reference_def fresh_server_def)
  ultimately show "redis_ok ''gs:'' (ref_keyspace (rs_server sample_state))"
    "redis_view ''gs:'' (ref_keyspace (rs_server sample_state)) = call_effect (CPutSession sample_row) empty_view"
    by (simp_all add: outcome_def Let_def fresh_keyspace empty_redis)
qed

text \<open>
  Why admissible calls do not rebind a key: the set of keys of the first session keeps the key, so deleting that session
  kills the key of the second one. The in-memory store keeps it.
\<close>

definition rebind :: "store_call list" where
  "rebind = [CPutSession (sample_row\<lparr>s_ID := ''a''\<rparr>), CPutSession (sample_row\<lparr>s_ID := ''b''\<rparr>), CPutKey ''k'' ''a'', CPutKey ''k'' ''b'',
     CDeleteSession ''a'']"

lemma rebinding_differs:
  "snd (GetKey sample_redis ''k'' (exec_all sample_redis 60000000000 0 rebind (fresh_server []))) = Inl ErrNotFound"
  "snd (GetKey MemoryStore ''k'' (exec_all MemoryStore 60000000000 0 rebind NewMemory)) = Inr ''b''"
  by code_simp+

text \<open>Why the owner of a conditional deletion is positive: a missing row counts as a row of owner 0.\<close>

lemma owner_zero_differs:
  "snd (DeleteSessionByOwner sample_redis 0 ''a'' (fresh_server [])) = Inr True"
  "snd (DeleteSessionByOwner MemoryStore 0 ''a'' NewMemory) = Inr False"
  by code_simp+

section \<open>Properties\<close>

text \<open>
  C10. The Redis store implements the store interface. On any server that obeys the documented laws of its
  commands, every call whose ids contain no colon, whose times fit a double and that does not rebind another
  session's key keeps the stored data well formed and does, seen through the abstract state, either
  exactly what the call specifies or nothing. If the reply arrives, success is reported exactly when the call
  is allowed and the row has not run out, and the error otherwise is the specified one, or \<open>ErrNotFound\<close> for a row that
  has run out. A request that never arrives changes nothing, and a lost reply is an error, never a success.
\<close>

theorem redis_refines:
  assumes "redis_server R ks" "redis_ok p (ks (rs_server st))" "admissible c (redis_view p (ks (rs_server st)))"
    and "exec (RedisStore (NewRedis R p)) t t' c st = (st', r)"
  shows "let K = ks (rs_server st); K' = ks (rs_server st'); v = redis_view p K; v' = redis_view p K';
      late = lapsed R p t K (rs_server st) c
    in redis_ok p K' \<and> vstep v c v' \<and>
      (case r_link R (rs_server st) of
         LinkDown \<Rightarrow> K' = K \<and> r = Inl link_error
       | ReplyLost \<Rightarrow> r = Inl link_error
       | LinkUp \<Rightarrow> if call_ok c v \<and> \<not> late then r = Inr () \<and> v' = call_effect c v
           else K' = K \<and> (late \<and> r = Inl ErrNotFound \<or> \<not> call_ok c v \<and> r = Inl (call_error c v)))"
  using redis_server.exec_outcome [OF assms] by (simp only: outcome_def Let_def)

theorem redis_refines_witness:
  "v_key (redis_view ''gs:'' (ref_keyspace (rs_server (fst (exec sample_redis 60000000000 0 (CPutKey ''k'' ''s'') sample_state))))) ''k'' = Some ''s''"
proof -
  let ?v = "call_effect (CPutSession sample_row) empty_view"
  have adm: "admissible (CPutKey ''k'' ''s'') (redis_view ''gs:'' (ref_keyspace (rs_server sample_state)))"
    unfolding sample_ok(2) by (simp add: plain_def empty_view_def)
  have "call_ok (CPutKey ''k'' ''s'') ?v" by (simp add: sample_row_def)
  moreover have "r_PTTL reference (sessKey ''gs:'' ''s'') (rs_server sample_state) \<noteq> 0" by code_simp
  moreover have "r_link reference (rs_server sample_state) = LinkUp" by code_simp
  ultimately show ?thesis
    using redis_refines [OF ref.redis_server_axioms sample_ok(1) adm surjective_pairing, of 60000000000 0]
    unfolding sample_ok(2) Let_def by simp
qed



text \<open>The subtests of the contract suite, evaluated; the longest ones are lemmas of their own.\<close>

lemma redis_field_scoped: "t_field_scoped sample_redis (fresh_server [])"
  by code_simp

lemma redis_all_or_nothing: "t_all_or_nothing sample_redis (fresh_server [])"
  by code_simp

lemma redis_key_tests: "t_round_trip sample_redis (fresh_server [])" "t_missing sample_redis (fresh_server [])"
  "t_stale_mutations sample_redis (fresh_server [])" "t_one_winner sample_redis (fresh_server [])"
  "t_equal_keys sample_redis (fresh_server [])" "t_cascade sample_redis (fresh_server [])" "t_cookies sample_redis (fresh_server [])"
  by code_simp+

lemma redis_owner_tests: "t_owner_index sample_redis (fresh_server [])" "t_owner_prunes sample_redis (fresh_server [])"
  "t_owner_remove sample_redis (fresh_server [])" "t_reassign_missing sample_redis (fresh_server [])" "t_reassign sample_redis (fresh_server [])"
  "t_owner_delete sample_redis (fresh_server [])" "t_owner_delete_reassigned sample_redis (fresh_server [])" "t_lock sample_redis (fresh_server [])"
  by code_simp+


end
