(* ===== verification/Spec2Isabelle.thy ===== *)
theory Spec2Isabelle
  imports Cookie_Filter Authz_Policy Handler_Properties Contract_Suite Handler_Config Redis_Properties
begin

text \<open>
  Verification development of gosestor, a session-store middleware for the Caddy web server.

  \<^bold>\<open>The program.\<close> The handler (\<open>session_store.go\<close>) sits between a client and a backend. The client holds one
  opaque cookie, the key. For each request the handler looks the key up, refuses a path whose label the session lacks,
  strips control headers a client may have forged, replaces the client's cookies by the ones cached for the
  session, and calls the backend. It stages the backend's response, carries out the control headers in it (bind an
  owner, set labels, rotate the key, revoke), caches or drops the backend's cookies, and only then answers.
  The session manager (\<open>internal/session\<close>) owns the life cycle of sessions and keys. It works on the interface
  \<open>Store\<close> (\<open>internal/store\<close>), which has an in-memory and a Redis implementation. The cookie filter
  (\<open>internal/filter\<close>) and the authorization policy (\<open>internal/authz\<close>) are pure. An admin endpoint (\<open>admin.go\<close>)
  revokes all sessions of an owner in every provisioned handler.

  \<^bold>\<open>Conventions.\<close> Go strings are byte strings (\<open>string\<close>), \<open>int64\<close> is \<open>int\<close> with the wrap-around \<open>i64\<close> written out,
  Go maps are association lists or maps. A fallible method is a function from a state to a state and an error
  or a value (\<open>op\<close>, \<open>Gosestor_Prelude\<close>). Code outside the repository is an argument: the downstream handler, the
  file system, the random reader, the clock, the cookie date parser, the Caddyfile dispenser, the Redis server and its
  connection. The parts of Go's standard library in use are defined in \<open>Go_Strings\<close>, \<open>Go_Numbers\<close>,
  \<open>Go_Crypto\<close> and \<open>Go_Http\<close>.

  \<^bold>\<open>Theories, their sources, and what they show.\<close>

  \<^item> \<open>Cookie_Filter\<close> (\<open>filter.go\<close>): \<open>New\<close> and \<open>Decide\<close>; the filter is deny-by-default and store wins.
  \<^item> \<open>Authz_Policy\<close> (\<open>authz.go\<close>): \<open>New\<close> with every error, \<open>Required\<close>, \<open>Endpoint\<close>; longest prefix, no redirect
    loop, path tricks change nothing, and the unstable sort cannot be observed.
  \<^item> \<open>Session_Store\<close> (\<open>store.go\<close>): rows, errors, the interface \<open>StoreI\<close>, an abstract state \<open>view\<close> and the
    effect of each mutating call on it. The locale \<open>store_contract\<close> states what a store promises,
    \<open>exact_store\<close> adds that calls fail only for the documented reasons.
  \<^item> \<open>Memory_Store\<close> (\<open>memory.go\<close>): every method, and the interpretation \<open>mem\<close> of both locales.
  \<^item> \<open>Contract_Suite\<close> (\<open>contract.go\<close>): each subtest as an executable program; an exact store passes all of them.
  \<^item> \<open>Session_Manager\<close> (\<open>manager.go\<close>): every operation, with the other requests' store calls interleaved before each
    of its own (\<open>w_env\<close>). \<open>Manager_Laws\<close> proves the laws inside \<open>store_contract\<close> under that interference,
    \<open>Manager_Exact\<close> the exact results inside \<open>exact_store\<close>, and \<open>Manager_Properties\<close> states them for the
    in-memory store: fixation defence, dead keys, revocation, locking, time limits, invariants over histories.
  \<^item> \<open>Response_Staging\<close>, \<open>Response_Interceptor\<close>, \<open>Request_Handler\<close> (\<open>session_store.go\<close>): the staging budget and
    the staged body, the interceptor, and \<open>ServeHTTP\<close> with every early return. \<open>Header_Hygiene\<close> and
    \<open>Upstream_Request\<close> hold the lemmas on header maps; \<open>Handler_Properties\<close> shows that control data never leaks in either
    direction, the gate holds, a failing backend changes no session, a logout is honest, the budget is given back.
  \<^item> \<open>Caddyfile\<close>, \<open>Handler_Config\<close> (\<open>session_store.go\<close>): parsing, \<open>Provision\<close>, \<open>Validate\<close>, \<open>Cleanup\<close>; parsing ends, and
    a validated configuration gives distinct control headers, positive time limits and an enforced policy. It does not
    refuse a control header named after one the handler itself sends (\<open>Set-Cookie\<close>, \<open>Location\<close>, \<open>X-Auth-Endpoint\<close>) or reads
    (\<open>Cookie\<close>); the leak theorems assume such names are not used (\<open>proper_names\<close>).
  \<^item> \<open>Admin_API\<close> (\<open>admin.go\<close>): the registry and the revoke endpoint on every branch.
  \<^item> \<open>Redis_Server\<close>: the commands as a record, their documented effect as the laws of the locale \<open>redis_server\<close>, and a
    reference server with expiry that interprets it (\<open>ref\<close>). \<open>Redis_Store\<close> (\<open>redis.go\<close>): every Lua script
    and method. \<open>Redis_Scripts\<close> computes what each script does to the keyspace, \<open>Redis_View\<close> reads a keyspace as
    an abstract state, \<open>Redis_Refinement\<close> relates the two, and \<open>Redis_Properties\<close> shows that a call has its abstract
    effect or none, that a failed call has written nothing, and that the contract suite passes.

  \<^bold>\<open>Bounds.\<close> Only the parser's loop may fail to end, on a dispenser that never moves forward. It is a
  \<open>partial_function\<close>, and it is proved to return for every dispenser that does. All other recursion is over data.

  \<^bold>\<open>Limits of the Redis theorems.\<close> Redis does not satisfy \<open>store_contract\<close> for every call, so the manager and handler
  theorems that name the in-memory store do not carry over to Redis as they stand. The refinement covers one call at a time,
  for ids without a colon, times below \<open>2 ^ 53\<close>, owners that are not negative, and keys that do not lead to another
  session. The lemmas \<open>rebinding_differs\<close> and \<open>owner_zero_differs\<close> show two calls outside that range on which the stores
  disagree. Expiry between calls is not a step of the refinement: it starts from a keyspace that satisfies the invariant, while
  keys expire one by one. A server that runs out of memory in the middle of a script is excluded by the laws.

  \<^bold>\<open>Not modelled.\<close>

  \<^item> The demo backend (\<open>demo/backend/main.go\<close>): a separate process for demonstrations; any backend is covered by the
    arbitrary downstream handler.
  \<^item> Module registration with Caddy (\<open>init\<close>, \<open>CaddyModule\<close>, \<open>Routes\<close>), log lines and \<open>hashID\<close>, which only feeds one,
    and \<open>stagedBody.String\<close>, a debugging aid.
  \<^item> Contexts and cancellation: a cancelled call is an error of the store. Goroutines appear as interleaved store calls,
    and mutexes as atomic steps.
  \<^item> \<open>d.Seconds()\<close> is a double in Go and truncated afterwards; \<open>seconds_of\<close> divides exactly. The two can differ only for a
    duration of months that lies within a rounding error below a whole second.
  \<^item> \<open>doc.go\<close> holds a package comment only.
\<close>

end
